(* ===== verification/Prelude.thy ===== *)
theory Prelude
  imports Main "HOL-Library.Word"
begin

text \<open>
  The prelude of the development: the machine integers of the target (a 64-bit platform, so
  \<open>usize\<close> has 64 bits), results with panics, arithmetic with overflow checks (the workspace is
  built with \<open>overflow-checks = true\<close>, so an overflowing \<open>+\<close> or \<open>-\<close> panics in every profile),
  big-endian byte strings, the decimal and hexadecimal renderings used in messages and names,
  and the lemma collections the components share.
\<close>

section \<open>Types\<close>

type_synonym u8 = "8 word"
type_synonym u32 = "32 word"
type_synonym i32 = "32 word"
type_synonym u64 = "64 word"
type_synonym i64 = "64 word"
type_synonym usize = "64 word"
type_synonym bytes = "u8 list"

text \<open>
  A fallible Rust function returns \<open>Inr\<close> of its value, \<open>Inl (Err e)\<close> for \<open>Err(e)\<close>, or
  \<open>Inl (Panic msg)\<close> where it panics (a failed \<open>assert!\<close>, an \<open>unwrap\<close> or \<open>expect\<close> of nothing,
  an arithmetic overflow, an index out of range).
\<close>

datatype 'e fault = Err 'e | Panic string

type_synonym ('e, 'a) result = "'e fault + 'a"

named_theorems res_simps "the monad laws of results"
named_theorems eval_simps "equations that evaluate closed terms of the model"

section \<open>Results\<close>

abbreviation fail :: "'e \<Rightarrow> ('e, 'a) result" where
  "fail e \<equiv> Inl (Err e)"

abbreviation panic :: "string \<Rightarrow> ('e, 'a) result" where
  "panic msg \<equiv> Inl (Panic msg)"

text \<open>The \<open>?\<close> operator and \<open>Result::and_then\<close>: stop at the first fault.\<close>

definition and_then :: "('e, 'a) result \<Rightarrow> ('a \<Rightarrow> ('e, 'b) result) \<Rightarrow> ('e, 'b) result" where
  "and_then m f = (case m of Inl e \<Rightarrow> Inl e | Inr x \<Rightarrow> f x)"

lemma and_then_simps [simp, res_simps]:
  "and_then (Inl e) f = Inl e"
  "and_then (Inr x) f = f x"
  by (simp_all add: and_then_def)

lemma and_then_Inr_iff: "and_then m f = Inr y \<longleftrightarrow> (\<exists>x. m = Inr x \<and> f x = Inr y)"
  by (cases m) auto

lemma and_then_Inr [elim!]:
  assumes "and_then m f = Inr y"
  obtains x where "m = Inr x" and "f x = Inr y"
  using assms by (auto simp: and_then_Inr_iff)

lemma and_then_assoc: "and_then (and_then m f) g = and_then m (\<lambda>x. and_then (f x) g)"
  by (cases m) auto

text \<open>\<open>Option::ok_or\<close>, \<open>Option::unwrap\<close>/\<open>expect\<close>, \<open>Result::map_err\<close>, \<open>assert!\<close>.\<close>

definition ok_or :: "'e \<Rightarrow> 'a option \<Rightarrow> ('e, 'a) result" where
  "ok_or e x = (case x of None \<Rightarrow> fail e | Some v \<Rightarrow> Inr v)"

definition expect :: "string \<Rightarrow> 'a option \<Rightarrow> ('e, 'a) result" where
  "expect msg x = (case x of None \<Rightarrow> panic msg | Some v \<Rightarrow> Inr v)"

definition assert_that :: "string \<Rightarrow> bool \<Rightarrow> ('e, unit) result" where
  "assert_that msg b = (if b then Inr () else panic msg)"

definition map_err :: "('e \<Rightarrow> 'f) \<Rightarrow> ('e, 'a) result \<Rightarrow> ('f, 'a) result" where
  "map_err g m = (case m of Inl (Err e) \<Rightarrow> fail (g e) | Inl (Panic p) \<Rightarrow> panic p | Inr x \<Rightarrow> Inr x)"

text \<open>\<open>Result::unwrap\<close> turns an error into a panic; a call of a library that returns an error
  without panicking is lifted by \<open>lift_lib\<close>.\<close>

definition unwrap :: "string \<Rightarrow> ('e, 'a) result \<Rightarrow> ('f, 'a) result" where
  "unwrap msg m = (case m of Inl (Err e) \<Rightarrow> panic msg | Inl (Panic p) \<Rightarrow> panic p | Inr x \<Rightarrow> Inr x)"

definition lift_lib :: "('e \<Rightarrow> 'f) \<Rightarrow> 'e + 'a \<Rightarrow> ('f, 'a) result" where
  "lift_lib g m = (case m of Inl e \<Rightarrow> fail (g e) | Inr x \<Rightarrow> Inr x)"

text \<open>\<open>Result::ok\<close>; a panic still propagates.\<close>

definition ok :: "('e, 'a) result \<Rightarrow> ('f, 'a option) result" where
  "ok m = (case m of Inl (Err e) \<Rightarrow> Inr None | Inl (Panic p) \<Rightarrow> panic p | Inr x \<Rightarrow> Inr (Some x))"

lemma res_conv_simps [simp, res_simps]:
  "ok_or e None = fail e" "ok_or e (Some v) = Inr v"
  "expect msg None = panic msg" "expect msg (Some v) = Inr v"
  "assert_that msg True = Inr ()" "assert_that msg False = panic msg"
  "map_err g (Inr x) = Inr x" "map_err g (fail e') = fail (g e')" "map_err g (panic p) = panic p"
  "unwrap msg (Inr x) = Inr x" "unwrap msg (fail e') = panic msg" "unwrap msg (panic p) = panic p"
  "lift_lib h (Inr x) = Inr x" "lift_lib h (Inl e'') = fail (h e'')"
  "ok (Inr x) = Inr (Some x)" "ok (fail e') = Inr None" "ok (panic p) = panic p"
  by (simp_all add: ok_or_def expect_def assert_that_def map_err_def unwrap_def lift_lib_def ok_def)

lemma res_conv_Inr [simp, res_simps]:
  "ok_or e x = Inr v \<longleftrightarrow> x = Some v"
  "expect msg x = Inr v \<longleftrightarrow> x = Some v"
  "assert_that msg b = Inr u \<longleftrightarrow> b"
  "map_err g m = Inr v \<longleftrightarrow> m = Inr v"
  "unwrap msg m = Inr v \<longleftrightarrow> m = Inr v"
  "lift_lib h l = Inr v \<longleftrightarrow> l = Inr v"
  by (auto simp: ok_or_def expect_def assert_that_def map_err_def unwrap_def lift_lib_def
      split: option.splits sum.splits fault.splits)

text \<open>\<open>Result::ok\<close> of a call that cannot panic, \<open>Option::map(f).transpose()\<close>, and
  \<open>filter_map\<close>.\<close>

definition ok_opt :: "('e, 'a) result \<Rightarrow> 'a option" where
  "ok_opt m = (case m of Inl e \<Rightarrow> None | Inr x \<Rightarrow> Some x)"

definition panics :: "('e, 'a) result \<Rightarrow> bool" where
  "panics m = (case m of Inl (Panic p) \<Rightarrow> True | _ \<Rightarrow> False)"

definition map_transpose :: "('a \<Rightarrow> ('e, 'b) result) \<Rightarrow> 'a option \<Rightarrow> ('e, 'b option) result" where
  "map_transpose f x = (case x of None \<Rightarrow> Inr None | Some v \<Rightarrow> and_then (f v) (\<lambda>y. Inr (Some y)))"

lemma ok_opt_simps [simp]: "ok_opt (Inl e) = None" "ok_opt (Inr x) = Some x"
  by (simp_all add: ok_opt_def)

lemma ok_opt_Some [simp]: "ok_opt m = Some x \<longleftrightarrow> m = Inr x"
  by (auto simp: ok_opt_def split: sum.splits)

lemma panics_simps [simp]: "\<not> panics (Inr x)" "\<not> panics (fail e)" "panics (panic p)"
  by (simp_all add: panics_def)

lemma panics_and_then: "panics (and_then m f) \<longleftrightarrow> panics m \<or> (\<exists>x. m = Inr x \<and> panics (f x))"
  by (auto simp: panics_def and_then_def split: sum.splits fault.splits)

lemma map_transpose_simps [simp]:
  "map_transpose f None = Inr None"
  "map_transpose f (Some v) = and_then (f v) (\<lambda>y. Inr (Some y))"
  by (simp_all add: map_transpose_def)

text \<open>\<open>iter().map(f).collect::<Result<Vec<_>, _>>()\<close>: left to right, stopping at the first fault.\<close>

fun collect :: "('a \<Rightarrow> ('e, 'b) result) \<Rightarrow> 'a list \<Rightarrow> ('e, 'b list) result" where
  "collect f [] = Inr []"
| "collect f (x # xs) = and_then (f x) (\<lambda>y. and_then (collect f xs) (\<lambda>ys. Inr (y # ys)))"

lemma collect_all_Inr: "(\<And>x. x \<in> set xs \<Longrightarrow> f x = Inr (g x)) \<Longrightarrow> collect f xs = Inr (map g xs)"
  by (induction xs) auto

lemma collect_roundtrip:
  "(\<And>x. x \<in> set xs \<Longrightarrow> \<exists>y. f x = Inr y \<and> h y = Inr (g x)) \<Longrightarrow>
    \<exists>ys. collect f xs = Inr ys \<and> collect h ys = Inr (map g xs)"
proof (induction xs)
  case Nil
  then show ?case by simp
next
  case (Cons x xs)
  then obtain ys where "collect f xs = Inr ys" "collect h ys = Inr (map g xs)"
    by auto
  moreover from Cons.prems [of x] obtain y where "f x = Inr y" "h y = Inr (g x)"
    by auto
  ultimately show ?case by auto
qed

lemma collect_Inr_length: "collect f xs = Inr ys \<Longrightarrow> length ys = length xs"
  by (induction xs arbitrary: ys) auto

lemma collect_Inr_nth: "collect f xs = Inr ys \<Longrightarrow> i < length xs \<Longrightarrow> f (xs ! i) = Inr (ys ! i)"
  by (induction xs arbitrary: ys i) (auto simp: nth_Cons split: nat.splits)

text \<open>A sequence of calls on one state, stopping at the first fault.\<close>

fun each :: "('s \<Rightarrow> 'v \<Rightarrow> ('e, unit \<times> 's) result) \<Rightarrow> 's \<Rightarrow> 'v list \<Rightarrow> ('e, 's) result" where
  "each f s [] = Inr s"
| "each f s (v # vs) = and_then (f s v) (\<lambda>(u, s'). each f s' vs)"

lemma each_ok: "(\<And>s v. v \<in> set vs \<Longrightarrow> \<exists>s'. f s v = Inr ((), s')) \<Longrightarrow> \<exists>s'. each f s vs = Inr s'"
proof (induction vs arbitrary: s)
  case (Cons v vs)
  then obtain s1 where "f s v = Inr ((), s1)" by (meson list.set_intros(1))
  with Cons show ?case by simp
qed simp

section \<open>Operations on a state\<close>

text \<open>
  A method that mutates its receiver: from a state to a result and the state after it, kept also
  where the result is a fault. \<open>bind_io\<close> is sequencing with \<open>?\<close>.
\<close>

type_synonym ('s, 'e, 'a) io = "'s \<Rightarrow> ('e, 'a) result \<times> 's"

definition return_io :: "'a \<Rightarrow> ('s, 'e, 'a) io" where
  "return_io x = (\<lambda>s. (Inr x, s))"

definition lift_io :: "('e, 'a) result \<Rightarrow> ('s, 'e, 'a) io" where
  "lift_io r = (\<lambda>s. (r, s))"

definition bind_io :: "('s, 'e, 'a) io \<Rightarrow> ('a \<Rightarrow> ('s, 'e, 'b) io) \<Rightarrow> ('s, 'e, 'b) io" where
  "bind_io m f = (\<lambda>s. case m s of (Inl e, s') \<Rightarrow> (Inl e, s') | (Inr x, s') \<Rightarrow> f x s')"

definition get_io :: "('s, 'e, 's) io" where
  "get_io = (\<lambda>s. (Inr s, s))"

definition modify_io :: "('s \<Rightarrow> 's) \<Rightarrow> ('s, 'e, unit) io" where
  "modify_io f = (\<lambda>s. (Inr (), f s))"

lemma io_simps [simp, res_simps]:
  "return_io x s = (Inr x, s)" "lift_io r s = (r, s)" "get_io s = (Inr s, s)"
  "modify_io f s = (Inr (), f s)"
  by (simp_all add: return_io_def lift_io_def get_io_def modify_io_def)

lemma bind_io_simps [simp, res_simps]:
  "m s = (Inl e, s') \<Longrightarrow> bind_io m f s = (Inl e, s')"
  "m s = (Inr x, s') \<Longrightarrow> bind_io m f s = f x s'"
  by (simp_all add: bind_io_def)

lemma bind_io_apply [simp]:
  "bind_io (return_io x) f s = f x s" "bind_io get_io f s = f s s"
  "bind_io (modify_io g) f s = f () (g s)"
  "bind_io (lift_io (Inr y)) f s = f y s" "bind_io (lift_io (Inl e)) f s = (Inl e, s)"
  by (simp_all add: bind_io_def)

lemma bind_io_Inr: "bind_io m f s = (Inr y, s'') \<longleftrightarrow> (\<exists>x s'. m s = (Inr x, s') \<and> f x s' = (Inr y, s''))"
  by (auto simp: bind_io_def split: prod.splits sum.splits)

lemma modify_io_Inr: "modify_io f w = (Inr u, w') \<longleftrightarrow> w' = f w"
  by (auto simp: modify_io_def)

lemma get_io_Inr: "get_io w = (Inr x, w') \<longleftrightarrow> x = w \<and> w' = w"
  by (auto simp: get_io_def)

lemma lift_io_Inr: "lift_io m w = (Inr x, w') \<longleftrightarrow> m = Inr x \<and> w' = w"
  by (auto simp: lift_io_def)

lemma return_io_Inr: "return_io y w = (Inr x, w') \<longleftrightarrow> x = y \<and> w' = w"
  by (auto simp: return_io_def)

text \<open>A method moves a part of the state it works on only along the steps of a relation, whatever its
  result.\<close>

definition keeps :: "('v \<Rightarrow> 'v \<Rightarrow> bool) \<Rightarrow> ('w \<Rightarrow> 'v) \<Rightarrow> ('w, 'e, 'a) io \<Rightarrow> bool" where
  "keeps R view f \<longleftrightarrow> (\<forall>w r w'. f w = (r, w') \<longrightarrow> R\<^sup>*\<^sup>* (view w) (view w'))"

lemma keepsD: "keeps R view f \<Longrightarrow> f w = (r, w') \<Longrightarrow> R\<^sup>*\<^sup>* (view w) (view w')"
  by (auto simp: keeps_def)

lemma keeps_bind:
  assumes "keeps R view f" and "\<And>x. keeps R view (g x)"
  shows "keeps R view (bind_io f g)"
  unfolding keeps_def
proof (intro allI impI)
  fix w r w' assume run: "bind_io f g w = (r, w')"
  obtain r1 w1 where f: "f w = (r1, w1)" by fastforce
  with assms(1) have 1: "R\<^sup>*\<^sup>* (view w) (view w1)" by (rule keepsD)
  show "R\<^sup>*\<^sup>* (view w) (view w')"
  proof (cases r1)
    case (Inl e)
    with run f 1 show ?thesis by (simp add: bind_io_def)
  next
    case (Inr x)
    with run f have "g x w1 = (r, w')" by (simp add: bind_io_def)
    with assms(2) have "R\<^sup>*\<^sup>* (view w1) (view w')" by (rule keepsD)
    with 1 show ?thesis by (rule rtranclp_trans)
  qed
qed

lemma keeps_same:
  "(\<And>w. view (snd (f w)) = view w) \<Longrightarrow> keeps R view f"
  unfolding keeps_def by (metis rtranclp.rtrancl_refl sndI)

lemma keeps_io [simp]:
  "keeps R view get_io" "keeps R view (lift_io m)" "keeps R view (return_io x)"
  "keeps R view (Pair y)"
  by (simp_all add: keeps_def get_io_def lift_io_def return_io_def)

lemma keeps_modify: "(\<And>w. view (f w) = view w) \<Longrightarrow> keeps R view (modify_io f)"
  by (simp add: keeps_def modify_io_def)

lemma eq_rtranclp [simp]: "(=)\<^sup>*\<^sup>* = (=)"
proof (intro ext iffI)
  fix x y :: 'a
  show "(=)\<^sup>*\<^sup>* x y \<Longrightarrow> x = y" by (induction rule: rtranclp_induct) simp_all
qed simp

section \<open>Arithmetic with overflow checks\<close>

definition add_chk :: "'n::len word \<Rightarrow> 'n word \<Rightarrow> ('e, 'n word) result" where
  "add_chk a b = (if unat a + unat b < 2 ^ LENGTH('n) then Inr (a + b)
     else panic ''attempt to add with overflow'')"

definition sub_chk :: "'n::len word \<Rightarrow> 'n word \<Rightarrow> ('e, 'n word) result" where
  "sub_chk a b = (if unat b \<le> unat a then Inr (a - b)
     else panic ''attempt to subtract with overflow'')"

definition rem_chk :: "'n::len word \<Rightarrow> 'n word \<Rightarrow> ('e, 'n word) result" where
  "rem_chk a b = (if b = 0
     then panic ''attempt to calculate the remainder with a divisor of zero'' else Inr (a mod b))"

definition checked_sub :: "'n::len word \<Rightarrow> 'n word \<Rightarrow> 'n word option" where
  "checked_sub a b = (if unat b \<le> unat a then Some (a - b) else None)"

definition saturating_sub :: "'n::len word \<Rightarrow> 'n word \<Rightarrow> 'n word" where
  "saturating_sub a b = (if unat b \<le> unat a then a - b else 0)"

lemma add_chk_Inr: "add_chk a b = Inr c \<longleftrightarrow> unat a + unat b < 2 ^ LENGTH('n) \<and> c = a + b"
  for a b :: "'n::len word"
  by (auto simp: add_chk_def)

lemma unat_add_chk: "add_chk a b = Inr c \<Longrightarrow> unat c = unat a + unat b"
  by (auto simp: add_chk_Inr unat_word_ariths)

lemma unat_sub_le: "unat b \<le> unat a \<Longrightarrow> unat (a - b) = unat a - unat b"
  for a b :: "'n::len word"
  by (simp add: unat_sub word_le_nat_alt)

lemma sub_chk_Inr: "sub_chk a b = Inr c \<longleftrightarrow> unat b \<le> unat a \<and> c = a - b"
  by (auto simp: sub_chk_def)

lemma unat_sub_chk: "sub_chk a b = Inr c \<Longrightarrow> unat c = unat a - unat b"
  by (auto simp: sub_chk_Inr unat_sub_le)

lemma unat_saturating_sub: "unat (saturating_sub a b) = unat a - unat b"
  by (simp add: saturating_sub_def unat_sub_le)

text \<open>\<open>Iterator::sum\<close> over machine integers: a checked left fold from zero.\<close>

fun sum_from :: "'n::len word \<Rightarrow> 'n word list \<Rightarrow> ('e, 'n word) result" where
  "sum_from acc [] = Inr acc"
| "sum_from acc (x # xs) = and_then (add_chk acc x) (\<lambda>a. sum_from a xs)"

definition sum_chk :: "'n::len word list \<Rightarrow> ('e, 'n word) result" where
  "sum_chk xs = sum_from 0 xs"

lemma sum_from_ok:
  "unat acc + sum_list (map unat xs) < 2 ^ LENGTH('n) \<Longrightarrow>
    \<exists>s. sum_from acc xs = Inr s \<and> unat s = unat acc + sum_list (map unat xs)"
  for acc :: "'n::len word"
proof (induction xs arbitrary: acc)
  case Nil
  then show ?case by simp
next
  case (Cons x xs)
  then have lt: "unat acc + unat x < 2 ^ LENGTH('n)" by simp
  then have u: "unat (acc + x) = unat acc + unat x"
    by (simp add: unat_word_ariths)
  from Cons.prems have "unat (acc + x) + sum_list (map unat xs) < 2 ^ LENGTH('n)"
    by (simp add: u)
  from Cons.IH [OF this] lt show ?case
    by (auto simp: add_chk_def u)
qed

lemma sum_from_overflow:
  "2 ^ LENGTH('n) \<le> unat acc + sum_list (map unat xs) \<Longrightarrow>
    sum_from acc xs = (panic ''attempt to add with overflow'' :: ('e, _) result)"
  for acc :: "'n::len word"
proof (induction xs arbitrary: acc)
  case Nil
  have "unat acc < 2 ^ LENGTH('n)" by (rule unsigned_less)
  with Nil show ?case by simp
next
  case (Cons x xs)
  show ?case
  proof (cases "unat acc + unat x < 2 ^ LENGTH('n)")
    case True
    then have "unat (acc + x) = unat acc + unat x" by (simp add: unat_word_ariths)
    with Cons.prems have "2 ^ LENGTH('n) \<le> unat (acc + x) + sum_list (map unat xs)" by simp
    from Cons.IH [OF this] True show ?thesis by (simp add: add_chk_def)
  next
    case False
    then show ?thesis by (simp add: add_chk_def)
  qed
qed

lemma unat_u8_less: "unat (b :: u8) < 256"
  using unsigned_less [of b, where 'a = nat] by simp

lemma unat_u64_less: "unat (w :: u64) < 2 ^ 64"
  using unsigned_less [of w, where 'a = nat] by simp

lemma unat_u32_less: "unat (w :: u32) < 2 ^ 32"
  using unsigned_less [of w, where 'a = nat] by simp

lemma unat_ucast_u32 [simp]: "unat (ucast (n :: u32) :: u64) = unat n"
proof -
  have "unat n < 2 ^ 64" using unat_u32_less [of n] by (rule order.strict_trans) simp
  then show ?thesis by (simp add: unsigned_ucast_eq take_bit_nat_eq_self)
qed

section \<open>Big-endian byte strings\<close>

text \<open>\<open>to_be_bytes\<close>: the most significant byte first.\<close>

definition to_be_bytes :: "'n::len word \<Rightarrow> bytes" where
  "to_be_bytes w = map (\<lambda>i. ucast (drop_bit (8 * i) w)) (rev [0..<LENGTH('n) div 8])"

lemma length_to_be_bytes [simp]: "length (to_be_bytes (w :: 'n::len word)) = LENGTH('n) div 8"
  by (simp add: to_be_bytes_def)

lemma to_be_bytes_inject:
  assumes "to_be_bytes v = to_be_bytes w" and "8 dvd LENGTH('n)"
  shows "v = (w :: 'n::len word)"
proof (rule bit_word_eqI)
  fix n assume n: "n < LENGTH('n)"
  have "(ucast (drop_bit (8 * i) v) :: u8) = ucast (drop_bit (8 * i) w)"
    if "i < LENGTH('n) div 8" for i
    using assms(1) that by (simp add: to_be_bytes_def)
  moreover have "n div 8 < LENGTH('n) div 8"
    using n assms(2) by (auto elim!: dvdE)
  ultimately have "(ucast (drop_bit (8 * (n div 8)) v) :: u8) = ucast (drop_bit (8 * (n div 8)) w)"
    by blast
  then have "bit (ucast (drop_bit (8 * (n div 8)) v) :: u8) (n mod 8)
      = bit (ucast (drop_bit (8 * (n div 8)) w) :: u8) (n mod 8)"
    by simp
  then show "bit v n = bit w n"
    by (simp add: bit_ucast_iff bit_drop_bit_eq)
qed

text \<open>\<open>from_be_bytes\<close>, through the little-endian reading of the reversed bytes. An array
  \<open>[u8; N]\<close> is a word of \<open>8 * N\<close> bits, its bytes in big-endian order; the derived (byte-wise
  lexicographic) order of the array is the order of the word.\<close>

fun from_le_bytes :: "bytes \<Rightarrow> 'n::len word" where
  "from_le_bytes [] = 0"
| "from_le_bytes (b # bs) = or (ucast b) (push_bit 8 (from_le_bytes bs))"

definition from_be_bytes :: "bytes \<Rightarrow> 'n::len word" where
  "from_be_bytes bs = from_le_bytes (rev bs)"

lemma bit_from_le_bytes:
  "bit (from_le_bytes bs :: 'n::len word) n \<longleftrightarrow>
    n < LENGTH('n) \<and> n div 8 < length bs \<and> bit (bs ! (n div 8)) (n mod 8)"
proof (induction bs arbitrary: n)
  case Nil
  then show ?case by simp
next
  case (Cons b bs)
  show ?case
  proof (cases "n < 8")
    case True
    then show ?thesis
      by (auto simp: bit_or_iff bit_ucast_iff bit_push_bit_iff dest: bit_imp_le_length)
  next
    case False
    then have ge: "8 \<le> n" by simp
    then have "n div 8 = Suc ((n - 8) div 8)" "n mod 8 = (n - 8) mod 8"
      using le_div_geq [of 8 n] le_mod_geq [of 8 n] by simp_all
    moreover have "\<not> bit b n" using ge by (auto dest: bit_imp_le_length)
    ultimately show ?thesis
      using ge by (auto simp: bit_or_iff bit_ucast_iff bit_push_bit_iff Cons.IH)
  qed
qed

lemma rev_to_be_bytes_nth:
  "i < LENGTH('n) div 8 \<Longrightarrow> rev (to_be_bytes (w :: 'n::len word)) ! i = ucast (drop_bit (8 * i) w)"
  by (simp add: to_be_bytes_def rev_map)

lemma from_to_be_bytes [simp]:
  assumes "8 dvd LENGTH('n)"
  shows "from_be_bytes (to_be_bytes w) = (w :: 'n::len word)"
proof (rule bit_word_eqI)
  fix n assume n: "n < LENGTH('n)"
  then have "n div 8 < LENGTH('n) div 8" using assms by (auto elim!: dvdE)
  with n show "bit (from_be_bytes (to_be_bytes w) :: 'n word) n = bit w n"
    by (simp add: from_be_bytes_def bit_from_le_bytes rev_to_be_bytes_nth bit_ucast_iff
        bit_drop_bit_eq)
qed

lemma to_from_be_bytes [simp]:
  assumes "8 * length bs = LENGTH('n)"
  shows "to_be_bytes (from_be_bytes bs :: 'n::len word) = bs"
proof -
  have len: "LENGTH('n) div 8 = length bs" using assms by linarith
  have "rev (to_be_bytes (from_be_bytes bs :: 'n word)) = rev bs"
  proof (rule nth_equalityI)
    show "length (rev (to_be_bytes (from_be_bytes bs :: 'n word))) = length (rev bs)"
      by (simp add: len)
    fix i assume "i < length (rev (to_be_bytes (from_be_bytes bs :: 'n word)))"
    then have i: "i < length bs" by (simp add: len)
    show "rev (to_be_bytes (from_be_bytes bs :: 'n word)) ! i = rev bs ! i"
    proof (rule bit_word_eqI)
      fix n :: nat assume n: "n < LENGTH(8)"
      then have n8: "n < 8" by simp
      have "8 * i + n < LENGTH('n)" using i n8 assms by linarith
      moreover have "(8 * i + n) div 8 = i" "(8 * i + n) mod 8 = n" using n8 by simp_all
      ultimately show "bit (rev (to_be_bytes (from_be_bytes bs :: 'n word)) ! i) n = bit (rev bs ! i) n"
        using i n8 len
        by (simp add: rev_to_be_bytes_nth bit_ucast_iff bit_drop_bit_eq from_be_bytes_def
            bit_from_le_bytes add.commute)
    qed
  qed
  then show ?thesis by simp
qed

section \<open>Numbers as text\<close>

fun dec_digits :: "nat \<Rightarrow> nat list" where
  "dec_digits n = (if n < 10 then [n] else dec_digits (n div 10) @ [n mod 10])"

declare dec_digits.simps [simp del]

definition digit_char :: "nat \<Rightarrow> char" where
  "digit_char d = char_of (48 + d)"

text \<open>The \<open>Display\<close> rendering of an unsigned integer.\<close>

definition show_nat :: "nat \<Rightarrow> string" where
  "show_nat n = map digit_char (dec_digits n)"

lemma dec_digits_small: "d \<in> set (dec_digits n) \<Longrightarrow> d < 10"
proof (induction n rule: dec_digits.induct)
  case (1 n)
  then show ?case
    by (cases "n < 10") (auto simp: dec_digits.simps [of n])
qed

lemma dec_digits_value: "foldl (\<lambda>acc d. 10 * acc + d) 0 (dec_digits n) = n"
proof (induction n rule: dec_digits.induct)
  case (1 n)
  show ?case
  proof (cases "n < 10")
    case True
    then show ?thesis by (simp add: dec_digits.simps [of n])
  next
    case False
    then have "foldl (\<lambda>acc d. 10 * acc + d) 0 (dec_digits n)
        = 10 * foldl (\<lambda>acc d. 10 * acc + d) 0 (dec_digits (n div 10)) + n mod 10"
      by (subst dec_digits.simps) (simp del: One_nat_def)
    also have "\<dots> = 10 * (n div 10) + n mod 10" using 1 [OF False] by (simp only:)
    also have "\<dots> = n" by simp
    finally show ?thesis .
  qed
qed

lemma digit_char_inject: "d < 10 \<Longrightarrow> e < 10 \<Longrightarrow> digit_char d = digit_char e \<longleftrightarrow> d = e"
  unfolding digit_char_def
  by (rule iffI, drule arg_cong [where f = "of_char :: char \<Rightarrow> nat"]) simp_all

lemma map_digit_char_inject:
  assumes "\<forall>d\<in>set ds. d < 10" and "\<forall>e\<in>set es. e < 10"
    and "map digit_char ds = map digit_char es"
  shows "ds = es"
proof (rule map_inj_on [OF assms(3)])
  show "inj_on digit_char (set ds \<union> set es)"
    using assms(1,2) by (auto simp: inj_on_def digit_char_inject)
qed

lemma show_nat_inject [simp]: "show_nat m = show_nat n \<longleftrightarrow> m = n"
proof
  assume "show_nat m = show_nat n"
  then have "dec_digits m = dec_digits n"
    unfolding show_nat_def by (rule map_digit_char_inject [rotated 2]) (simp_all add: dec_digits_small)
  then have "foldl (\<lambda>acc d. 10 * acc + d) 0 (dec_digits m) = foldl (\<lambda>acc d. 10 * acc + d) 0 (dec_digits n)"
    by (rule arg_cong)
  then show "m = n" by (simp only: dec_digits_value)
qed simp

definition hex_digit_upper :: "nat \<Rightarrow> char" where
  "hex_digit_upper d = (if d < 10 then char_of (48 + d) else char_of (55 + d))"

text \<open>\<open>{byte:02X}\<close>\<close>

definition hex_byte_upper :: "u8 \<Rightarrow> string" where
  "hex_byte_upper b = [hex_digit_upper (unat b div 16), hex_digit_upper (unat b mod 16)]"

lemma hex_digit_upper_inject:
  "d < 16 \<Longrightarrow> e < 16 \<Longrightarrow> hex_digit_upper d = hex_digit_upper e \<longleftrightarrow> d = e"
  unfolding hex_digit_upper_def
  by (rule iffI, drule arg_cong [where f = "of_char :: char \<Rightarrow> nat"])
    (auto split: if_splits)

lemma hex_byte_upper_inject: "hex_byte_upper a = hex_byte_upper b \<longleftrightarrow> a = b"
proof
  assume eq: "hex_byte_upper a = hex_byte_upper b"
  have bd: "unat a div 16 < 16" "unat b div 16 < 16"
    using unat_u8_less [of a] unat_u8_less [of b] by simp_all
  from eq bd have "unat a div 16 = unat b div 16" "unat a mod 16 = unat b mod 16"
    by (auto simp: hex_byte_upper_def hex_digit_upper_inject)
  then have "unat a = unat b" by (metis div_mult_mod_eq)
  then show "a = b" by (rule word_unat_eq_iff [THEN iffD2])
qed simp

section \<open>Comparison\<close>

datatype ordering = Less | Equal | Greater

text \<open>\<open>Ord::cmp\<close> of a type with a derived order.\<close>

definition ord_cmp :: "'a::linorder \<Rightarrow> 'a \<Rightarrow> ordering" where
  "ord_cmp x y = (if x < y then Less else if x = y then Equal else Greater)"

fun ordering_reverse :: "ordering \<Rightarrow> ordering" where
  "ordering_reverse Less = Greater"
| "ordering_reverse Equal = Equal"
| "ordering_reverse Greater = Less"

lemma ord_cmp_Equal [simp]: "ord_cmp x y = Equal \<longleftrightarrow> x = y"
  by (simp add: ord_cmp_def)

lemma ord_cmp_Less [simp]: "ord_cmp x y = Less \<longleftrightarrow> x < y"
  by (simp add: ord_cmp_def)

lemma ord_cmp_Greater [simp]: "ord_cmp x y = Greater \<longleftrightarrow> y < x"
  by (auto simp: ord_cmp_def)

lemma ord_cmp_swap: "ord_cmp y x = ordering_reverse (ord_cmp x y)"
  by (auto simp: ord_cmp_def)

section \<open>Lists\<close>

text \<open>\<open>slice::chunks(n)\<close>: blocks of \<open>n\<close> elements, the last one shorter; it panics when \<open>n\<close> is 0,
  which the callers' constants exclude.\<close>

function chunks :: "nat \<Rightarrow> 'a list \<Rightarrow> 'a list list" where
  "chunks n xs = (if xs = [] \<or> n = 0 then [] else take n xs # chunks n (drop n xs))"
  by pat_completeness auto
termination
  by (relation "measure (\<lambda>(n, xs). length xs)") auto

declare chunks.simps [simp del]

lemma chunks_Nil [simp]: "chunks n [] = []"
  by (simp add: chunks.simps)

lemma concat_chunks: "0 < n \<Longrightarrow> concat (chunks n xs) = xs"
proof (induction n xs rule: chunks.induct)
  case (1 n xs)
  then show ?case
    by (cases "xs = []") (auto simp: chunks.simps [of n xs])
qed

lemma length_in_chunks: "c \<in> set (chunks n xs) \<Longrightarrow> 0 < length c \<and> length c \<le> n"
proof (induction n xs rule: chunks.induct)
  case (1 n xs)
  then show ?case
    by (cases "xs = [] \<or> n = 0") (auto simp: chunks.simps [of n xs])
qed

lemma length_chunks: "0 < n \<Longrightarrow> length (chunks n xs) = (length xs + n - 1) div n"
proof (induction n xs rule: chunks.induct)
  case (1 n xs)
  show ?case
  proof (cases "xs = []")
    case True
    with "1.prems" show ?thesis by simp
  next
    case False
    with 1 have IH: "length (chunks n (drop n xs)) = (length xs - n + n - 1) div n" by simp
    have "Suc ((length xs - n + n - 1) div n) = (length xs + n - 1) div n"
    proof (cases "n \<le> length xs")
      case True
      then have "length xs + n - 1 = (length xs - n + n - 1) + n" using "1.prems" by simp
      then show ?thesis using "1.prems" by (metis div_add_self2 not_gr_zero Suc_eq_plus1)
    next
      case b: False
      have "0 < length xs" using False by simp
      then have "length xs + n - 1 = n + (length xs - 1)" "length xs - 1 < n"
        using b by linarith+
      then have "(length xs + n - 1) div n = Suc 0"
        using "1.prems" by (simp only: div_add_self1) simp
      then show ?thesis using b "1.prems" by simp
    qed
    with False IH "1.prems" show ?thesis by (simp add: chunks.simps [of n xs])
  qed
qed

text \<open>\<open>Vec::dedup\<close>: removes consecutive equal elements only.\<close>

fun dedup :: "'a list \<Rightarrow> 'a list" where
  "dedup [] = []"
| "dedup [x] = [x]"
| "dedup (x # y # zs) = (if x = y then dedup (x # zs) else x # dedup (y # zs))"

lemma dedup_eq_Nil [simp]: "dedup xs = [] \<longleftrightarrow> xs = []"
  by (induction xs rule: dedup.induct) auto

lemma set_dedup [simp]: "set (dedup xs) = set xs"
  by (induction xs rule: dedup.induct) auto

lemma hd_dedup: "xs \<noteq> [] \<Longrightarrow> hd (dedup xs) = hd xs"
  by (induction xs rule: dedup.induct) auto

lemma dedup_no_repeat: "Suc i < length (dedup xs) \<Longrightarrow> dedup xs ! i \<noteq> dedup xs ! Suc i"
proof (induction xs arbitrary: i rule: dedup.induct)
  case (3 x y zs)
  show ?case
  proof (cases "x = y")
    case True
    with 3 show ?thesis by simp
  next
    case False
    moreover have "dedup (y # zs) ! 0 = y"
      using hd_dedup [of "y # zs"] by (simp add: hd_conv_nth)
    ultimately show ?thesis using 3 by (cases i) auto
  qed
qed auto

text \<open>Shifting a window of residues: every residue occurs once among \<open>n\<close> consecutive numbers.\<close>

lemma mod_window:
  fixes n a j :: nat
  assumes "j < n"
  shows "\<exists>!i. i < n \<and> (a + i) mod n = j"
proof -
  let ?i = "(j + n - a mod n) mod n"
  have "0 < n" using assms by simp
  then have le: "a mod n < n" by simp
  have "(a + ?i) mod n = (a mod n + (j + n - a mod n)) mod n"
    by (simp add: mod_simps)
  also have "a mod n + (j + n - a mod n) = j + n" using le by linarith
  also have "(j + n) mod n = j" using assms by simp
  finally have ex: "(a + ?i) mod n = j" .
  show ?thesis
  proof (rule ex1I)
    show "?i < n \<and> (a + ?i) mod n = j" using ex \<open>0 < n\<close> by simp
    fix i assume i: "i < n \<and> (a + i) mod n = j"
    with ex have "(a + i) mod n = (a + ?i) mod n" by simp
    then obtain q r where "a + i + n * q = a + ?i + n * r" by (auto simp: nat_mod_eq_iff)
    then have "(i + n * q) mod n = (?i + n * r) mod n" by (simp only: add.assoc add_left_cancel)
    then show "i = ?i" using i by simp
  qed
qed

lemma dedup_distinct: "distinct xs \<Longrightarrow> dedup xs = xs"
  by (induction xs rule: dedup.induct) auto

end
