(* ===== verification/External.thy ===== *)
theory External
  imports Prelude
begin

text \<open>
  The libraries the types crate is built on, which are not part of the repository: Malachite's
  core types, its signing crate, the code that prost generates from \<open>types/proto/*.proto\<close>, the
  hashers. Their data appears here with the shape the source builds and matches; their functions
  are fields of the record \<open>lib\<close> (grouped by library), an argument of every definition that uses them.
  What the code relies on is the predicate \<open>lib_laws\<close>: documented facts about these functions,
  named one by one. \<open>std_lib\<close> is a concrete instance, used by the witnesses.
\<close>

section \<open>Library data\<close>

text \<open>\<open>Round\<close> has the shape of \<open>RoundDef\<close> (a remote definition serde checks against it).\<close>

datatype Round = RNil | RSome u32

datatype 'v NilOrVal = ValNil | Val (the_val: 'v)

datatype VoteType = Prevote | Precommit

datatype Validity = Valid | Invalid

datatype PublicKey = PublicKey bytes

datatype PrivateKey = PrivateKey bytes

text \<open>An Ed25519 signature is 64 bytes.\<close>

datatype Signature = Signature "512 word"

datatype PeerId = PeerId bytes

datatype StreamId = StreamId bytes

text \<open>The errors of \<open>malachitebft_proto\<close> the code makes, and prost's decoding error.\<close>

datatype ProtoError = Other string | MissingField string string | Decode string

section \<open>Messages generated from \<open>types/proto/consensus.proto\<close>\<close>

record P_Address = pa_value :: bytes

record P_Value =
  pv_value :: u64
  pv_extensions :: bytes

record P_ValueId = pvi_value :: u64

datatype P_VoteType = PREVOTE | PRECOMMIT

record P_Vote =
  pvt_vote_type :: i32
  pvt_height :: u64
  pvt_round :: u32
  pvt_value :: "P_ValueId option"
  pvt_validator_address :: "P_Address option"

record P_Proposal =
  pp_height :: u64
  pp_round :: u32
  pp_value :: "P_Value option"
  pp_pol_round :: "u32 option"
  pp_validator_address :: "P_Address option"

record P_Signature = ps_bytes :: bytes

datatype P_Message = PM_Proposal P_Proposal | PM_Vote P_Vote

record P_SignedMessage =
  psm_message :: "P_Message option"
  psm_signature :: "P_Signature option"

record P_ProposalInit =
  ppi_height :: u64
  ppi_round :: u32
  ppi_proposer :: "P_Address option"

record P_ProposalData = ppd_bytes :: bytes

record P_ProposalFin = ppf_signature :: "P_Signature option"

datatype P_Part = PP_Init P_ProposalInit | PP_Data P_ProposalData | PP_Fin P_ProposalFin

record P_ProposalPart = ppp_part :: "P_Part option"

record P_Extension =
  pe_data :: bytes
  pe_signature :: "P_Signature option"

datatype P_Content = PC_Data bytes | PC_Fin bool

record P_StreamMessage =
  pst_stream_id :: bytes
  pst_sequence :: u64
  pst_content :: "P_Content option"

section \<open>Messages generated from \<open>types/proto/sync.proto\<close>\<close>

record P_PeerId = ppr_id :: bytes

record P_Status =
  pss_peer_id :: "P_PeerId option"
  pss_height :: u64
  pss_earliest_height :: u64

record P_CommitSignature =
  pcs_validator_address :: "P_Address option"
  pcs_signature :: "P_Signature option"

record P_AggregatedSignature = pas_signatures :: "P_CommitSignature list"

record P_CommitCertificate =
  pcc_height :: u64
  pcc_round :: u32
  pcc_value_id :: "P_ValueId option"
  pcc_aggregated_signature :: "P_AggregatedSignature option"

record P_ProposedValue =
  ppv_height :: u64
  ppv_round :: u32
  ppv_valid_round :: "u32 option"
  ppv_proposer :: "P_Address option"
  ppv_value :: "P_Value option"
  ppv_validity :: bool

record P_SyncedValue =
  psv_value_bytes :: bytes
  psv_certificate :: "P_CommitCertificate option"

record P_VoteSet = pvs_signed_votes :: "P_SignedMessage list"

datatype P_Request = PR_ValueRequest u64 | PR_VoteSetRequest u64 u32

record P_SyncRequest = psr_request :: "P_Request option"

datatype P_Response =
    PR_ValueResponse u64 "P_SyncedValue option"
  | PR_VoteSetResponse u64 u32 "P_VoteSet option"

record P_SyncResponse = psr_response :: "P_Response option"

section \<open>Library functions\<close>

text \<open>
  A message codec is prost's \<open>encode_to_vec\<close> and \<open>decode\<close> of one message type. The field
  \<open>vote_type_of_i32\<close> is the getter prost generates for an enumeration field, \<open>vote_type_to_i32\<close>
  the conversion of the enumeration to its wire number.
\<close>

record 'p codec =
  enc :: "'p \<Rightarrow> bytes"
  dec :: "bytes \<Rightarrow> ProtoError + 'p"

record prost_lib =
  vote_type_of_i32 :: "i32 \<Rightarrow> P_VoteType"
  vote_type_to_i32 :: "P_VoteType \<Rightarrow> i32"
  c_signature :: "P_Signature codec"
  c_signed_message :: "P_SignedMessage codec"
  c_stream_message :: "P_StreamMessage codec"
  c_proposed_value :: "P_ProposedValue codec"
  c_status :: "P_Status codec"
  c_sync_request :: "P_SyncRequest codec"
  c_sync_response :: "P_SyncResponse codec"
  c_certificate :: "P_CommitCertificate codec"

record crypto_lib =
  keccak256 :: "bytes \<Rightarrow> 256 word"
  siphash :: "bytes \<Rightarrow> u64"
  pk_as_bytes :: "PublicKey \<Rightarrow> bytes"
  sk_public_key :: "PrivateKey \<Rightarrow> PublicKey"
  sk_sign :: "PrivateKey \<Rightarrow> bytes \<Rightarrow> Signature"
  pk_verify :: "PublicKey \<Rightarrow> bytes \<Rightarrow> Signature \<Rightarrow> bool"
  sig_to_bytes :: "Signature \<Rightarrow> bytes"
  sig_from_bytes :: "bytes \<Rightarrow> Signature"

record round_lib =
  round_new :: "u32 \<Rightarrow> Round"
  round_as_u32 :: "Round \<Rightarrow> u32 option"
  round_as_i64 :: "Round \<Rightarrow> i64"
  round_of_opt :: "u32 option \<Rightarrow> Round"
  round_of_i64 :: "i64 \<Rightarrow> Round"
  validity_of_bool :: "bool \<Rightarrow> Validity"
  validity_to_bool :: "Validity \<Rightarrow> bool"

record id_lib =
  peer_to_bytes :: "PeerId \<Rightarrow> bytes"
  peer_from_bytes :: "bytes \<Rightarrow> PeerId option"
  sid_new :: "bytes \<Rightarrow> StreamId"
  sid_to_bytes :: "StreamId \<Rightarrow> bytes"

record lib =
  rounds :: round_lib
  crypto :: crypto_lib
  ids :: id_lib
  prost :: prost_lib

section \<open>What the code relies on\<close>

text \<open>\<open>Round\<close>: \<open>new\<close> makes a round that is not nil; the readings invert it; nil reads as no
  \<open>u32\<close> and as -1; \<open>from\<close> an option or an \<open>i64\<close> inverts the reading. \<open>Validity\<close> survives its
  boolean form.\<close>

definition round_laws :: "round_lib \<Rightarrow> bool" where
  "round_laws R \<longleftrightarrow>
     (\<forall>n. round_new R n = RSome n) \<and>
     (\<forall>n. round_as_u32 R (RSome n) = Some n) \<and> round_as_u32 R RNil = None \<and>
     (\<forall>n. round_as_i64 R (RSome n) = ucast n) \<and> round_as_i64 R RNil = - 1 \<and>
     (\<forall>n. round_of_opt R (Some n) = RSome n) \<and> round_of_opt R None = RNil \<and>
     (\<forall>r. round_of_i64 R (round_as_i64 R r) = r) \<and>
     (\<forall>v. validity_of_bool R (validity_to_bool R v) = v)"

text \<open>Signatures: the public key of a private key accepts what the private key signs; the byte
  form of a signature has 64 bytes and identifies it.\<close>

definition crypto_laws :: "crypto_lib \<Rightarrow> bool" where
  "crypto_laws C \<longleftrightarrow>
     (\<forall>sk m. pk_verify C (sk_public_key C sk) m (sk_sign C sk m)) \<and>
     (\<forall>s. length (sig_to_bytes C s) = 64) \<and>
     (\<forall>s. sig_from_bytes C (sig_to_bytes C s) = s) \<and>
     (\<forall>bs. length bs = 64 \<longrightarrow> sig_to_bytes C (sig_from_bytes C bs) = bs)"

text \<open>Identifiers: their byte forms identify them.\<close>

definition id_laws :: "id_lib \<Rightarrow> bool" where
  "id_laws I \<longleftrightarrow>
     (\<forall>p. peer_from_bytes I (peer_to_bytes I p) = Some p) \<and>
     (\<forall>b. sid_to_bytes I (sid_new I b) = b) \<and> (\<forall>s. sid_new I (sid_to_bytes I s) = s)"

text \<open>prost: decoding the encoding of a message gives the message back; the getter of the
  enumeration field reads the numbers of the \<open>.proto\<close> file.\<close>

definition codec_ok :: "'p codec \<Rightarrow> bool" where
  "codec_ok c \<longleftrightarrow> (\<forall>p. dec c (enc c p) = Inr p)"

definition prost_laws :: "prost_lib \<Rightarrow> bool" where
  "prost_laws P \<longleftrightarrow>
     (\<forall>t. vote_type_of_i32 P (vote_type_to_i32 P t) = t) \<and>
     codec_ok (c_signature P) \<and> codec_ok (c_signed_message P) \<and> codec_ok (c_stream_message P) \<and>
     codec_ok (c_proposed_value P) \<and> codec_ok (c_status P) \<and> codec_ok (c_sync_request P) \<and>
     codec_ok (c_sync_response P) \<and> codec_ok (c_certificate P)"

definition lib_laws :: "'z lib_scheme \<Rightarrow> bool" where
  "lib_laws L \<longleftrightarrow> round_laws (rounds L) \<and> crypto_laws (crypto L) \<and> id_laws (ids L) \<and>
     prost_laws (prost L)"

named_theorems law_simps "what the laws of the libraries give as rewrite rules"

lemma round_lawsD [law_simps]:
  assumes "round_laws R"
  shows "round_new R n = RSome n" "round_as_u32 R (RSome n) = Some n" "round_as_u32 R RNil = None"
    "round_as_i64 R (RSome n) = ucast n" "round_as_i64 R RNil = - 1"
    "round_of_opt R (Some n) = RSome n" "round_of_opt R None = RNil"
    "round_of_i64 R (round_as_i64 R r) = r"
    "validity_of_bool R (validity_to_bool R v) = v"
  using assms by (simp_all add: round_laws_def)

lemma crypto_lawsD [law_simps]:
  assumes "crypto_laws C"
  shows "pk_verify C (sk_public_key C sk) m (sk_sign C sk m)"
    "length (sig_to_bytes C s) = 64" "sig_from_bytes C (sig_to_bytes C s) = s"
    "length bs = 64 \<Longrightarrow> sig_to_bytes C (sig_from_bytes C bs) = bs"
  using assms by (simp_all add: crypto_laws_def)

lemma id_lawsD [law_simps]:
  assumes "id_laws I"
  shows "peer_from_bytes I (peer_to_bytes I p) = Some p" "sid_to_bytes I (sid_new I b) = b"
    "sid_new I (sid_to_bytes I s) = s"
  using assms by (simp_all add: id_laws_def)

lemma codec_okD: "codec_ok c \<Longrightarrow> dec c (enc c p) = Inr p"
  by (simp add: codec_ok_def)

lemma prost_lawsD [law_simps]:
  assumes "prost_laws P"
  shows "vote_type_of_i32 P (vote_type_to_i32 P t) = t"
    "dec (c_signature P) (enc (c_signature P) a) = Inr a"
    "dec (c_signed_message P) (enc (c_signed_message P) b) = Inr b"
    "dec (c_stream_message P) (enc (c_stream_message P) c) = Inr c"
    "dec (c_proposed_value P) (enc (c_proposed_value P) d) = Inr d"
    "dec (c_status P) (enc (c_status P) e) = Inr e"
    "dec (c_sync_request P) (enc (c_sync_request P) f) = Inr f"
    "dec (c_sync_response P) (enc (c_sync_response P) g) = Inr g"
    "dec (c_certificate P) (enc (c_certificate P) h) = Inr h"
  using assms by (simp_all add: prost_laws_def codec_ok_def)

lemma lib_lawsD [law_simps]:
  assumes "lib_laws L"
  shows "round_laws (rounds L)" "crypto_laws (crypto L)" "id_laws (ids L)" "prost_laws (prost L)"
  using assms by (simp_all add: lib_laws_def)

lemma round_cases_nonnil: "r \<noteq> RNil \<Longrightarrow> \<exists>n. r = RSome n"
  by (cases r) auto

text \<open>The order of \<open>i64\<close> readings: nil comes before every other round.\<close>

lemma sint_ucast_u32: "sint (ucast (n :: u32) :: i64) = uint n"
proof -
  have "uint n < 2 ^ 32" using uint_lt2p [of n] by simp
  then have "take_bit 63 (uint n) = uint n" by (simp add: take_bit_int_eq_self)
  then show ?thesis
    by (simp add: signed_ucast_eq signed_take_bit_eq_if_positive unsigned_ucast_eq
        not_le bit_take_bit_iff bit_uint_iff)
qed

lemma sint_round:
  assumes "round_laws R"
  shows "sint (round_as_i64 R (RSome n)) = uint n" "sint (round_as_i64 R RNil) = - 1"
  using assms by (simp_all add: law_simps sint_ucast_u32)

end
