(* ===== verification/Wire.thy ===== *)
theory Wire
  imports External
begin

text \<open>
  The contract between a domain type and its protobuf message, the \<open>Protobuf\<close> trait of
  \<open>malachitebft_proto\<close>: what \<open>to_proto\<close> makes of a valid value, \<open>from_proto\<close> reads back, up to
  the part of the value the message carries. Every message type of the types crate interprets
  this locale in its own theory; the codec and the store use its lemmas.
\<close>

text \<open>
  \<open>to_bytes\<close> and \<open>from_bytes\<close> are provided by the trait: the serialised message of \<open>to_proto\<close>,
  and \<open>from_proto\<close> of the message read. \<open>protobuf_law\<close> says so of a pair of such functions.
\<close>

definition protobuf_law ::
  "('m \<Rightarrow> (ProtoError, 'p) result) \<Rightarrow> ('p \<Rightarrow> (ProtoError, 'm) result) \<Rightarrow>
   ('m \<Rightarrow> (ProtoError, bytes) result) \<Rightarrow> (bytes \<Rightarrow> (ProtoError, 'm) result) \<Rightarrow> bool" where
  "protobuf_law to_proto from_proto to_bytes from_bytes \<longleftrightarrow>
     (\<exists>c. codec_ok c \<and> (\<forall>m. to_bytes m = and_then (to_proto m) (\<lambda>p. Inr (enc c p))) \<and>
       (\<forall>b. from_bytes b = and_then (lift_lib id (dec c b)) from_proto))"

text \<open>The parameter \<open>laws\<close> stands for the documented facts about the libraries a format uses.\<close>

locale wire_format =
  fixes to_proto :: "'m \<Rightarrow> (ProtoError, 'p) result"
    and from_proto :: "'p \<Rightarrow> (ProtoError, 'm) result"
    and laws :: bool
    and valid :: "'m \<Rightarrow> bool"
    and carried :: "'m \<Rightarrow> 'm"
  assumes to_from:
    "laws \<Longrightarrow> valid m \<Longrightarrow> \<exists>p. to_proto m = Inr p \<and> from_proto p = Inr (carried m)"
begin

lemma roundtrip: "laws \<Longrightarrow> valid m \<Longrightarrow> and_then (to_proto m) from_proto = Inr (carried m)"
  using to_from by fastforce

lemma encodes: "laws \<Longrightarrow> valid m \<Longrightarrow> \<exists>p. to_proto m = Inr p"
  using to_from by blast

lemma decodes: "laws \<Longrightarrow> valid m \<Longrightarrow> to_proto m = Inr p \<Longrightarrow> from_proto p = Inr (carried m)"
  using to_from by fastforce

lemma same_message:
  "laws \<Longrightarrow> valid m \<Longrightarrow> valid n \<Longrightarrow> to_proto m = to_proto n \<Longrightarrow> carried m = carried n"
  by (metis Inr_inject roundtrip)

lemma list_roundtrip:
  assumes "laws" and "list_all valid ms"
  shows "\<exists>ps. collect to_proto ms = Inr ps \<and> collect from_proto ps = Inr (map carried ms)"
  using assms to_from by (intro collect_roundtrip) (auto simp: list_all_iff)

lemma through_bytes:
  assumes "laws" and "codec_ok c" and "valid m"
  shows "\<exists>b. and_then (to_proto m) (\<lambda>p. Inr (enc c p)) = Inr b \<and>
    and_then (lift_lib id (dec c b)) from_proto = Inr (carried m)"
proof -
  from to_from [OF assms(1,3)] obtain p where "to_proto m = Inr p" "from_proto p = Inr (carried m)"
    by blast
  then show ?thesis using assms(2) by (simp add: codec_okD)
qed

lemma trait_bytes:
  assumes "laws" and "protobuf_law to_proto from_proto to_bytes from_bytes" and "valid m"
  shows "\<exists>b. to_bytes m = Inr b \<and> from_bytes b = Inr (carried m)"
  using assms through_bytes by (fastforce simp: protobuf_law_def)

lemma trait_bytes_inject:
  assumes "laws" and "protobuf_law to_proto from_proto to_bytes from_bytes"
    and "valid m" and "valid n" and "to_bytes m = to_bytes n"
  shows "carried m = carried n"
  using trait_bytes [OF assms(1,2,3)] trait_bytes [OF assms(1,2,4)] assms(5) by auto

end

text \<open>A canonical format carries the whole value, and only the encoding of a value decodes to it.\<close>

locale wire_canonical = wire_format to_proto from_proto laws valid "\<lambda>m. m"
  for to_proto :: "'m \<Rightarrow> (ProtoError, 'p) result" and from_proto laws valid +
  assumes from_to: "laws \<Longrightarrow> from_proto p = Inr m \<Longrightarrow> valid m \<and> to_proto m = Inr p"
begin

lemma from_proto_inject: "laws \<Longrightarrow> from_proto p = Inr m \<Longrightarrow> from_proto q = Inr m \<Longrightarrow> p = q"
  by (metis Inr_inject from_to)

lemma to_proto_inject:
  "laws \<Longrightarrow> valid m \<Longrightarrow> valid n \<Longrightarrow> to_proto m = to_proto n \<Longrightarrow> m = n"
  by (rule same_message)

lemma accepts_iff: "laws \<Longrightarrow> (\<exists>m. from_proto p = Inr m) \<longleftrightarrow> (\<exists>m. valid m \<and> to_proto m = Inr p)"
  using from_to to_from by fastforce

lemma bytes_inject:
  assumes "laws" and "protobuf_law to_proto from_proto to_bytes from_bytes"
    and "valid m" and "valid n" and "to_bytes m = to_bytes n"
  shows "m = n"
  using trait_bytes_inject [OF assms] .

end

end
