(* ===== verification/Heights.thy ===== *)
theory Heights
  imports Wire
begin

text \<open>\<open>types/src/height.rs\<close>: block heights, a \<open>u64\<close> with checked, optional and saturating steps.\<close>

datatype Height = Height (as_u64: u64)

definition Height_new :: "u64 \<Rightarrow> Height" where
  "Height_new h = Height h"

definition Height_increment :: "Height \<Rightarrow> ('e, Height) result" where
  "Height_increment h = and_then (add_chk (as_u64 h) 1) (\<lambda>n. Inr (Height n))"

definition Height_decrement :: "Height \<Rightarrow> Height option" where
  "Height_decrement h = map_option Height (checked_sub (as_u64 h) 1)"

definition Height_default :: Height where
  "Height_default = Height 1"

definition Height_ZERO :: Height where
  "Height_ZERO = Height_new 0"

definition Height_INITIAL :: Height where
  "Height_INITIAL = Height_new 1"

definition Height_increment_by :: "Height \<Rightarrow> u64 \<Rightarrow> ('e, Height) result" where
  "Height_increment_by h n = and_then (add_chk (as_u64 h) n) (\<lambda>k. Inr (Height k))"

definition Height_decrement_by :: "Height \<Rightarrow> u64 \<Rightarrow> Height option" where
  "Height_decrement_by h n = Some (Height (saturating_sub (as_u64 h) n))"

definition Height_fmt :: "Height \<Rightarrow> string" where
  "Height_fmt h = show_nat (unat (as_u64 h))"

definition Height_debug :: "Height \<Rightarrow> string" where
  "Height_debug h = ''Height('' @ show_nat (unat (as_u64 h)) @ '')''"

definition Height_from_proto :: "u64 \<Rightarrow> (ProtoError, Height) result" where
  "Height_from_proto p = Inr (Height p)"

definition Height_to_proto :: "Height \<Rightarrow> (ProtoError, u64) result" where
  "Height_to_proto h = Inr (as_u64 h)"

text \<open>The derived \<open>Ord\<close> compares the inner integers.\<close>

instantiation Height :: linorder
begin

definition less_eq_Height_def: "h \<le> k \<longleftrightarrow> as_u64 h \<le> as_u64 k"

definition less_Height_def: "h < k \<longleftrightarrow> as_u64 h < as_u64 k"

instance
proof
  fix x y z :: Height
  show "x < y \<longleftrightarrow> x \<le> y \<and> \<not> y \<le> x"
    by (auto simp: less_eq_Height_def less_Height_def)
  show "x \<le> x" by (simp add: less_eq_Height_def)
  show "x \<le> y \<Longrightarrow> y \<le> z \<Longrightarrow> x \<le> z" by (simp add: less_eq_Height_def)
  show "x \<le> y \<Longrightarrow> y \<le> x \<Longrightarrow> x = y"
    by (simp add: less_eq_Height_def Height.expand)
  show "x \<le> y \<or> y \<le> x"
    by (auto simp: less_eq_Height_def)
qed

end

abbreviation hval :: "Height \<Rightarrow> nat" where
  "hval h \<equiv> unat (as_u64 h)"

lemma Height_less_hval: "h < k \<longleftrightarrow> hval h < hval k"
  by (simp add: less_Height_def word_less_nat_alt)

lemma Height_le_hval: "h \<le> k \<longleftrightarrow> hval h \<le> hval k"
  by (simp add: less_eq_Height_def word_le_nat_alt)

lemma hval_inject: "hval h = hval k \<longleftrightarrow> h = k"
  by (cases h, cases k) (simp add: word_unat_eq_iff)

lemma hval_less: "hval h < 2 ^ 64"
  by (rule unat_u64_less)

lemma Height_increment_Inr:
  "Height_increment h = Inr k \<longleftrightarrow> hval h + 1 < 2 ^ 64 \<and> hval k = hval h + 1"
  by (cases k) (auto simp: Height_increment_def and_then_Inr_iff add_chk_Inr unat_word_ariths
      word_unat_eq_iff)

lemma Height_increment_max:
  "hval h = 2 ^ 64 - 1 \<Longrightarrow> Height_increment h = panic ''attempt to add with overflow''"
  by (simp add: Height_increment_def add_chk_def)

lemma hval_decrement_by: "Height_decrement_by h n = Some k \<Longrightarrow> hval k = hval h - unat n"
  by (auto simp: Height_decrement_by_def unat_saturating_sub)

interpretation height_wire: wire_canonical Height_to_proto Height_from_proto True "\<lambda>h. True"
  by unfold_locales (auto simp: Height_to_proto_def Height_from_proto_def)

text \<open>Stepping down after stepping up returns to the same height.\<close>

lemma increment_decrement: "Height_increment h = Inr k \<Longrightarrow> Height_decrement k = Some h"
proof -
  assume "Height_increment h = Inr k"
  then have k: "hval k = hval h + 1" by (simp add: Height_increment_Inr)
  then have "unat (as_u64 k - 1) = hval h" by (simp add: unat_sub_le)
  then have "Height (as_u64 k - 1) = h" by (simp add: hval_inject [symmetric])
  with k show ?thesis by (simp add: Height_decrement_def checked_sub_def)
qed

end
