(* ===== verification/Addresses.thy ===== *)
theory Addresses
  imports Wire
begin

text \<open>
  \<open>types/src/address.rs\<close> and \<open>Hashable\<close> of \<open>types/src/signing.rs\<close>: validator addresses, the
  first 20 bytes of the Keccak-256 hash of the public key.
\<close>

definition Address_LENGTH :: nat where
  "Address_LENGTH = 20"

datatype Address = Address (address_word: "160 word")

definition PublicKey_hash :: "'z lib_scheme \<Rightarrow> PublicKey \<Rightarrow> 256 word" where
  "PublicKey_hash L pk = keccak256 (crypto L) (pk_as_bytes (crypto L) pk)"

text \<open>\<open>Address::new\<close> takes an array of \<open>LENGTH\<close> bytes, given here as the list of its bytes.\<close>

definition Address_new :: "bytes \<Rightarrow> Address" where
  "Address_new value = Address (from_be_bytes value)"

definition Address_from_public_key :: "'z lib_scheme \<Rightarrow> PublicKey \<Rightarrow> Address" where
  "Address_from_public_key L pk =
     (let hash = to_be_bytes (PublicKey_hash L pk)
      in Address_new (take Address_LENGTH hash))"

definition Address_into_inner :: "Address \<Rightarrow> bytes" where
  "Address_into_inner a = to_be_bytes (address_word a)"

definition Address_repeat_byte :: "u8 \<Rightarrow> Address" where
  "Address_repeat_byte b = Address_new (replicate Address_LENGTH b)"

definition Address_fmt :: "Address \<Rightarrow> string" where
  "Address_fmt a = concat (map hex_byte_upper (Address_into_inner a))"

definition Address_debug :: "Address \<Rightarrow> string" where
  "Address_debug a = ''Address('' @ Address_fmt a @ '')''"

definition Address_from_proto :: "P_Address \<Rightarrow> (ProtoError, Address) result" where
  "Address_from_proto proto =
     (if length (pa_value proto) \<noteq> Address_LENGTH
      then fail (Other (''Invalid address length: expected '' @ show_nat Address_LENGTH
        @ '', got '' @ show_nat (length (pa_value proto))))
      else Inr (Address_new (pa_value proto)))"

definition Address_to_proto :: "Address \<Rightarrow> (ProtoError, P_Address) result" where
  "Address_to_proto a = Inr \<lparr>pa_value = Address_into_inner a\<rparr>"

text \<open>The derived \<open>Ord\<close> is the lexicographic order of the bytes, that of the big-endian word.\<close>

instantiation Address :: linorder
begin

definition less_eq_Address_def: "a \<le> b \<longleftrightarrow> address_word a \<le> address_word b"

definition less_Address_def: "a < b \<longleftrightarrow> address_word a < address_word b"

instance
proof
  fix x y z :: Address
  show "x < y \<longleftrightarrow> x \<le> y \<and> \<not> y \<le> x"
    by (auto simp: less_eq_Address_def less_Address_def)
  show "x \<le> x" by (simp add: less_eq_Address_def)
  show "x \<le> y \<Longrightarrow> y \<le> z \<Longrightarrow> x \<le> z" by (simp add: less_eq_Address_def)
  show "x \<le> y \<Longrightarrow> y \<le> x \<Longrightarrow> x = y"
    by (simp add: less_eq_Address_def Address.expand)
  show "x \<le> y \<or> y \<le> x"
    by (auto simp: less_eq_Address_def)
qed

end

lemma length_Address_into_inner [simp]: "length (Address_into_inner a) = 20"
  by (simp add: Address_into_inner_def)

lemma Address_into_inner_new: "length bs = 20 \<Longrightarrow> Address_into_inner (Address_new bs) = bs"
  by (simp add: Address_into_inner_def Address_new_def)

lemma Address_new_into_inner [simp]: "Address_new (Address_into_inner a) = a"
  by (simp add: Address_into_inner_def Address_new_def)

lemma Address_into_inner_inject: "Address_into_inner a = Address_into_inner b \<longleftrightarrow> a = b"
  by (metis Address_new_into_inner)

lemma Address_from_proto_Inr:
  "Address_from_proto p = Inr a \<longleftrightarrow> length (pa_value p) = 20 \<and> a = Address_new (pa_value p)"
  by (auto simp: Address_from_proto_def Address_LENGTH_def)

interpretation address_wire: wire_canonical Address_to_proto Address_from_proto True "\<lambda>a. True"
  by unfold_locales
    (auto simp: Address_to_proto_def Address_from_proto_Inr Address_into_inner_new)

lemma concat_map_inject:
  assumes "concat (map f xs) = concat (map f ys)" and "\<And>x. length (f x) = n" and "0 < n"
    and "inj f" and "length xs = length ys"
  shows "xs = ys"
  using assms(5,1)
proof (induction xs ys rule: list_induct2)
  case Nil
  then show ?case by simp
next
  case (Cons x xs y ys)
  then have "f x = f y" "concat (map f xs) = concat (map f ys)"
    using assms(2) by (auto simp: append_eq_append_conv)
  with Cons.IH show ?case using assms(4) by (simp add: inj_eq)
qed

text \<open>The rendering of an address determines it.\<close>

lemma Address_fmt_inject: "Address_fmt a = Address_fmt b \<longleftrightarrow> a = b"
proof
  assume "Address_fmt a = Address_fmt b"
  moreover have "inj hex_byte_upper" by (simp add: inj_def hex_byte_upper_inject)
  moreover have "length (hex_byte_upper x) = 2" for x by (simp add: hex_byte_upper_def)
  ultimately have "Address_into_inner a = Address_into_inner b"
    unfolding Address_fmt_def by (intro concat_map_inject [where n = 2 and f = hex_byte_upper]) simp_all
  then show "a = b" by (simp add: Address_into_inner_inject)
qed simp

end
