(* ===== verification/Values.thy ===== *)
theory Values
  imports Wire
begin

text \<open>
  \<open>types/src/value.rs\<close>: the value consensus decides on, a 64-bit hash of the block bytes together
  with the bytes themselves, and its identifier.
\<close>

datatype ValueId = ValueId (value_id_u64: u64)

definition ValueId_new :: "u64 \<Rightarrow> ValueId" where
  "ValueId_new i = ValueId i"

definition ValueId_from_proto :: "P_ValueId \<Rightarrow> (ProtoError, ValueId) result" where
  "ValueId_from_proto p = Inr (ValueId_new (pvi_value p))"

definition ValueId_to_proto :: "ValueId \<Rightarrow> (ProtoError, P_ValueId) result" where
  "ValueId_to_proto v = Inr \<lparr>pvi_value = value_id_u64 v\<rparr>"

record Value =
  val_value :: u64
  val_extensions :: bytes

text \<open>\<open>DefaultHasher\<close> (SipHash) over the bytes is the library function \<open>siphash\<close>.\<close>

definition Value_new :: "'z lib_scheme \<Rightarrow> bytes \<Rightarrow> Value" where
  "Value_new L data = \<lparr>val_value = siphash (crypto L) data, val_extensions = data\<rparr>"

definition Value_id :: "Value \<Rightarrow> ValueId" where
  "Value_id v = ValueId (val_value v)"

definition Value_size_bytes :: "Value \<Rightarrow> nat" where
  "Value_size_bytes v = 8 + length (val_extensions v)"

definition Value_from_proto :: "P_Value \<Rightarrow> (ProtoError, Value) result" where
  "Value_from_proto p = Inr \<lparr>val_value = pv_value p, val_extensions = pv_extensions p\<rparr>"

definition Value_to_proto :: "Value \<Rightarrow> (ProtoError, P_Value) result" where
  "Value_to_proto v = Inr \<lparr>pv_value = val_value v, pv_extensions = val_extensions v\<rparr>"

interpretation value_id_wire: wire_canonical ValueId_to_proto ValueId_from_proto True "\<lambda>v. True"
  by unfold_locales
    (auto simp: ValueId_to_proto_def ValueId_from_proto_def ValueId_new_def)

interpretation value_wire: wire_canonical Value_to_proto Value_from_proto True "\<lambda>v. True"
  by unfold_locales (auto simp: Value_to_proto_def Value_from_proto_def)

lemma Value_new_inject: "Value_new L a = Value_new L b \<longleftrightarrow> a = b"
  by (auto simp: Value_new_def)

end
