(* ===== verification/Messages.thy ===== *)
theory Messages
  imports Heights Addresses Values
begin

text \<open>
  The consensus messages of the types crate: \<open>vote.rs\<close>, \<open>proposal.rs\<close>, \<open>proposal_part.rs\<close>, and
  the signature conversions of \<open>codec/proto/mod.rs\<close> they use. Every message interprets the wire
  contract; a nil round cannot be encoded and panics.
\<close>

section \<open>Signatures and extensions on the wire\<close>

record SignedExtension =
  ext_message :: bytes
  ext_signature :: Signature

definition encode_signature :: "'z lib_scheme \<Rightarrow> Signature \<Rightarrow> P_Signature" where
  "encode_signature L s = \<lparr>ps_bytes = sig_to_bytes (crypto L) s\<rparr>"

definition decode_signature :: "'z lib_scheme \<Rightarrow> P_Signature \<Rightarrow> (ProtoError, Signature) result" where
  "decode_signature L p =
     (if length (ps_bytes p) = 64 then Inr (sig_from_bytes (crypto L) (ps_bytes p))
      else fail (Other ''Invalid signature length''))"

interpretation signature_wire:
  wire_canonical "\<lambda>s. Inr (encode_signature L s)" "decode_signature L"
    "crypto_laws (crypto L)" "\<lambda>s. True" for L
  by unfold_locales
    (auto simp: encode_signature_def decode_signature_def law_simps split: if_splits)

lemma decode_encode_signature [simp]:
  "crypto_laws (crypto L) \<Longrightarrow> decode_signature L (encode_signature L s) = Inr s"
  using signature_wire.to_from [of L s] by simp

lemma encode_decode_signature:
  "crypto_laws (crypto L) \<Longrightarrow> decode_signature L p = Inr s \<Longrightarrow> encode_signature L s = p"
  using signature_wire.from_to by simp

section \<open>Votes\<close>

record Vote =
  vote_typ :: VoteType
  vote_height :: Height
  vote_round :: Round
  vote_value :: "ValueId NilOrVal"
  vote_validator_address :: Address
  vote_extension :: "SignedExtension option"

definition Vote_new_prevote :: "Height \<Rightarrow> Round \<Rightarrow> ValueId NilOrVal \<Rightarrow> Address \<Rightarrow> Vote" where
  "Vote_new_prevote h r v a = \<lparr>vote_typ = Prevote, vote_height = h, vote_round = r,
     vote_value = v, vote_validator_address = a, vote_extension = None\<rparr>"

definition Vote_new_precommit :: "Height \<Rightarrow> Round \<Rightarrow> ValueId NilOrVal \<Rightarrow> Address \<Rightarrow> Vote" where
  "Vote_new_precommit h r v a = \<lparr>vote_typ = Precommit, vote_height = h, vote_round = r,
     vote_value = v, vote_validator_address = a, vote_extension = None\<rparr>"

definition Vote_take_extension :: "Vote \<Rightarrow> SignedExtension option \<times> Vote" where
  "Vote_take_extension v = (vote_extension v, v\<lparr>vote_extension := None\<rparr>)"

definition Vote_extend :: "Vote \<Rightarrow> SignedExtension \<Rightarrow> Vote" where
  "Vote_extend v e = v\<lparr>vote_extension := Some e\<rparr>"

fun encode_votetype :: "VoteType \<Rightarrow> P_VoteType" where
  "encode_votetype Prevote = PREVOTE"
| "encode_votetype Precommit = PRECOMMIT"

fun decode_votetype :: "P_VoteType \<Rightarrow> VoteType" where
  "decode_votetype PREVOTE = Prevote"
| "decode_votetype PRECOMMIT = Precommit"

definition Vote_from_proto :: "'z lib_scheme \<Rightarrow> P_Vote \<Rightarrow> (ProtoError, Vote) result" where
  "Vote_from_proto L proto =
     and_then (Height_from_proto (pvt_height proto)) (\<lambda>h.
     and_then (case pvt_value proto of
         Some v \<Rightarrow> and_then (ValueId_from_proto v) (\<lambda>i. Inr (Val i)) | None \<Rightarrow> Inr ValNil) (\<lambda>value.
     and_then (ok_or (MissingField ''Vote'' ''validator_address'') (pvt_validator_address proto)) (\<lambda>pa.
     and_then (Address_from_proto pa) (\<lambda>a.
       Inr \<lparr>vote_typ = decode_votetype (vote_type_of_i32 (prost L) (pvt_vote_type proto)),
            vote_height = h,
            vote_round = round_new (rounds L) (pvt_round proto),
            vote_value = value,
            vote_validator_address = a,
            vote_extension = None\<rparr>))))"

definition Vote_to_proto :: "'z lib_scheme \<Rightarrow> Vote \<Rightarrow> (ProtoError, P_Vote) result" where
  "Vote_to_proto L v =
     and_then (Height_to_proto (vote_height v)) (\<lambda>h.
     and_then (expect ''round should not be nil'' (round_as_u32 (rounds L) (vote_round v))) (\<lambda>r.
     and_then (case vote_value v of
         ValNil \<Rightarrow> Inr None | Val i \<Rightarrow> and_then (ValueId_to_proto i) (\<lambda>p. Inr (Some p))) (\<lambda>value.
     and_then (Address_to_proto (vote_validator_address v)) (\<lambda>a.
       Inr \<lparr>pvt_vote_type = vote_type_to_i32 (prost L) (encode_votetype (vote_typ v)),
            pvt_height = h, pvt_round = r, pvt_value = value,
            pvt_validator_address = Some a\<rparr>))))"

lemma decode_encode_votetype [simp]: "decode_votetype (encode_votetype t) = t"
  by (cases t) simp_all

lemmas proto_defs = Height_from_proto_def Height_to_proto_def ValueId_from_proto_def
  ValueId_to_proto_def ValueId_new_def Value_from_proto_def Value_to_proto_def
  Address_to_proto_def Address_from_proto_Inr

lemma Address_from_into_inner [simp]: "Address_from_proto \<lparr>pa_value = Address_into_inner a\<rparr> = Inr a"
  by (simp add: Address_from_proto_Inr)

interpretation vote_wire:
  wire_format "Vote_to_proto L" "Vote_from_proto L"
    "round_laws (rounds L) \<and> prost_laws (prost L)" "\<lambda>v. vote_round v \<noteq> RNil"
    "\<lambda>v. v\<lparr>vote_extension := None\<rparr>" for L
proof unfold_locales
  fix v :: Vote
  assume v: "round_laws (rounds L) \<and> prost_laws (prost L)" "vote_round v \<noteq> RNil"
  then obtain n where "vote_round v = RSome n" using round_cases_nonnil by blast
  with v show "\<exists>p. Vote_to_proto L v = Inr p \<and> Vote_from_proto L p = Inr (v\<lparr>vote_extension := None\<rparr>)"
    by (cases "vote_value v") (auto simp: Vote_to_proto_def Vote_from_proto_def proto_defs law_simps)
qed

lemma Vote_to_proto_nil:
  "round_laws (rounds L) \<Longrightarrow> vote_round v = RNil \<Longrightarrow>
    Vote_to_proto L v = panic ''round should not be nil''"
  by (simp add: Vote_to_proto_def proto_defs law_simps)

section \<open>Proposals\<close>

record Proposal =
  prop_height :: Height
  prop_round :: Round
  prop_value :: Value
  prop_pol_round :: Round
  prop_validator_address :: Address

definition Proposal_new :: "Height \<Rightarrow> Round \<Rightarrow> Value \<Rightarrow> Round \<Rightarrow> Address \<Rightarrow> Proposal" where
  "Proposal_new h r v pol a = \<lparr>prop_height = h, prop_round = r, prop_value = v,
     prop_pol_round = pol, prop_validator_address = a\<rparr>"

definition Proposal_to_proto :: "'z lib_scheme \<Rightarrow> Proposal \<Rightarrow> (ProtoError, P_Proposal) result" where
  "Proposal_to_proto L p =
     and_then (Height_to_proto (prop_height p)) (\<lambda>h.
     and_then (expect ''round should not be nil'' (round_as_u32 (rounds L) (prop_round p))) (\<lambda>r.
     and_then (Value_to_proto (prop_value p)) (\<lambda>v.
     and_then (Address_to_proto (prop_validator_address p)) (\<lambda>a.
       Inr \<lparr>pp_height = h, pp_round = r, pp_value = Some v,
            pp_pol_round = round_as_u32 (rounds L) (prop_pol_round p),
            pp_validator_address = Some a\<rparr>))))"

definition Proposal_from_proto :: "'z lib_scheme \<Rightarrow> P_Proposal \<Rightarrow> (ProtoError, Proposal) result" where
  "Proposal_from_proto L proto =
     and_then (Height_from_proto (pp_height proto)) (\<lambda>h.
     and_then (ok_or (MissingField ''Proposal'' ''value'') (pp_value proto)) (\<lambda>pv.
     and_then (Value_from_proto pv) (\<lambda>v.
     and_then (ok_or (MissingField ''Proposal'' ''validator_address'')
         (pp_validator_address proto)) (\<lambda>pa.
     and_then (Address_from_proto pa) (\<lambda>a.
       Inr \<lparr>prop_height = h,
            prop_round = round_new (rounds L) (pp_round proto),
            prop_value = v,
            prop_pol_round = round_of_opt (rounds L) (pp_pol_round proto),
            prop_validator_address = a\<rparr>)))))"

lemma round_of_as_u32: "round_laws R \<Longrightarrow> round_of_opt R (round_as_u32 R r) = r"
  by (cases r) (simp_all add: law_simps)

interpretation proposal_wire:
  wire_canonical "Proposal_to_proto L" "Proposal_from_proto L"
    "round_laws (rounds L)" "\<lambda>p. prop_round p \<noteq> RNil" for L
proof unfold_locales
  fix p :: Proposal
  assume p: "round_laws (rounds L)" "prop_round p \<noteq> RNil"
  then obtain n where "prop_round p = RSome n" using round_cases_nonnil by blast
  with p show "\<exists>q. Proposal_to_proto L p = Inr q \<and> Proposal_from_proto L q = Inr p"
    by (auto simp: Proposal_to_proto_def Proposal_from_proto_def proto_defs law_simps
        round_of_as_u32)
next
  fix q p
  assume q: "round_laws (rounds L)" "Proposal_from_proto L q = Inr p"
  have "round_as_u32 (rounds L) (round_of_opt (rounds L) x) = x" for x
    using q(1) by (cases x) (simp_all add: law_simps)
  with q show "prop_round p \<noteq> RNil \<and> Proposal_to_proto L p = Inr q"
    by (auto simp: Proposal_to_proto_def Proposal_from_proto_def proto_defs law_simps
        and_then_Inr_iff Address_into_inner_new)
qed

section \<open>Proposal parts\<close>

record ProposalData = data_bytes :: bytes

record ProposalInit =
  init_height :: Height
  init_round :: Round
  init_proposer :: Address

record ProposalFin = fin_signature :: Signature

datatype ProposalPart = PartInit ProposalInit | PartData ProposalData | PartFin ProposalFin

definition ProposalData_new :: "bytes \<Rightarrow> ProposalData" where
  "ProposalData_new b = \<lparr>data_bytes = b\<rparr>"

text \<open>\<open>size_of::<u64>()\<close>, whatever the data.\<close>

definition ProposalData_size_bytes :: "ProposalData \<Rightarrow> nat" where
  "ProposalData_size_bytes d = 8"

definition ProposalInit_new :: "Height \<Rightarrow> Round \<Rightarrow> Address \<Rightarrow> ProposalInit" where
  "ProposalInit_new h r a = \<lparr>init_height = h, init_round = r, init_proposer = a\<rparr>"

definition ProposalFin_new :: "Signature \<Rightarrow> ProposalFin" where
  "ProposalFin_new s = \<lparr>fin_signature = s\<rparr>"

fun get_type :: "ProposalPart \<Rightarrow> string" where
  "get_type (PartInit _) = ''init''"
| "get_type (PartData _) = ''data''"
| "get_type (PartFin _) = ''fin''"

fun as_init :: "ProposalPart \<Rightarrow> ProposalInit option" where
  "as_init (PartInit i) = Some i"
| "as_init _ = None"

fun as_data :: "ProposalPart \<Rightarrow> ProposalData option" where
  "as_data (PartData d) = Some d"
| "as_data _ = None"

fun is_first_part :: "ProposalPart \<Rightarrow> bool" where
  "is_first_part (PartInit _) = True"
| "is_first_part _ = False"

fun is_last_part :: "ProposalPart \<Rightarrow> bool" where
  "is_last_part (PartFin _) = True"
| "is_last_part _ = False"

definition ProposalPart_from_proto ::
  "'z lib_scheme \<Rightarrow> P_ProposalPart \<Rightarrow> (ProtoError, ProposalPart) result" where
  "ProposalPart_from_proto L proto =
     and_then (ok_or (MissingField ''ProposalPart'' ''part'') (ppp_part proto)) (\<lambda>part.
       (case part of
          PP_Init i \<Rightarrow>
            and_then (and_then (ok_or (MissingField ''ProposalPart'' ''proposer'') (ppi_proposer i))
                Address_from_proto) (\<lambda>a.
              Inr (PartInit \<lparr>init_height = Height_new (ppi_height i),
                init_round = round_new (rounds L) (ppi_round i), init_proposer = a\<rparr>))
        | PP_Data d \<Rightarrow> Inr (PartData (ProposalData_new (ppd_bytes d)))
        | PP_Fin f \<Rightarrow>
            and_then (and_then (ok_or (MissingField ''ProposalPart'' ''signature'') (ppf_signature f))
                (decode_signature L)) (\<lambda>s.
              Inr (PartFin \<lparr>fin_signature = s\<rparr>))))"

definition ProposalPart_to_proto ::
  "'z lib_scheme \<Rightarrow> ProposalPart \<Rightarrow> (ProtoError, P_ProposalPart) result" where
  "ProposalPart_to_proto L part =
     (case part of
        PartInit i \<Rightarrow>
          and_then (expect ''called `Option::unwrap()` on a `None` value''
              (round_as_u32 (rounds L) (init_round i))) (\<lambda>r.
          and_then (Address_to_proto (init_proposer i)) (\<lambda>a.
            Inr \<lparr>ppp_part = Some (PP_Init \<lparr>ppi_height = as_u64 (init_height i), ppi_round = r,
              ppi_proposer = Some a\<rparr>)\<rparr>))
      | PartData d \<Rightarrow> Inr \<lparr>ppp_part = Some (PP_Data \<lparr>ppd_bytes = data_bytes d\<rparr>)\<rparr>
      | PartFin f \<Rightarrow>
          Inr \<lparr>ppp_part = Some (PP_Fin \<lparr>ppf_signature = Some (encode_signature L (fin_signature f))\<rparr>)\<rparr>)"

fun part_round_ok :: "ProposalPart \<Rightarrow> bool" where
  "part_round_ok (PartInit i) = (init_round i \<noteq> RNil)"
| "part_round_ok _ = True"

interpretation part_wire:
  wire_canonical "ProposalPart_to_proto L" "ProposalPart_from_proto L"
    "round_laws (rounds L) \<and> crypto_laws (crypto L)" part_round_ok for L
proof unfold_locales
  fix p
  assume p: "round_laws (rounds L) \<and> crypto_laws (crypto L)" "part_round_ok p"
  show "\<exists>q. ProposalPart_to_proto L p = Inr q \<and> ProposalPart_from_proto L q = Inr p"
  proof (cases p)
    case (PartInit i)
    with p obtain n where "init_round i = RSome n" using round_cases_nonnil by auto
    with p PartInit show ?thesis
      by (auto simp: ProposalPart_to_proto_def ProposalPart_from_proto_def proto_defs law_simps
          Height_new_def)
  qed (use p in \<open>auto simp: ProposalPart_to_proto_def ProposalPart_from_proto_def
      ProposalData_new_def\<close>)
next
  fix q p
  assume q: "round_laws (rounds L) \<and> crypto_laws (crypto L)" "ProposalPart_from_proto L q = Inr p"
  then obtain part where part: "q = \<lparr>ppp_part = Some part\<rparr>"
    by (cases q) (auto simp: ProposalPart_from_proto_def)
  show "part_round_ok p \<and> ProposalPart_to_proto L p = Inr q"
    using q part
    by (cases part)
      (auto simp: ProposalPart_to_proto_def ProposalPart_from_proto_def proto_defs law_simps
        and_then_Inr_iff Height_new_def ProposalData_new_def Address_into_inner_new
        encode_decode_signature)
qed

section \<open>The trait's byte forms\<close>

text \<open>\<open>Protobuf::to_bytes\<close> and \<open>from_bytes\<close> of the messages that are signed or stored.\<close>

record protobuf_trait =
  vote_to_bytes :: "Vote \<Rightarrow> (ProtoError, bytes) result"
  proposal_to_bytes :: "Proposal \<Rightarrow> (ProtoError, bytes) result"
  part_to_bytes :: "ProposalPart \<Rightarrow> (ProtoError, bytes) result"
  part_from_bytes :: "bytes \<Rightarrow> (ProtoError, ProposalPart) result"
  value_to_bytes :: "Value \<Rightarrow> (ProtoError, bytes) result"
  value_from_bytes :: "bytes \<Rightarrow> (ProtoError, Value) result"

record msg_lib = lib + protobuf :: protobuf_trait

definition msg_laws :: "'z msg_lib_scheme \<Rightarrow> bool" where
  "msg_laws L \<longleftrightarrow> lib_laws L \<and>
     (\<exists>vote_from_bytes. protobuf_law (Vote_to_proto L) (Vote_from_proto L)
        (vote_to_bytes (protobuf L)) vote_from_bytes) \<and>
     (\<exists>proposal_from_bytes. protobuf_law (Proposal_to_proto L) (Proposal_from_proto L)
        (proposal_to_bytes (protobuf L)) proposal_from_bytes) \<and>
     protobuf_law (ProposalPart_to_proto L) (ProposalPart_from_proto L)
       (part_to_bytes (protobuf L)) (part_from_bytes (protobuf L)) \<and>
     protobuf_law Value_to_proto Value_from_proto
       (value_to_bytes (protobuf L)) (value_from_bytes (protobuf L))"

definition Vote_to_bytes :: "'z msg_lib_scheme \<Rightarrow> Vote \<Rightarrow> ('e, bytes) result" where
  "Vote_to_bytes L v = unwrap ''called `Result::unwrap()` on an `Err` value''
     (vote_to_bytes (protobuf L) v)"

definition Proposal_to_bytes :: "'z msg_lib_scheme \<Rightarrow> Proposal \<Rightarrow> ('e, bytes) result" where
  "Proposal_to_bytes L p = unwrap ''called `Result::unwrap()` on an `Err` value''
     (proposal_to_bytes (protobuf L) p)"

definition to_sign_bytes :: "'z msg_lib_scheme \<Rightarrow> ProposalPart \<Rightarrow> ('e, bytes) result" where
  "to_sign_bytes L p = unwrap ''called `Result::unwrap()` on an `Err` value''
     (part_to_bytes (protobuf L) p)"

definition part_size_bytes :: "'z msg_lib_scheme \<Rightarrow> ProposalPart \<Rightarrow> ('e, nat) result" where
  "part_size_bytes L p = and_then (to_sign_bytes L p) (\<lambda>b. Inr (length b))"

lemma msg_lawsD:
  assumes "msg_laws L"
  shows "lib_laws L" "round_laws (rounds L)" "crypto_laws (crypto L)" "id_laws (ids L)"
    "prost_laws (prost L)"
    "protobuf_law (ProposalPart_to_proto L) (ProposalPart_from_proto L)
       (part_to_bytes (protobuf L)) (part_from_bytes (protobuf L))"
    "protobuf_law Value_to_proto Value_from_proto
       (value_to_bytes (protobuf L)) (value_from_bytes (protobuf L))"
  using assms by (simp_all add: msg_laws_def lib_laws_def)

lemma value_bytes_roundtrip:
  "msg_laws L \<Longrightarrow> \<exists>b. value_to_bytes (protobuf L) v = Inr b \<and> value_from_bytes (protobuf L) b = Inr v"
  by (rule value_wire.trait_bytes) (auto simp: msg_lawsD)

lemma part_bytes_roundtrip:
  "msg_laws L \<Longrightarrow> part_round_ok p \<Longrightarrow>
    \<exists>b. part_to_bytes (protobuf L) p = Inr b \<and> part_from_bytes (protobuf L) b = Inr p"
  by (rule part_wire.trait_bytes [where L = L]) (auto simp: msg_lawsD)

lemma vote_bytes_inject:
  assumes "msg_laws L" and "vote_round v \<noteq> RNil" and "vote_round w \<noteq> RNil"
    and "vote_to_bytes (protobuf L) v = vote_to_bytes (protobuf L) w"
  shows "v\<lparr>vote_extension := None\<rparr> = w\<lparr>vote_extension := None\<rparr>"
  using assms vote_wire.trait_bytes_inject [of L _ _ v w]
  by (auto simp: msg_laws_def lib_laws_def)

lemma proposal_bytes_inject:
  assumes "msg_laws L" and "prop_round p \<noteq> RNil" and "prop_round q \<noteq> RNil"
    and "proposal_to_bytes (protobuf L) p = proposal_to_bytes (protobuf L) q"
  shows "p = q"
  using assms proposal_wire.bytes_inject [of L _ _ p q]
  by (auto simp: msg_laws_def lib_laws_def)

end
