(* ===== verification/Validators.thy ===== *)
theory Validators
  imports Messages
begin

text \<open>
  \<open>types/src/validator_set.rs\<close>, the proposer selection of \<open>types/src/context.rs\<close> and
  \<open>types/src/proposer_selector.rs\<close>. Lengths are \<open>usize\<close> words where the code computes with them.
\<close>

section \<open>Validators and validator sets\<close>

type_synonym VotingPower = u64

record Validator =
  validator_address :: Address
  validator_public_key :: PublicKey
  validator_voting_power :: VotingPower

definition Validator_new :: "'z lib_scheme \<Rightarrow> PublicKey \<Rightarrow> VotingPower \<Rightarrow> Validator" where
  "Validator_new L pk vp = \<lparr>validator_address = Address_from_public_key L pk,
     validator_public_key = pk, validator_voting_power = vp\<rparr>"

definition Validator_cmp :: "Validator \<Rightarrow> Validator \<Rightarrow> ordering" where
  "Validator_cmp v w = ord_cmp (validator_address v) (validator_address w)"

record ValidatorSet = validators :: "Validator list"

definition sort_validators :: "Validator list \<Rightarrow> Validator list" where
  "sort_validators vals = dedup vals"

definition ValidatorSet_new :: "Validator list \<Rightarrow> ('e, ValidatorSet) result" where
  "ValidatorSet_new vs =
     (let validators = sort_validators vs in
      and_then (assert_that ''assertion failed: !validators.is_empty()'' (validators \<noteq> [])) (\<lambda>_.
        Inr \<lparr>validators = validators\<rparr>))"

definition total_voting_power :: "ValidatorSet \<Rightarrow> ('e, VotingPower) result" where
  "total_voting_power vs = sum_chk (map validator_voting_power (validators vs))"

definition get_by_address :: "ValidatorSet \<Rightarrow> Address \<Rightarrow> Validator option" where
  "get_by_address vs a = find (\<lambda>v. validator_address v = a) (validators vs)"

definition get_by_public_key :: "ValidatorSet \<Rightarrow> PublicKey \<Rightarrow> Validator option" where
  "get_by_public_key vs pk = find (\<lambda>v. validator_public_key v = pk) (validators vs)"

definition get_keys :: "ValidatorSet \<Rightarrow> PublicKey list" where
  "get_keys vs = map validator_public_key (validators vs)"

definition vs_count :: "ValidatorSet \<Rightarrow> usize" where
  "vs_count vs = of_nat (length (validators vs))"

definition get_by_index :: "ValidatorSet \<Rightarrow> usize \<Rightarrow> Validator option" where
  "get_by_index vs i =
     (if unat i < length (validators vs) then Some (validators vs ! unat i) else None)"

lemma get_by_address_Some:
  "get_by_address vs a = Some v \<Longrightarrow> v \<in> set (validators vs) \<and> validator_address v = a"
  by (auto simp: get_by_address_def find_Some_iff)

lemma get_by_address_None:
  "get_by_address vs a = None \<longleftrightarrow> a \<notin> validator_address ` set (validators vs)"
  by (auto simp: get_by_address_def find_None_iff)

lemma get_by_address_mem:
  assumes "v \<in> set (validators vs)" and "inj_on validator_address (set (validators vs))"
  shows "get_by_address vs (validator_address v) = Some v"
proof (cases "get_by_address vs (validator_address v)")
  case None
  with assms(1) show ?thesis by (auto simp: get_by_address_None)
next
  case (Some w)
  from get_by_address_Some [OF this] assms Some show ?thesis by (auto dest: inj_onD)
qed

lemma ValidatorSet_new_Inr:
  "ValidatorSet_new vs = Inr s \<longleftrightarrow> vs \<noteq> [] \<and> s = \<lparr>validators = dedup vs\<rparr>"
  by (auto simp: ValidatorSet_new_def sort_validators_def and_then_Inr_iff Let_def)

lemma ValidatorSet_new_Nil: "ValidatorSet_new [] = panic ''assertion failed: !validators.is_empty()''"
  by (simp add: ValidatorSet_new_def sort_validators_def)

lemma total_voting_power_ok:
  assumes "sum_list (map (\<lambda>v. unat (validator_voting_power v)) (validators vs)) < 2 ^ 64"
  shows "\<exists>t. total_voting_power vs = Inr t \<and>
    unat t = sum_list (map (\<lambda>v. unat (validator_voting_power v)) (validators vs))"
  using sum_from_ok [of "0 :: u64" "map validator_voting_power (validators vs)"] assms
  by (simp add: total_voting_power_def sum_chk_def comp_def)

section \<open>Proposer selection\<close>

definition select_proposer ::
  "'z lib_scheme \<Rightarrow> ValidatorSet \<Rightarrow> Height \<Rightarrow> Round \<Rightarrow> ('e, Validator) result" where
  "select_proposer L vs height round =
     and_then (assert_that ''assertion failed: validator_set.count() > 0'' (0 < vs_count vs)) (\<lambda>_.
     and_then (assert_that ''assertion failed: round != Round::Nil && round.as_i64() >= 0''
         (round \<noteq> RNil \<and> 0 \<le> sint (round_as_i64 (rounds L) round))) (\<lambda>_.
     let h = as_u64 height; r = round_as_i64 (rounds L) round in
     and_then (sub_chk h 1) (\<lambda>h1.
     and_then (add_chk h1 r) (\<lambda>hr.
     and_then (rem_chk hr (vs_count vs)) (\<lambda>proposer_index.
       expect ''proposer_index is valid'' (get_by_index vs proposer_index))))))"

definition RotateProposer_select_proposer ::
  "'z lib_scheme \<Rightarrow> Height \<Rightarrow> Round \<Rightarrow> ValidatorSet \<Rightarrow> ('e, Address) result" where
  "RotateProposer_select_proposer L height round vs =
     and_then (assert_that ''assertion failed: round != Round::Nil && round.as_i64() >= 0''
         (round \<noteq> RNil \<and> 0 \<le> sint (round_as_i64 (rounds L) round))) (\<lambda>_.
     let h = as_u64 height; r = round_as_i64 (rounds L) round in
     and_then (sub_chk h 1) (\<lambda>h1.
     and_then (add_chk h1 r) (\<lambda>hr.
     and_then (rem_chk hr (of_nat (length (validators vs)))) (\<lambda>proposer_index.
     and_then (expect ''index out of bounds'' (get_by_index vs proposer_index)) (\<lambda>v.
       Inr (validator_address v))))))"

datatype FixedProposer = FixedProposer (fixed_proposer: Address)

definition FixedProposer_select_proposer ::
  "FixedProposer \<Rightarrow> Height \<Rightarrow> Round \<Rightarrow> ValidatorSet \<Rightarrow> Address" where
  "FixedProposer_select_proposer p h r vs = fixed_proposer p"

text \<open>
  The rotation contract both selectors share: for a height from 1 on and a round that is not nil,
  the proposer is the validator at index \<open>(height - 1 + round) mod count\<close>.
\<close>

definition rotation_ok :: "ValidatorSet \<Rightarrow> Height \<Rightarrow> u32 \<Rightarrow> bool" where
  "rotation_ok vs h n \<longleftrightarrow> validators vs \<noteq> [] \<and> length (validators vs) < 2 ^ 64 \<and> 1 \<le> hval h \<and>
     hval h - 1 + unat n < 2 ^ 64"

definition rotation_index :: "ValidatorSet \<Rightarrow> Height \<Rightarrow> u32 \<Rightarrow> nat" where
  "rotation_index vs h n = (hval h - 1 + unat n) mod length (validators vs)"

locale proposer_rotation =
  fixes select :: "ValidatorSet \<Rightarrow> Height \<Rightarrow> Round \<Rightarrow> (unit, 'a) result"
    and pick :: "Validator \<Rightarrow> 'a"
    and laws :: bool
  assumes rotates: "laws \<Longrightarrow> rotation_ok vs h n \<Longrightarrow>
    select vs h (RSome n) = Inr (pick (validators vs ! rotation_index vs h n))"
begin

lemma selects_member:
  assumes "laws" and "rotation_ok vs h n"
  shows "\<exists>v \<in> set (validators vs). select vs h (RSome n) = Inr (pick v)"
proof -
  have "rotation_index vs h n < length (validators vs)"
    using assms(2) by (simp add: rotation_ok_def rotation_index_def)
  then show ?thesis using rotates [OF assms] by (intro bexI [OF _ nth_mem]) simp_all
qed

text \<open>Among \<open>count\<close> consecutive rounds of a height every seat proposes in exactly one.\<close>

lemma fair_window:
  assumes "laws" and "j < length (validators vs)"
    and "\<And>i. i < length (validators vs) \<Longrightarrow> rotation_ok vs h (n + of_nat i)"
    and "unat n + length (validators vs) \<le> 2 ^ 32"
  shows "\<exists>!i. i < length (validators vs) \<and> rotation_index vs h (n + of_nat i) = j"
    and "\<exists>i < length (validators vs). select vs h (RSome (n + of_nat i)) = Inr (pick (validators vs ! j))"
proof -
  let ?c = "length (validators vs)"
  have ix: "rotation_index vs h (n + of_nat i) = (hval h - 1 + unat n + i) mod ?c" if "i < ?c" for i
  proof -
    have "unat n + i < 2 ^ 32" using that assms(4) by simp
    then have "unat (of_nat i :: u32) = i" "unat n + unat (of_nat i :: u32) < 2 ^ 32"
      by (simp_all add: unat_of_nat)
    then have "unat (n + of_nat i) = unat n + i"
      by (simp add: unat_word_ariths)
    then show ?thesis by (simp add: rotation_index_def add.assoc)
  qed
  have "(\<lambda>i. i < ?c \<and> rotation_index vs h (n + of_nat i) = j)
      = (\<lambda>i. i < ?c \<and> (hval h - 1 + unat n + i) mod ?c = j)"
    by (auto simp: ix)
  with mod_window [OF assms(2), of "hval h - 1 + unat n"]
  show one: "\<exists>!i. i < ?c \<and> rotation_index vs h (n + of_nat i) = j"
    by simp
  then obtain i where "i < ?c" "rotation_index vs h (n + of_nat i) = j" by blast
  then show "\<exists>i < ?c. select vs h (RSome (n + of_nat i)) = Inr (pick (validators vs ! j))"
    using rotates [OF assms(1) assms(3)] by auto
qed

end

lemma unat_vs_count: "length (validators vs) < 2 ^ 64 \<Longrightarrow> unat (vs_count vs) = length (validators vs)"
  by (simp add: vs_count_def unat_of_nat)

lemma rotation_arith:
  assumes "rotation_ok vs h n"
  shows "sub_chk (as_u64 h) 1 = Inr (as_u64 h - 1)"
    and "add_chk (as_u64 h - 1) (ucast n) = Inr (as_u64 h - 1 + ucast n)"
    and "vs_count vs \<noteq> 0"
    and "unat ((as_u64 h - 1 + ucast n) mod vs_count vs) = rotation_index vs h n"
proof -
  from assms have h: "1 \<le> hval h" and b: "hval h - 1 + unat n < 2 ^ 64"
    and c: "unat (vs_count vs) = length (validators vs)" and ne: "validators vs \<noteq> []"
    by (auto simp: rotation_ok_def unat_vs_count)
  have u1: "unat (as_u64 h - 1) = hval h - 1" using h by (simp add: unat_sub_le)
  have un: "unat (ucast n :: u64) = unat n" by (rule unat_ucast_u32)
  show "sub_chk (as_u64 h) 1 = Inr (as_u64 h - 1)" using h by (simp add: sub_chk_def)
  show "add_chk (as_u64 h - 1) (ucast n) = Inr (as_u64 h - 1 + ucast n)"
    using b by (simp add: add_chk_def u1 un)
  show "vs_count vs \<noteq> 0" using c ne by auto
  have "unat (as_u64 h - 1 + ucast n) = hval h - 1 + unat n"
    using b by (simp add: unat_word_ariths u1 un)
  then show "unat ((as_u64 h - 1 + ucast n) mod vs_count vs) = rotation_index vs h n"
    by (simp add: unat_mod c rotation_index_def)
qed

lemma rotation_index_less: "rotation_ok vs h n \<Longrightarrow> rotation_index vs h n < length (validators vs)"
  by (simp add: rotation_ok_def rotation_index_def)

interpretation test_context:
  proposer_rotation "select_proposer L" "\<lambda>v. v" "round_laws (rounds L)" for L
proof unfold_locales
  fix vs h n
  assume L: "round_laws (rounds L)" and ok: "rotation_ok vs h n"
  note ar = rotation_arith [OF ok]
  have "0 < vs_count vs" using ar(3) by (simp add: word_gt_0)
  moreover have "0 \<le> sint (ucast n :: i64)" by (simp add: sint_ucast_u32)
  ultimately show "select_proposer L vs h (RSome n) = Inr (validators vs ! rotation_index vs h n)"
    using L rotation_index_less [OF ok]
    by (simp add: ar select_proposer_def law_simps rem_chk_def get_by_index_def Let_def)
qed

interpretation rotate_proposer:
  proposer_rotation "\<lambda>vs h r. RotateProposer_select_proposer L h r vs" validator_address
    "round_laws (rounds L)" for L
proof unfold_locales
  fix vs h n
  assume L: "round_laws (rounds L)" and ok: "rotation_ok vs h n"
  note ar = rotation_arith [OF ok]
  have "0 \<le> sint (ucast n :: i64)" by (simp add: sint_ucast_u32)
  with L rotation_index_less [OF ok] show "RotateProposer_select_proposer L h (RSome n) vs
      = Inr (validator_address (validators vs ! rotation_index vs h n))"
    by (simp add: ar RotateProposer_select_proposer_def law_simps rem_chk_def get_by_index_def Let_def
        vs_count_def [symmetric])
qed

end
