(* ===== verification/Signing.thy ===== *)
theory Signing
  imports Validators
begin

text \<open>
  \<open>types/src/signing.rs\<close>: the signing provider over a private key. Every signature is over the
  byte form of the message, which a vote makes without its extension.
\<close>

record 'm Signed =
  signed_message :: 'm
  signed_signature :: Signature

record CommitSignature =
  cs_address :: Address
  cs_signature :: Signature

record AggregatedSignature = agg_signatures :: "CommitSignature list"

record CommitCertificate =
  cert_height :: Height
  cert_round :: Round
  cert_value_id :: ValueId
  cert_aggregated_signature :: AggregatedSignature

datatype CertificateError = InvalidSignature CommitSignature

record Ed25519Provider = private_key :: PrivateKey

definition provider_sign :: "'z lib_scheme \<Rightarrow> Ed25519Provider \<Rightarrow> bytes \<Rightarrow> Signature" where
  "provider_sign L p data = sk_sign (crypto L) (private_key p) data"

definition provider_verify ::
  "'z lib_scheme \<Rightarrow> Ed25519Provider \<Rightarrow> bytes \<Rightarrow> Signature \<Rightarrow> PublicKey \<Rightarrow> bool" where
  "provider_verify L p data s pk = pk_verify (crypto L) pk data s"

definition sign_vote ::
  "'z msg_lib_scheme \<Rightarrow> Ed25519Provider \<Rightarrow> Vote \<Rightarrow> ('e, Vote Signed) result" where
  "sign_vote L p vote = and_then (Vote_to_bytes L vote) (\<lambda>b.
     Inr \<lparr>signed_message = vote, signed_signature = provider_sign L p b\<rparr>)"

definition verify_signed_vote ::
  "'z msg_lib_scheme \<Rightarrow> Ed25519Provider \<Rightarrow> Vote \<Rightarrow> Signature \<Rightarrow> PublicKey \<Rightarrow> ('e, bool) result" where
  "verify_signed_vote L p vote s pk = and_then (Vote_to_bytes L vote) (\<lambda>b.
     Inr (pk_verify (crypto L) pk b s))"

definition sign_proposal ::
  "'z msg_lib_scheme \<Rightarrow> Ed25519Provider \<Rightarrow> Proposal \<Rightarrow> ('e, Proposal Signed) result" where
  "sign_proposal L p proposal = and_then (Proposal_to_bytes L proposal) (\<lambda>b.
     Inr \<lparr>signed_message = proposal, signed_signature = sk_sign (crypto L) (private_key p) b\<rparr>)"

definition verify_signed_proposal ::
  "'z msg_lib_scheme \<Rightarrow> Ed25519Provider \<Rightarrow> Proposal \<Rightarrow> Signature \<Rightarrow> PublicKey \<Rightarrow> ('e, bool) result" where
  "verify_signed_proposal L p proposal s pk = and_then (Proposal_to_bytes L proposal) (\<lambda>b.
     Inr (pk_verify (crypto L) pk b s))"

definition sign_proposal_part ::
  "'z msg_lib_scheme \<Rightarrow> Ed25519Provider \<Rightarrow> ProposalPart \<Rightarrow> ('e, ProposalPart Signed) result" where
  "sign_proposal_part L p part = and_then (to_sign_bytes L part) (\<lambda>b.
     Inr \<lparr>signed_message = part, signed_signature = sk_sign (crypto L) (private_key p) b\<rparr>)"

definition verify_signed_proposal_part ::
  "'z msg_lib_scheme \<Rightarrow> Ed25519Provider \<Rightarrow> ProposalPart \<Rightarrow> Signature \<Rightarrow> PublicKey \<Rightarrow> ('e, bool) result" where
  "verify_signed_proposal_part L p part s pk = and_then (to_sign_bytes L part) (\<lambda>b.
     Inr (pk_verify (crypto L) pk b s))"

definition verify_commit_signature ::
  "'z msg_lib_scheme \<Rightarrow> Ed25519Provider \<Rightarrow> CommitCertificate \<Rightarrow> CommitSignature \<Rightarrow> Validator \<Rightarrow>
    (CertificateError, VotingPower) result" where
  "verify_commit_signature L p certificate commit_sig validator =
     (let vote = Vote_new_precommit (cert_height certificate) (cert_round certificate)
        (Val (cert_value_id certificate)) (validator_address validator) in
      and_then (verify_signed_vote L p vote (cs_signature commit_sig)
          (validator_public_key validator)) (\<lambda>valid.
        if \<not> valid then fail (InvalidSignature commit_sig)
        else Inr (validator_voting_power validator)))"

definition sign_vote_extension :: "Ed25519Provider \<Rightarrow> bytes \<Rightarrow> ('e, SignedExtension) result" where
  "sign_vote_extension p ext = panic ''not implemented''"

definition verify_signed_vote_extension ::
  "Ed25519Provider \<Rightarrow> bytes \<Rightarrow> Signature \<Rightarrow> PublicKey \<Rightarrow> ('e, bool) result" where
  "verify_signed_vote_extension p ext s pk = panic ''not implemented''"

text \<open>
  The contract of a signed message: what \<open>sign\<close> makes with a key, \<open>verify\<close> accepts with the key's
  public half, and two messages with one byte form share their signatures.
\<close>

locale signed_message_scheme =
  fixes sign :: "Ed25519Provider \<Rightarrow> 'm \<Rightarrow> (unit, 'm Signed) result"
    and verify :: "Ed25519Provider \<Rightarrow> 'm \<Rightarrow> Signature \<Rightarrow> PublicKey \<Rightarrow> (unit, bool) result"
    and message_bytes :: "'m \<Rightarrow> (unit, bytes) result"
    and public_key :: "PrivateKey \<Rightarrow> PublicKey"
    and laws :: bool
    and valid :: "'m \<Rightarrow> bool"
  assumes signs: "laws \<Longrightarrow> valid m \<Longrightarrow> \<exists>b s. message_bytes m = Inr b \<and>
      sign p m = Inr \<lparr>signed_message = m, signed_signature = s\<rparr> \<and>
      (\<forall>q m'. message_bytes m' = Inr b \<longrightarrow> verify q m' s (public_key (private_key p)) = Inr True)"
begin

lemma sign_verifies:
  assumes "laws" and "valid m"
  shows "\<exists>s. sign p m = Inr \<lparr>signed_message = m, signed_signature = s\<rparr> \<and>
    verify q m s (public_key (private_key p)) = Inr True"
  using signs [OF assms, of p] by blast

lemma signature_shared:
  assumes "laws" and "valid m" and "message_bytes m' = message_bytes m"
    and "sign p m = Inr sm"
  shows "verify q m' (signed_signature sm) (public_key (private_key p)) = Inr True"
  using signs [OF assms(1,2), of p] assms(3,4) by auto

end

lemma vote_to_bytes_ok:
  assumes "msg_laws L" and "vote_round v \<noteq> RNil"
  shows "\<exists>b. vote_to_bytes (protobuf L) v = Inr b"
  using assms vote_wire.trait_bytes [of L "vote_to_bytes (protobuf L)" _ v]
  by (auto simp: msg_laws_def lib_laws_def)

lemma proposal_to_bytes_ok:
  assumes "msg_laws L" and "prop_round p \<noteq> RNil"
  shows "\<exists>b. proposal_to_bytes (protobuf L) p = Inr b"
  using assms proposal_wire.trait_bytes [of L "proposal_to_bytes (protobuf L)" _ p]
  by (auto simp: msg_laws_def lib_laws_def)

lemma part_to_bytes_ok:
  assumes "msg_laws L" and "part_round_ok p"
  shows "\<exists>b. part_to_bytes (protobuf L) p = Inr b"
  using part_bytes_roundtrip [OF assms] by blast

lemmas crypto_of_msg_laws = msg_lawsD(3) [THEN crypto_lawsD(1)]

interpretation vote_signing:
  signed_message_scheme "sign_vote L" "verify_signed_vote L" "Vote_to_bytes L"
    "sk_public_key (crypto L)" "msg_laws L" "\<lambda>v. vote_round v \<noteq> RNil" for L
proof (unfold_locales, goal_cases)
  case (1 m p)
  then obtain b where "vote_to_bytes (protobuf L) m = Inr b" by (blast dest: vote_to_bytes_ok)
  with 1 show ?case
    by (simp add: Vote_to_bytes_def sign_vote_def verify_signed_vote_def provider_sign_def crypto_of_msg_laws)
qed

interpretation proposal_signing:
  signed_message_scheme "sign_proposal L" "verify_signed_proposal L" "Proposal_to_bytes L"
    "sk_public_key (crypto L)" "msg_laws L" "\<lambda>p. prop_round p \<noteq> RNil" for L
proof (unfold_locales, goal_cases)
  case (1 m p)
  then obtain b where "proposal_to_bytes (protobuf L) m = Inr b" by (blast dest: proposal_to_bytes_ok)
  with 1 show ?case
    by (simp add: Proposal_to_bytes_def sign_proposal_def verify_signed_proposal_def crypto_of_msg_laws)
qed

interpretation part_signing:
  signed_message_scheme "sign_proposal_part L" "verify_signed_proposal_part L" "to_sign_bytes L"
    "sk_public_key (crypto L)" "msg_laws L" part_round_ok for L
proof (unfold_locales, goal_cases)
  case (1 m p)
  then obtain b where "part_to_bytes (protobuf L) m = Inr b" by (blast dest: part_to_bytes_ok)
  with 1 show ?case
    by (simp add: to_sign_bytes_def sign_proposal_part_def verify_signed_proposal_part_def crypto_of_msg_laws)
qed

lemma Vote_to_proto_extension:
  "Vote_to_proto L (v\<lparr>vote_extension := e\<rparr>) = Vote_to_proto L v"
  by (simp add: Vote_to_proto_def)

lemma Vote_to_bytes_extension:
  assumes "msg_laws L"
  shows "Vote_to_bytes L (v\<lparr>vote_extension := e\<rparr>) = Vote_to_bytes L v"
  using assms by (auto simp: msg_laws_def protobuf_law_def Vote_to_bytes_def Vote_to_proto_extension)

lemma verify_commit_signature_iff:
  assumes "msg_laws L" and "cert_round c \<noteq> RNil"
  shows "verify_commit_signature L p c s v =
    (if verify_signed_vote L p (Vote_new_precommit (cert_height c) (cert_round c)
          (Val (cert_value_id c)) (validator_address v)) (cs_signature s)
          (validator_public_key v) = (Inr True :: (unit, bool) result)
     then Inr (validator_voting_power v) else fail (InvalidSignature s))"
proof -
  let ?v = "Vote_new_precommit (cert_height c) (cert_round c) (Val (cert_value_id c)) (validator_address v)"
  have "vote_round ?v \<noteq> RNil" using assms(2) by (simp add: Vote_new_precommit_def)
  from vote_to_bytes_ok [OF assms(1) this] obtain b where "vote_to_bytes (protobuf L) ?v = Inr b"
    by blast
  then show ?thesis
    by (simp add: verify_commit_signature_def verify_signed_vote_def Vote_to_bytes_def Let_def)
qed

end
