(* ===== verification/Codec.thy ===== *)
theory Codec
  imports Signing
begin

text \<open>
  \<open>types/src/codec/proto/mod.rs\<close>: the byte codec of every message that travels on the network or
  is stored. Each codec interprets the wire contract with byte strings as its messages.
\<close>

section \<open>The messages of Malachite the codec covers\<close>

datatype SignedConsensusMsg = MsgVote "Vote Signed" | MsgProposal "Proposal Signed"

datatype 'p StreamContent = SData 'p | SFin

record 'p StreamMessage =
  sm_stream_id :: StreamId
  sm_sequence :: u64
  sm_content :: "'p StreamContent"

record ProposedValue =
  prv_height :: Height
  prv_round :: Round
  prv_valid_round :: Round
  prv_proposer :: Address
  prv_value :: Value
  prv_validity :: Validity

record sync_Status =
  st_peer_id :: PeerId
  st_height :: Height
  st_history_min_height :: Height

datatype sync_Request = ValueRequest Height | VoteSetRequest Height Round

record RawDecidedValue =
  rdv_certificate :: CommitCertificate
  rdv_value_bytes :: bytes

record VoteSet = vs_votes :: "Vote Signed list"

datatype sync_Response =
    ValueResponse Height "RawDecidedValue option"
  | VoteSetResponse Height Round VoteSet

text \<open>\<open>decode\<close> of a generated message, its error converted by \<open>?\<close>; \<open>encode_to_vec\<close>.\<close>

definition prost_decode :: "'p codec \<Rightarrow> bytes \<Rightarrow> (ProtoError, 'p) result" where
  "prost_decode c b = lift_lib id (dec c b)"

lemma prost_decode_enc [simp]: "dec c (enc c p) = Inr p \<Longrightarrow> prost_decode c (enc c p) = Inr p"
  by (simp add: prost_decode_def)

section \<open>Values, proposal parts, signatures\<close>

definition Value_decode :: "'z msg_lib_scheme \<Rightarrow> bytes \<Rightarrow> (ProtoError, Value) result" where
  "Value_decode L b = value_from_bytes (protobuf L) b"

definition Value_encode :: "'z msg_lib_scheme \<Rightarrow> Value \<Rightarrow> (ProtoError, bytes) result" where
  "Value_encode L v = value_to_bytes (protobuf L) v"

definition ProposalPart_decode :: "'z msg_lib_scheme \<Rightarrow> bytes \<Rightarrow> (ProtoError, ProposalPart) result" where
  "ProposalPart_decode L b = part_from_bytes (protobuf L) b"

definition ProposalPart_encode :: "'z msg_lib_scheme \<Rightarrow> ProposalPart \<Rightarrow> (ProtoError, bytes) result" where
  "ProposalPart_encode L p = part_to_bytes (protobuf L) p"

definition Signature_decode :: "'z lib_scheme \<Rightarrow> bytes \<Rightarrow> (ProtoError, Signature) result" where
  "Signature_decode L b =
     and_then (prost_decode (c_signature (prost L)) b) (\<lambda>proto. decode_signature L proto)"

definition Signature_encode :: "'z lib_scheme \<Rightarrow> Signature \<Rightarrow> (ProtoError, bytes) result" where
  "Signature_encode L s =
     Inr (enc (c_signature (prost L)) \<lparr>ps_bytes = sig_to_bytes (crypto L) s\<rparr>)"

interpretation value_codec:
  wire_format "Value_encode L" "Value_decode L" "msg_laws L" "\<lambda>v. True" "\<lambda>v. v" for L
  by unfold_locales (simp add: Value_encode_def Value_decode_def value_bytes_roundtrip)

interpretation part_codec:
  wire_format "ProposalPart_encode L" "ProposalPart_decode L" "msg_laws L" part_round_ok "\<lambda>p. p" for L
  by unfold_locales (simp add: ProposalPart_encode_def ProposalPart_decode_def part_bytes_roundtrip)

interpretation signature_codec:
  wire_format "Signature_encode L" "Signature_decode L" "lib_laws L" "\<lambda>s. True" "\<lambda>s. s" for L
  by unfold_locales
    (simp add: Signature_encode_def Signature_decode_def law_simps
      encode_signature_def [symmetric])

section \<open>Signed consensus messages\<close>

definition SignedConsensusMsg_decode ::
  "'z lib_scheme \<Rightarrow> bytes \<Rightarrow> (ProtoError, SignedConsensusMsg) result" where
  "SignedConsensusMsg_decode L b =
     and_then (prost_decode (c_signed_message (prost L)) b) (\<lambda>proto.
     and_then (and_then (ok_or (MissingField ''SignedMessage'' ''signature'') (psm_signature proto))
         (decode_signature L)) (\<lambda>signature.
     and_then (ok_or (MissingField ''SignedMessage'' ''message'') (psm_message proto)) (\<lambda>proto_message.
       (case proto_message of
          PM_Proposal pp \<Rightarrow> and_then (Proposal_from_proto L pp) (\<lambda>proposal.
            Inr (MsgProposal \<lparr>signed_message = proposal, signed_signature = signature\<rparr>))
        | PM_Vote pv \<Rightarrow> and_then (Vote_from_proto L pv) (\<lambda>vote.
            Inr (MsgVote \<lparr>signed_message = vote, signed_signature = signature\<rparr>))))))"

definition SignedConsensusMsg_encode ::
  "'z lib_scheme \<Rightarrow> SignedConsensusMsg \<Rightarrow> (ProtoError, bytes) result" where
  "SignedConsensusMsg_encode L msg =
     (case msg of
        MsgVote vote \<Rightarrow> and_then (Vote_to_proto L (signed_message vote)) (\<lambda>pv.
          Inr (enc (c_signed_message (prost L))
            \<lparr>psm_message = Some (PM_Vote pv),
             psm_signature = Some (encode_signature L (signed_signature vote))\<rparr>))
      | MsgProposal proposal \<Rightarrow> and_then (Proposal_to_proto L (signed_message proposal)) (\<lambda>pp.
          Inr (enc (c_signed_message (prost L))
            \<lparr>psm_message = Some (PM_Proposal pp),
             psm_signature = Some (encode_signature L (signed_signature proposal))\<rparr>)))"

fun consensus_msg_ok :: "SignedConsensusMsg \<Rightarrow> bool" where
  "consensus_msg_ok (MsgVote v) = (vote_round (signed_message v) \<noteq> RNil)"
| "consensus_msg_ok (MsgProposal p) = (prop_round (signed_message p) \<noteq> RNil)"

fun consensus_msg_carried :: "SignedConsensusMsg \<Rightarrow> SignedConsensusMsg" where
  "consensus_msg_carried (MsgVote v) =
     MsgVote (v\<lparr>signed_message := (signed_message v)\<lparr>vote_extension := None\<rparr>\<rparr>)"
| "consensus_msg_carried (MsgProposal p) = MsgProposal p"

interpretation consensus_msg_codec:
  wire_format "SignedConsensusMsg_encode L" "SignedConsensusMsg_decode L" "lib_laws L"
    consensus_msg_ok consensus_msg_carried for L
proof (unfold_locales, goal_cases)
  case (1 m)
  show ?case
  proof (cases m)
    case (MsgVote v)
    from 1 MsgVote vote_wire.to_from [of L "signed_message v"] show ?thesis
      by (auto simp: SignedConsensusMsg_encode_def SignedConsensusMsg_decode_def law_simps)
  next
    case (MsgProposal p)
    from 1 MsgProposal proposal_wire.to_from [of L "signed_message p"] show ?thesis
      by (auto simp: SignedConsensusMsg_encode_def SignedConsensusMsg_decode_def law_simps)
  qed
qed

section \<open>Stream messages\<close>

definition StreamMessage_decode ::
  "'z msg_lib_scheme \<Rightarrow> bytes \<Rightarrow> (ProtoError, ProposalPart StreamMessage) result" where
  "StreamMessage_decode L b =
     and_then (prost_decode (c_stream_message (prost L)) b) (\<lambda>proto.
     and_then (ok_or (MissingField ''StreamMessage'' ''content'') (pst_content proto)) (\<lambda>proto_content.
     and_then (case proto_content of
         PC_Data data \<Rightarrow> and_then (part_from_bytes (protobuf L) data) (\<lambda>p. Inr (SData p))
       | PC_Fin _ \<Rightarrow> Inr SFin) (\<lambda>content.
       Inr \<lparr>sm_stream_id = sid_new (ids L) (pst_stream_id proto),
            sm_sequence = pst_sequence proto, sm_content = content\<rparr>)))"

definition StreamMessage_encode ::
  "'z msg_lib_scheme \<Rightarrow> ProposalPart StreamMessage \<Rightarrow> (ProtoError, bytes) result" where
  "StreamMessage_encode L msg =
     and_then (case sm_content msg of
         SData data \<Rightarrow> and_then (part_to_bytes (protobuf L) data) (\<lambda>d. Inr (Some (PC_Data d)))
       | SFin \<Rightarrow> Inr (Some (PC_Fin True))) (\<lambda>content.
       Inr (enc (c_stream_message (prost L))
         \<lparr>pst_stream_id = sid_to_bytes (ids L) (sm_stream_id msg),
          pst_sequence = sm_sequence msg, pst_content = content\<rparr>))"

fun content_ok :: "ProposalPart StreamContent \<Rightarrow> bool" where
  "content_ok (SData p) = part_round_ok p"
| "content_ok SFin = True"

interpretation stream_codec:
  wire_format "StreamMessage_encode L" "StreamMessage_decode L" "msg_laws L"
    "\<lambda>m. content_ok (sm_content m)" "\<lambda>m. m" for L
proof (unfold_locales, goal_cases)
  case (1 m)
  show ?case
  proof (cases "sm_content m")
    case (SData p)
    with 1 part_bytes_roundtrip [of L p] show ?thesis
      by (auto simp: StreamMessage_encode_def StreamMessage_decode_def law_simps msg_lawsD)
  next
    case SFin
    with 1 show ?thesis
      by (auto simp: StreamMessage_encode_def StreamMessage_decode_def law_simps msg_lawsD)
  qed
qed

section \<open>Proposed values\<close>

definition ProposedValue_decode :: "'z lib_scheme \<Rightarrow> bytes \<Rightarrow> (ProtoError, ProposedValue) result" where
  "ProposedValue_decode L b =
     and_then (prost_decode (c_proposed_value (prost L)) b) (\<lambda>proto.
     and_then (ok_or (MissingField ''ProposedValue'' ''proposer'') (ppv_proposer proto)) (\<lambda>proposer.
     and_then (ok_or (MissingField ''ProposedValue'' ''value'') (ppv_value proto)) (\<lambda>value.
     and_then (Address_from_proto proposer) (\<lambda>a.
     and_then (Value_from_proto value) (\<lambda>v.
       Inr \<lparr>prv_height = Height_new (ppv_height proto),
            prv_round = round_new (rounds L) (ppv_round proto),
            prv_valid_round =
              (case ppv_valid_round proto of Some n \<Rightarrow> round_new (rounds L) n | None \<Rightarrow> RNil),
            prv_proposer = a, prv_value = v,
            prv_validity = validity_of_bool (rounds L) (ppv_validity proto)\<rparr>)))))"

definition ProposedValue_encode :: "'z lib_scheme \<Rightarrow> ProposedValue \<Rightarrow> (ProtoError, bytes) result" where
  "ProposedValue_encode L msg =
     and_then (expect ''called `Option::unwrap()` on a `None` value''
         (round_as_u32 (rounds L) (prv_round msg))) (\<lambda>r.
     and_then (Address_to_proto (prv_proposer msg)) (\<lambda>a.
     and_then (Value_to_proto (prv_value msg)) (\<lambda>v.
       Inr (enc (c_proposed_value (prost L))
         \<lparr>ppv_height = as_u64 (prv_height msg), ppv_round = r,
          ppv_valid_round = round_as_u32 (rounds L) (prv_valid_round msg),
          ppv_proposer = Some a, ppv_value = Some v,
          ppv_validity = validity_to_bool (rounds L) (prv_validity msg)\<rparr>))))"

lemma valid_round_roundtrip:
  "round_laws R \<Longrightarrow> (case round_as_u32 R r of Some n \<Rightarrow> round_new R n | None \<Rightarrow> RNil) = r"
  by (cases r) (simp_all add: law_simps)

interpretation proposed_value_codec:
  wire_format "ProposedValue_encode L" "ProposedValue_decode L" "lib_laws L"
    "\<lambda>p. prv_round p \<noteq> RNil" "\<lambda>p. p" for L
proof (unfold_locales, goal_cases)
  case (1 m)
  then obtain n where "prv_round m = RSome n" using round_cases_nonnil by blast
  with 1 show ?case
    by (auto simp: ProposedValue_encode_def ProposedValue_decode_def proto_defs law_simps
        valid_round_roundtrip Height_new_def)
qed

lemma ProposedValue_encode_nil:
  "lib_laws L \<Longrightarrow> prv_round p = RNil \<Longrightarrow>
    ProposedValue_encode L p = panic ''called `Option::unwrap()` on a `None` value''"
  by (simp add: ProposedValue_encode_def law_simps)

section \<open>Synchronisation: status and requests\<close>

definition Status_decode :: "'z lib_scheme \<Rightarrow> bytes \<Rightarrow> (ProtoError, sync_Status) result" where
  "Status_decode L b =
     and_then (prost_decode (c_status (prost L)) b) (\<lambda>proto.
     and_then (ok_or (MissingField ''Status'' ''peer_id'') (pss_peer_id proto)) (\<lambda>proto_peer_id.
     and_then (expect ''called `Result::unwrap()` on an `Err` value''
         (peer_from_bytes (ids L) (ppr_id proto_peer_id))) (\<lambda>peer_id.
       Inr \<lparr>st_peer_id = peer_id, st_height = Height_new (pss_height proto),
            st_history_min_height = Height_new (pss_earliest_height proto)\<rparr>)))"

definition Status_encode :: "'z lib_scheme \<Rightarrow> sync_Status \<Rightarrow> (ProtoError, bytes) result" where
  "Status_encode L msg =
     Inr (enc (c_status (prost L))
       \<lparr>pss_peer_id = Some \<lparr>ppr_id = peer_to_bytes (ids L) (st_peer_id msg)\<rparr>,
        pss_height = as_u64 (st_height msg),
        pss_earliest_height = as_u64 (st_history_min_height msg)\<rparr>)"

interpretation status_codec:
  wire_format "Status_encode L" "Status_decode L" "lib_laws L" "\<lambda>s. True" "\<lambda>s. s" for L
  by unfold_locales (simp add: Status_encode_def Status_decode_def law_simps Height_new_def)

definition Request_decode :: "'z lib_scheme \<Rightarrow> bytes \<Rightarrow> (ProtoError, sync_Request) result" where
  "Request_decode L b =
     and_then (prost_decode (c_sync_request (prost L)) b) (\<lambda>proto.
     and_then (ok_or (MissingField ''SyncRequest'' ''request'') (psr_request proto)) (\<lambda>request.
       (case request of
          PR_ValueRequest h \<Rightarrow> Inr (ValueRequest (Height_new h))
        | PR_VoteSetRequest h r \<Rightarrow> Inr (VoteSetRequest (Height_new h) (round_new (rounds L) r)))))"

definition Request_encode :: "'z lib_scheme \<Rightarrow> sync_Request \<Rightarrow> (ProtoError, bytes) result" where
  "Request_encode L msg =
     and_then (case msg of
         ValueRequest h \<Rightarrow> Inr \<lparr>psr_request = Some (PR_ValueRequest (as_u64 h))\<rparr>
       | VoteSetRequest h r \<Rightarrow>
           and_then (expect ''called `Option::unwrap()` on a `None` value''
               (round_as_u32 (rounds L) r)) (\<lambda>n.
             Inr \<lparr>psr_request = Some (PR_VoteSetRequest (as_u64 h) n)\<rparr>)) (\<lambda>proto.
       Inr (enc (c_sync_request (prost L)) proto))"

fun request_ok :: "sync_Request \<Rightarrow> bool" where
  "request_ok (ValueRequest h) = True"
| "request_ok (VoteSetRequest h r) = (r \<noteq> RNil)"

interpretation request_codec:
  wire_format "Request_encode L" "Request_decode L" "lib_laws L" request_ok "\<lambda>r. r" for L
proof (unfold_locales, goal_cases)
  case (1 m)
  show ?case
  proof (cases m)
    case (VoteSetRequest h r)
    with 1 obtain n where "r = RSome n" using round_cases_nonnil by auto
    with 1 VoteSetRequest show ?thesis
      by (auto simp: Request_encode_def Request_decode_def law_simps Height_new_def)
  qed (use 1 in \<open>auto simp: Request_encode_def Request_decode_def law_simps Height_new_def\<close>)
qed

section \<open>Certificates\<close>

definition decode_commit_signature ::
  "'z lib_scheme \<Rightarrow> P_CommitSignature \<Rightarrow> (ProtoError, CommitSignature) result" where
  "decode_commit_signature L s =
     and_then (and_then (ok_or (MissingField ''CommitSignature'' ''signature'') (pcs_signature s))
         (decode_signature L)) (\<lambda>signature.
     and_then (and_then (ok_or (MissingField ''CommitSignature'' ''validator_address'')
           (pcs_validator_address s)) Address_from_proto) (\<lambda>address.
       Inr \<lparr>cs_address = address, cs_signature = signature\<rparr>))"

definition encode_commit_signature ::
  "'z lib_scheme \<Rightarrow> CommitSignature \<Rightarrow> (ProtoError, P_CommitSignature) result" where
  "encode_commit_signature L s =
     and_then (Address_to_proto (cs_address s)) (\<lambda>a.
       Inr \<lparr>pcs_validator_address = Some a,
            pcs_signature = Some (encode_signature L (cs_signature s))\<rparr>)"

definition decode_aggregated_signature ::
  "'z lib_scheme \<Rightarrow> P_AggregatedSignature \<Rightarrow> (ProtoError, AggregatedSignature) result" where
  "decode_aggregated_signature L signature =
     and_then (collect (decode_commit_signature L) (pas_signatures signature)) (\<lambda>signatures.
       Inr \<lparr>agg_signatures = signatures\<rparr>)"

definition encode_aggregate_signature ::
  "'z lib_scheme \<Rightarrow> AggregatedSignature \<Rightarrow> (ProtoError, P_AggregatedSignature) result" where
  "encode_aggregate_signature L agg =
     and_then (collect (encode_commit_signature L) (agg_signatures agg)) (\<lambda>signatures.
       Inr \<lparr>pas_signatures = signatures\<rparr>)"

definition decode_certificate ::
  "'z lib_scheme \<Rightarrow> P_CommitCertificate \<Rightarrow> (ProtoError, CommitCertificate) result" where
  "decode_certificate L certificate =
     and_then (and_then (ok_or (MissingField ''CommitCertificate'' ''value_id'')
           (pcc_value_id certificate)) ValueId_from_proto) (\<lambda>value_id.
     and_then (and_then (ok_or (MissingField ''CommitCertificate'' ''aggregated_signature'')
           (pcc_aggregated_signature certificate)) (decode_aggregated_signature L)) (\<lambda>agg.
       Inr \<lparr>cert_height = Height_new (pcc_height certificate),
            cert_round = round_new (rounds L) (pcc_round certificate),
            cert_value_id = value_id, cert_aggregated_signature = agg\<rparr>))"

definition encode_certificate ::
  "'z lib_scheme \<Rightarrow> CommitCertificate \<Rightarrow> (ProtoError, P_CommitCertificate) result" where
  "encode_certificate L certificate =
     and_then (expect ''round should not be nil''
         (round_as_u32 (rounds L) (cert_round certificate))) (\<lambda>r.
     and_then (ValueId_to_proto (cert_value_id certificate)) (\<lambda>v.
     and_then (encode_aggregate_signature L (cert_aggregated_signature certificate)) (\<lambda>agg.
       Inr \<lparr>pcc_height = as_u64 (cert_height certificate), pcc_round = r,
            pcc_value_id = Some v, pcc_aggregated_signature = Some agg\<rparr>)))"

interpretation commit_signature_wire:
  wire_canonical "encode_commit_signature L" "decode_commit_signature L" "crypto_laws (crypto L)"
    "\<lambda>s. True" for L
  by unfold_locales
    (auto simp: encode_commit_signature_def decode_commit_signature_def proto_defs
      and_then_Inr_iff Address_into_inner_new encode_decode_signature)

interpretation aggregated_signature_wire:
  wire_format "encode_aggregate_signature L" "decode_aggregated_signature L"
    "crypto_laws (crypto L)" "\<lambda>s. True" "\<lambda>s. s" for L
proof (unfold_locales, goal_cases)
  case (1 m)
  from commit_signature_wire.list_roundtrip [OF 1(1), of "agg_signatures m"]
  show ?case
    by (auto simp: encode_aggregate_signature_def decode_aggregated_signature_def list_all_iff)
qed

interpretation certificate_wire:
  wire_format "encode_certificate L" "decode_certificate L"
    "round_laws (rounds L) \<and> crypto_laws (crypto L)" "\<lambda>c. cert_round c \<noteq> RNil" "\<lambda>c. c" for L
proof (unfold_locales, goal_cases)
  case (1 m)
  then obtain n where "cert_round m = RSome n" using round_cases_nonnil by blast
  with 1 aggregated_signature_wire.to_from [of L "cert_aggregated_signature m"] show ?case
    by (auto simp: encode_certificate_def decode_certificate_def proto_defs law_simps Height_new_def)
qed

section \<open>Synced values, extensions, vote sets\<close>

definition encode_synced_value ::
  "'z lib_scheme \<Rightarrow> RawDecidedValue \<Rightarrow> (ProtoError, P_SyncedValue) result" where
  "encode_synced_value L v =
     and_then (encode_certificate L (rdv_certificate v)) (\<lambda>c.
       Inr \<lparr>psv_value_bytes = rdv_value_bytes v, psv_certificate = Some c\<rparr>)"

definition decode_synced_value ::
  "'z lib_scheme \<Rightarrow> P_SyncedValue \<Rightarrow> (ProtoError, RawDecidedValue) result" where
  "decode_synced_value L proto =
     and_then (ok_or (MissingField ''SyncedValue'' ''certificate'') (psv_certificate proto)) (\<lambda>c.
     and_then (decode_certificate L c) (\<lambda>certificate.
       Inr \<lparr>rdv_certificate = certificate, rdv_value_bytes = psv_value_bytes proto\<rparr>))"

interpretation synced_value_wire:
  wire_format "encode_synced_value L" "decode_synced_value L"
    "round_laws (rounds L) \<and> crypto_laws (crypto L)"
    "\<lambda>v. cert_round (rdv_certificate v) \<noteq> RNil" "\<lambda>v. v" for L
proof (unfold_locales, goal_cases)
  case (1 m)
  with certificate_wire.to_from [of L "rdv_certificate m"] show ?case
    by (auto simp: encode_synced_value_def decode_synced_value_def)
qed

definition decode_extension :: "'z lib_scheme \<Rightarrow> P_Extension \<Rightarrow> (ProtoError, SignedExtension) result" where
  "decode_extension L e =
     and_then (and_then (ok_or (MissingField ''Extension'' ''signature'') (pe_signature e))
         (decode_signature L)) (\<lambda>s.
       Inr \<lparr>ext_message = pe_data e, ext_signature = s\<rparr>)"

definition encode_extension :: "'z lib_scheme \<Rightarrow> SignedExtension \<Rightarrow> (ProtoError, P_Extension) result" where
  "encode_extension L e =
     Inr \<lparr>pe_data = ext_message e, pe_signature = Some (encode_signature L (ext_signature e))\<rparr>"

interpretation extension_wire:
  wire_canonical "encode_extension L" "decode_extension L" "crypto_laws (crypto L)" "\<lambda>e. True" for L
  by unfold_locales
    (auto simp: encode_extension_def decode_extension_def and_then_Inr_iff encode_decode_signature)

definition encode_vote :: "'z lib_scheme \<Rightarrow> Vote Signed \<Rightarrow> (ProtoError, P_SignedMessage) result" where
  "encode_vote L vote =
     and_then (Vote_to_proto L (signed_message vote)) (\<lambda>pv.
       Inr \<lparr>psm_message = Some (PM_Vote pv),
            psm_signature = Some (encode_signature L (signed_signature vote))\<rparr>)"

definition decode_vote :: "'z lib_scheme \<Rightarrow> P_SignedMessage \<Rightarrow> Vote Signed option" where
  "decode_vote L msg =
     Option.bind (psm_signature msg) (\<lambda>signature.
     Option.bind (case psm_message msg of Some (PM_Vote v) \<Rightarrow> Some v | _ \<Rightarrow> None) (\<lambda>vote.
     Option.bind (ok_opt (decode_signature L signature)) (\<lambda>signature.
     Option.bind (ok_opt (Vote_from_proto L vote)) (\<lambda>vote.
       Some \<lparr>signed_message = vote, signed_signature = signature\<rparr>))))"

definition encode_vote_set :: "'z lib_scheme \<Rightarrow> VoteSet \<Rightarrow> (ProtoError, P_VoteSet) result" where
  "encode_vote_set L vs =
     and_then (collect (encode_vote L) (vs_votes vs)) (\<lambda>votes. Inr \<lparr>pvs_signed_votes = votes\<rparr>)"

definition decode_vote_set :: "'z lib_scheme \<Rightarrow> P_VoteSet \<Rightarrow> (ProtoError, VoteSet) result" where
  "decode_vote_set L vs = Inr \<lparr>vs_votes = List.map_filter (decode_vote L) (pvs_signed_votes vs)\<rparr>"

text \<open>\<open>ok()\<close> discards errors only: neither decoder panics.\<close>

lemma decode_vote_no_panic:
  "\<not> panics (decode_signature L s)" "\<not> panics (Vote_from_proto L v)"
  by (auto simp: decode_signature_def Vote_from_proto_def Height_from_proto_def
      ValueId_from_proto_def Address_from_proto_def panics_and_then ok_or_def
      split: option.splits)

definition vote_carried :: "Vote Signed \<Rightarrow> Vote Signed" where
  "vote_carried v = v\<lparr>signed_message := (signed_message v)\<lparr>vote_extension := None\<rparr>\<rparr>"

lemma vote_roundtrip:
  assumes "lib_laws L" and "vote_round (signed_message v) \<noteq> RNil"
  shows "\<exists>p. encode_vote L v = Inr p \<and> decode_vote L p = Some (vote_carried v)"
  using assms vote_wire.to_from [of L "signed_message v"]
  by (auto simp: encode_vote_def decode_vote_def vote_carried_def law_simps)

lemma vote_list_roundtrip:
  assumes "lib_laws L" and "\<forall>v\<in>set vs. vote_round (signed_message v) \<noteq> RNil"
  shows "\<exists>ps. collect (encode_vote L) vs = Inr ps \<and>
    List.map_filter (decode_vote L) ps = map vote_carried vs"
  using assms(2)
proof (induction vs)
  case Nil
  then show ?case by (simp add: List.map_filter_simps)
next
  case (Cons v vs)
  with vote_roundtrip [OF assms(1), of v] show ?case
    by (auto simp: List.map_filter_simps)
qed

interpretation vote_set_wire:
  wire_format "encode_vote_set L" "decode_vote_set L" "lib_laws L"
    "\<lambda>vs. \<forall>v\<in>set (vs_votes vs). vote_round (signed_message v) \<noteq> RNil"
    "\<lambda>vs. \<lparr>vs_votes = map vote_carried (vs_votes vs)\<rparr>" for L
proof (unfold_locales, goal_cases)
  case (1 m)
  with vote_list_roundtrip [of L "vs_votes m"] show ?case
    by (auto simp: encode_vote_set_def decode_vote_set_def)
qed

section \<open>Synchronisation: responses\<close>

definition decode_sync_response ::
  "'z lib_scheme \<Rightarrow> P_SyncResponse \<Rightarrow> (ProtoError, sync_Response) result" where
  "decode_sync_response L proto_response =
     and_then (ok_or (MissingField ''SyncResponse'' ''messages'') (psr_response proto_response)) (\<lambda>response.
       (case response of
          PR_ValueResponse h value \<Rightarrow>
            and_then (map_transpose (decode_synced_value L) value) (\<lambda>v.
              Inr (ValueResponse (Height_new h) v))
        | PR_VoteSetResponse h r vote_set \<Rightarrow>
            (let height = Height_new h; round = round_new (rounds L) r in
             and_then (ok_or (MissingField ''VoteSet'' ''vote_set'') vote_set) (\<lambda>vs.
             and_then (decode_vote_set L vs) (\<lambda>votes.
               Inr (VoteSetResponse height round votes))))))"

definition encode_sync_response ::
  "'z lib_scheme \<Rightarrow> sync_Response \<Rightarrow> (ProtoError, P_SyncResponse) result" where
  "encode_sync_response L response =
     (case response of
        ValueResponse h value \<Rightarrow>
          and_then (map_transpose (encode_synced_value L) value) (\<lambda>v.
            Inr \<lparr>psr_response = Some (PR_ValueResponse (as_u64 h) v)\<rparr>)
      | VoteSetResponse h r vote_set \<Rightarrow>
          and_then (expect ''round should not be nil'' (round_as_u32 (rounds L) r)) (\<lambda>n.
          and_then (encode_vote_set L vote_set) (\<lambda>vs.
            Inr \<lparr>psr_response = Some (PR_VoteSetResponse (as_u64 h) n (Some vs))\<rparr>)))"

definition Response_decode :: "'z lib_scheme \<Rightarrow> bytes \<Rightarrow> (ProtoError, sync_Response) result" where
  "Response_decode L b =
     and_then (prost_decode (c_sync_response (prost L)) b) (decode_sync_response L)"

definition Response_encode :: "'z lib_scheme \<Rightarrow> sync_Response \<Rightarrow> (ProtoError, bytes) result" where
  "Response_encode L response =
     and_then (encode_sync_response L response) (\<lambda>proto. Inr (enc (c_sync_response (prost L)) proto))"

fun response_ok :: "sync_Response \<Rightarrow> bool" where
  "response_ok (ValueResponse h None) = True"
| "response_ok (ValueResponse h (Some v)) = (cert_round (rdv_certificate v) \<noteq> RNil)"
| "response_ok (VoteSetResponse h r vs) =
     (r \<noteq> RNil \<and> (\<forall>v\<in>set (vs_votes vs). vote_round (signed_message v) \<noteq> RNil))"

fun response_carried :: "sync_Response \<Rightarrow> sync_Response" where
  "response_carried (ValueResponse h v) = ValueResponse h v"
| "response_carried (VoteSetResponse h r vs) =
     VoteSetResponse h r \<lparr>vs_votes = map vote_carried (vs_votes vs)\<rparr>"

interpretation sync_response_wire:
  wire_format "encode_sync_response L" "decode_sync_response L" "lib_laws L"
    response_ok response_carried for L
proof (unfold_locales, goal_cases)
  case (1 m)
  show ?case
  proof (cases m)
    case (ValueResponse h v)
    with 1 synced_value_wire.to_from [of L] show ?thesis
      by (cases v)
        (fastforce simp: encode_sync_response_def decode_sync_response_def law_simps Height_new_def)+
  next
    case (VoteSetResponse h r vs)
    with 1 obtain n where "r = RSome n" using round_cases_nonnil by auto
    with 1 VoteSetResponse vote_set_wire.to_from [of L vs] show ?thesis
      by (auto simp: encode_sync_response_def decode_sync_response_def law_simps Height_new_def)
  qed
qed

interpretation response_codec:
  wire_format "Response_encode L" "Response_decode L" "lib_laws L" response_ok response_carried for L
proof (unfold_locales, goal_cases)
  case (1 m)
  with sync_response_wire.to_from [of L m] show ?case
    by (auto simp: Response_encode_def Response_decode_def law_simps)
qed

end
