(* ===== verification/Reference_Libs.thy ===== *)
theory Reference_Libs
  imports Codec
begin

text \<open>
  A concrete instance of the libraries of \<open>External\<close> and \<open>Messages\<close>, with the proof that it
  satisfies their laws. It shows that the hypotheses \<open>lib_laws\<close> and \<open>msg_laws\<close> can hold, and the
  witnesses evaluate the model on it. Nothing about the program is stated here: the real hash,
  signature and protobuf formats are not modelled.
\<close>

section \<open>Serialisers\<close>

text \<open>A serialiser writes a value and reads it back from the front of a byte string.\<close>

type_synonym 'a ser = "('a \<Rightarrow> bytes) \<times> (bytes \<Rightarrow> ('a \<times> bytes) option)"

definition ser_ok :: "'a ser \<Rightarrow> bool" where
  "ser_ok s \<longleftrightarrow> (\<forall>x rest. snd s (fst s x @ rest) = Some (x, rest))"

lemma ser_okD: "ser_ok s \<Longrightarrow> snd s (fst s x @ rest) = Some (x, rest)"
  by (simp add: ser_ok_def)

definition ser_word :: "'n::len word ser" where
  "ser_word = (to_be_bytes, \<lambda>bs. if length bs < LENGTH('n) div 8 then None
     else Some (from_be_bytes (take (LENGTH('n) div 8) bs), drop (LENGTH('n) div 8) bs))"

fun put_bytes :: "bytes \<Rightarrow> bytes" where
  "put_bytes [] = [0]"
| "put_bytes (b # bs) = 1 # b # put_bytes bs"

fun get_bytes :: "bytes \<Rightarrow> (bytes \<times> bytes) option" where
  "get_bytes (t # b # bs) = (if t = 0 then Some ([], b # bs)
     else map_option (\<lambda>(xs, r). (b # xs, r)) (get_bytes bs))"
| "get_bytes [t] = (if t = 0 then Some ([], []) else None)"
| "get_bytes [] = None"

definition ser_bytes :: "bytes ser" where
  "ser_bytes = (put_bytes, get_bytes)"

definition ser_iso :: "('b \<Rightarrow> 'a) \<Rightarrow> ('a \<Rightarrow> 'b) \<Rightarrow> 'a ser \<Rightarrow> 'b ser" where
  "ser_iso f g s = (fst s \<circ> f, \<lambda>bs. map_option (map_prod g id) (snd s bs))"

definition ser_pair :: "'a ser \<Rightarrow> 'b ser \<Rightarrow> ('a \<times> 'b) ser" where
  "ser_pair s t = (\<lambda>(a, b). fst s a @ fst t b,
     \<lambda>bs. Option.bind (snd s bs) (\<lambda>(a, r). map_option (map_prod (Pair a) id) (snd t r)))"

definition ser_sum :: "'a ser \<Rightarrow> 'b ser \<Rightarrow> ('a + 'b) ser" where
  "ser_sum s t = (case_sum (\<lambda>a. 0 # fst s a) (\<lambda>b. 1 # fst t b),
     \<lambda>bs. (case bs of [] \<Rightarrow> None | c # r \<Rightarrow>
       if c = 0 then map_option (map_prod Inl id) (snd s r)
       else map_option (map_prod Inr id) (snd t r)))"

definition ser_unit :: "unit ser" where
  "ser_unit = (\<lambda>_. [], \<lambda>bs. Some ((), bs))"

definition ser_bool :: "bool ser" where
  "ser_bool = ser_iso (\<lambda>b. if b then Inl () else Inr ()) (case_sum (\<lambda>_. True) (\<lambda>_. False))
     (ser_sum ser_unit ser_unit)"

definition ser_opt :: "'a ser \<Rightarrow> 'a option ser" where
  "ser_opt s = ser_iso (case_option (Inl ()) Inr) (case_sum (\<lambda>_. None) Some) (ser_sum ser_unit s)"

fun put_list :: "'a ser \<Rightarrow> 'a list \<Rightarrow> bytes" where
  "put_list s [] = [0]"
| "put_list s (x # xs) = 1 # fst s x @ put_list s xs"

fun get_list :: "nat \<Rightarrow> 'a ser \<Rightarrow> bytes \<Rightarrow> ('a list \<times> bytes) option" where
  "get_list 0 s bs = None"
| "get_list (Suc n) s [] = None"
| "get_list (Suc n) s (c # bs) = (if c = 0 then Some ([], bs)
     else Option.bind (snd s bs) (\<lambda>(x, r). map_option (map_prod (Cons x) id) (get_list n s r)))"

definition ser_list :: "'a ser \<Rightarrow> 'a list ser" where
  "ser_list s = (put_list s, \<lambda>bs. get_list (length bs) s bs)"

named_theorems ser_intros "serialisers that read back what they write"

lemma ser_ok_word [ser_intros]: "8 dvd LENGTH('n) \<Longrightarrow> ser_ok (ser_word :: 'n::len word ser)"
  by (simp add: ser_ok_def ser_word_def)

lemma get_put_bytes: "get_bytes (put_bytes bs @ rest) = Some (bs, rest)"
  by (induction bs) (cases rest, simp_all)

lemma ser_ok_bytes [ser_intros]: "ser_ok ser_bytes"
  by (simp add: ser_ok_def ser_bytes_def get_put_bytes)

lemma ser_ok_iso [ser_intros]: "ser_ok s \<Longrightarrow> (\<And>x. g (f x) = x) \<Longrightarrow> ser_ok (ser_iso f g s)"
  by (simp add: ser_ok_def ser_iso_def)

lemma ser_ok_pair [ser_intros]: "ser_ok s \<Longrightarrow> ser_ok t \<Longrightarrow> ser_ok (ser_pair s t)"
  by (simp add: ser_ok_def ser_pair_def)

lemma ser_ok_sum [ser_intros]: "ser_ok s \<Longrightarrow> ser_ok t \<Longrightarrow> ser_ok (ser_sum s t)"
  by (auto simp: ser_ok_def ser_sum_def split: sum.splits)

lemma ser_ok_unit [ser_intros]: "ser_ok ser_unit"
  by (simp add: ser_ok_def ser_unit_def)

lemma ser_ok_bool [ser_intros]: "ser_ok ser_bool"
  unfolding ser_bool_def by (intro ser_intros) simp

lemma ser_ok_opt [ser_intros]: "ser_ok s \<Longrightarrow> ser_ok (ser_opt s)"
  unfolding ser_opt_def by (intro ser_intros) (auto split: option.splits)

lemma get_put_list:
  "ser_ok s \<Longrightarrow> length xs < n \<Longrightarrow> get_list n s (put_list s xs @ rest) = Some (xs, rest)"
proof (induction xs arbitrary: n)
  case Nil
  then show ?case by (cases n) simp_all
next
  case (Cons x xs)
  then show ?case by (cases n) (simp_all add: ser_okD)
qed

lemma length_put_list: "length xs < length (put_list s xs)"
  by (induction xs) simp_all

lemma ser_ok_list [ser_intros]:
  assumes "ser_ok s"
  shows "ser_ok (ser_list s)"
proof -
  have "get_list (length (put_list s xs @ rest)) s (put_list s xs @ rest) = Some (xs, rest)" for xs rest
    using length_put_list [of xs s] by (intro get_put_list [OF assms]) simp
  then show ?thesis by (simp only: ser_ok_def ser_list_def fst_conv snd_conv) blast
qed

section \<open>The generated messages\<close>

definition s_address :: "P_Address ser" where
  "s_address = ser_iso pa_value P_Address.make ser_bytes"

definition s_value :: "P_Value ser" where
  "s_value = ser_iso (\<lambda>v. (pv_value v, pv_extensions v)) (\<lambda>(a, b). P_Value.make a b)
     (ser_pair ser_word ser_bytes)"

definition s_value_id :: "P_ValueId ser" where
  "s_value_id = ser_iso pvi_value P_ValueId.make ser_word"

definition s_signature :: "P_Signature ser" where
  "s_signature = ser_iso ps_bytes P_Signature.make ser_bytes"

definition s_vote :: "P_Vote ser" where
  "s_vote = ser_iso
     (\<lambda>v. (pvt_vote_type v, pvt_height v, pvt_round v, pvt_value v, pvt_validator_address v))
     (\<lambda>(a, b, c, d, e). P_Vote.make a b c d e)
     (ser_pair ser_word (ser_pair ser_word (ser_pair ser_word
       (ser_pair (ser_opt s_value_id) (ser_opt s_address)))))"

definition s_proposal :: "P_Proposal ser" where
  "s_proposal = ser_iso
     (\<lambda>p. (pp_height p, pp_round p, pp_value p, pp_pol_round p, pp_validator_address p))
     (\<lambda>(a, b, c, d, e). P_Proposal.make a b c d e)
     (ser_pair ser_word (ser_pair ser_word (ser_pair (ser_opt s_value)
       (ser_pair (ser_opt ser_word) (ser_opt s_address)))))"

definition s_signed_message :: "P_SignedMessage ser" where
  "s_signed_message = ser_iso
     (\<lambda>m. (map_option (case_P_Message Inl Inr) (psm_message m), psm_signature m))
     (\<lambda>(a, b). P_SignedMessage.make (map_option (case_sum PM_Proposal PM_Vote) a) b)
     (ser_pair (ser_opt (ser_sum s_proposal s_vote)) (ser_opt s_signature))"

definition s_part :: "P_ProposalPart ser" where
  "s_part = ser_iso
     (\<lambda>p. map_option (case_P_Part
         (\<lambda>i. Inl (ppi_height i, ppi_round i, ppi_proposer i))
         (\<lambda>d. Inr (Inl (ppd_bytes d)))
         (\<lambda>f. Inr (Inr (ppf_signature f)))) (ppp_part p))
     (\<lambda>x. P_ProposalPart.make (map_option (case_sum
         (\<lambda>(a, b, c). PP_Init (P_ProposalInit.make a b c))
         (case_sum (\<lambda>d. PP_Data (P_ProposalData.make d)) (\<lambda>s. PP_Fin (P_ProposalFin.make s)))) x))
     (ser_opt (ser_sum (ser_pair ser_word (ser_pair ser_word (ser_opt s_address)))
       (ser_sum ser_bytes (ser_opt s_signature))))"

definition s_stream_message :: "P_StreamMessage ser" where
  "s_stream_message = ser_iso
     (\<lambda>m. (pst_stream_id m, pst_sequence m, map_option (case_P_Content Inl Inr) (pst_content m)))
     (\<lambda>(a, b, c). P_StreamMessage.make a b (map_option (case_sum PC_Data PC_Fin) c))
     (ser_pair ser_bytes (ser_pair ser_word (ser_opt (ser_sum ser_bytes ser_bool))))"

definition s_proposed_value :: "P_ProposedValue ser" where
  "s_proposed_value = ser_iso
     (\<lambda>p. (ppv_height p, ppv_round p, ppv_valid_round p, ppv_proposer p, ppv_value p, ppv_validity p))
     (\<lambda>(a, b, c, d, e, f). P_ProposedValue.make a b c d e f)
     (ser_pair ser_word (ser_pair ser_word (ser_pair (ser_opt ser_word)
       (ser_pair (ser_opt s_address) (ser_pair (ser_opt s_value) ser_bool)))))"

definition s_status :: "P_Status ser" where
  "s_status = ser_iso
     (\<lambda>s. (map_option ppr_id (pss_peer_id s), pss_height s, pss_earliest_height s))
     (\<lambda>(a, b, c). P_Status.make (map_option P_PeerId.make a) b c)
     (ser_pair (ser_opt ser_bytes) (ser_pair ser_word ser_word))"

definition s_request :: "P_SyncRequest ser" where
  "s_request = ser_iso
     (\<lambda>r. map_option (case_P_Request Inl (\<lambda>h n. Inr (h, n))) (psr_request r))
     (\<lambda>x. P_SyncRequest.make
       (map_option (case_sum PR_ValueRequest (\<lambda>(h, n). PR_VoteSetRequest h n)) x))
     (ser_opt (ser_sum ser_word (ser_pair ser_word ser_word)))"

definition s_certificate :: "P_CommitCertificate ser" where
  "s_certificate = ser_iso
     (\<lambda>c. (pcc_height c, pcc_round c, pcc_value_id c,
        map_option (\<lambda>a. map (\<lambda>s. (pcs_validator_address s, pcs_signature s)) (pas_signatures a))
          (pcc_aggregated_signature c)))
     (\<lambda>(a, b, c, d). P_CommitCertificate.make a b c (map_option (\<lambda>l. P_AggregatedSignature.make
        (map (\<lambda>(x, y). P_CommitSignature.make x y) l)) d))
     (ser_pair ser_word (ser_pair ser_word (ser_pair (ser_opt s_value_id)
       (ser_opt (ser_list (ser_pair (ser_opt s_address) (ser_opt s_signature)))))))"

definition s_response :: "P_SyncResponse ser" where
  "s_response = ser_iso
     (\<lambda>r. map_option (case_P_Response
        (\<lambda>h v. Inl (h, map_option (\<lambda>s. (psv_value_bytes s, psv_certificate s)) v))
        (\<lambda>h n vs. Inr (h, n, map_option pvs_signed_votes vs))) (psr_response r))
     (\<lambda>x. P_SyncResponse.make (map_option (case_sum
        (\<lambda>(h, v). PR_ValueResponse h (map_option (\<lambda>(a, b). P_SyncedValue.make a b) v))
        (\<lambda>(h, n, vs). PR_VoteSetResponse h n (map_option P_VoteSet.make vs))) x))
     (ser_opt (ser_sum
       (ser_pair ser_word (ser_opt (ser_pair ser_bytes (ser_opt s_certificate))))
       (ser_pair ser_word (ser_pair ser_word (ser_opt (ser_list s_signed_message))))))"

lemmas make_defs = P_Address.make_def P_Value.make_def P_ValueId.make_def P_Signature.make_def
  P_Vote.make_def P_Proposal.make_def P_SignedMessage.make_def P_ProposalInit.make_def
  P_ProposalData.make_def P_ProposalFin.make_def P_ProposalPart.make_def P_StreamMessage.make_def
  P_ProposedValue.make_def P_Status.make_def P_PeerId.make_def P_SyncRequest.make_def
  P_CommitCertificate.make_def P_AggregatedSignature.make_def P_CommitSignature.make_def
  P_SyncedValue.make_def P_VoteSet.make_def P_SyncResponse.make_def

lemma ser_ok_small [ser_intros]:
  "ser_ok s_address" "ser_ok s_value" "ser_ok s_value_id" "ser_ok s_signature"
  unfolding s_address_def s_value_def s_value_id_def s_signature_def
  by (intro ser_intros; simp add: make_defs)+

lemma ser_ok_vote [ser_intros]: "ser_ok s_vote"
  unfolding s_vote_def by (intro ser_intros) (simp_all add: make_defs)

lemma ser_ok_proposal [ser_intros]: "ser_ok s_proposal"
  unfolding s_proposal_def by (intro ser_intros) (simp_all add: make_defs)

lemma map_option_case: "map_option f (map_option g x) = x" if "\<And>y. f (g y) = y"
  using that by (cases x) simp_all

lemma ser_ok_signed_message [ser_intros]: "ser_ok s_signed_message"
  unfolding s_signed_message_def
proof (rule ser_ok_iso)
  fix m :: P_SignedMessage
  have "map_option (case_sum PM_Proposal PM_Vote) (map_option (case_P_Message Inl Inr) x) = x" for x
    by (rule map_option_case) (simp split: P_Message.split)
  then show "(case (map_option (case_P_Message Inl Inr) (psm_message m), psm_signature m) of
      (a, b) \<Rightarrow> P_SignedMessage.make (map_option (case_sum PM_Proposal PM_Vote) a) b) = m"
    by (simp add: make_defs)
qed (intro ser_intros; simp)

lemma ser_ok_part [ser_intros]: "ser_ok s_part"
  unfolding s_part_def
proof (rule ser_ok_iso, goal_cases)
  case (2 m)
  show ?case
    by (cases m; cases "ppp_part m") (auto simp: make_defs split: P_Part.split)
qed (intro ser_intros; simp)

lemma ser_ok_stream_message [ser_intros]: "ser_ok s_stream_message"
  unfolding s_stream_message_def
proof (rule ser_ok_iso, goal_cases)
  case (2 m)
  show ?case
    by (cases m; cases "pst_content m") (auto simp: make_defs split: P_Content.split)
qed (intro ser_intros; simp)

lemma ser_ok_proposed_value [ser_intros]: "ser_ok s_proposed_value"
  unfolding s_proposed_value_def by (intro ser_intros) (simp_all add: make_defs)

lemma ser_ok_status [ser_intros]: "ser_ok s_status"
  unfolding s_status_def
proof (rule ser_ok_iso, goal_cases)
  case (2 m)
  show ?case
    by (cases m; cases "pss_peer_id m") (auto simp: make_defs)
qed (intro ser_intros; simp)

lemma ser_ok_request [ser_intros]: "ser_ok s_request"
  unfolding s_request_def
proof (rule ser_ok_iso, goal_cases)
  case (2 m)
  show ?case
    by (cases m; cases "psr_request m") (auto simp: make_defs split: P_Request.split)
qed (intro ser_intros; simp)

lemma make_commit_signatures:
  "map (\<lambda>(x, y). P_CommitSignature.make x y)
     (map (\<lambda>s. (pcs_validator_address s, pcs_signature s)) l) = l"
  by (induction l) (simp_all add: make_defs)

lemma ser_ok_certificate [ser_intros]: "ser_ok s_certificate"
  unfolding s_certificate_def
proof (rule ser_ok_iso, goal_cases)
  case (2 m)
  show ?case
    by (cases m; cases "pcc_aggregated_signature m")
      (auto simp: P_CommitCertificate.make_def P_AggregatedSignature.make_def make_commit_signatures
        simp del: map_map)
qed (intro ser_intros; simp)

lemma ser_ok_response [ser_intros]: "ser_ok s_response"
  unfolding s_response_def
proof (rule ser_ok_iso, goal_cases)
  case (2 m)
  have "map_option (\<lambda>(a, b). P_SyncedValue.make a b)
      (map_option (\<lambda>s. (psv_value_bytes s, psv_certificate s)) v) = v" for v
    by (rule map_option_case) (simp add: make_defs)
  moreover have "map_option P_VoteSet.make (map_option pvs_signed_votes v) = v" for v
    by (rule map_option_case) (simp add: make_defs)
  ultimately show ?case
    by (cases m; cases "psr_response m")
      (auto simp: P_SyncResponse.make_def split: P_Response.split simp del: option.map_comp map_option_o_case_sum)
qed (intro ser_intros; simp)

section \<open>Codecs\<close>

text \<open>The codec of a serialiser accepts exactly a full encoding: nothing may be left over.\<close>

definition codec_of_ser :: "'a ser \<Rightarrow> 'a codec" where
  "codec_of_ser s = \<lparr>enc = fst s,
     dec = (\<lambda>b. case snd s b of Some (x, []) \<Rightarrow> Inr x | _ \<Rightarrow> Inl (Decode ''failed to decode''))\<rparr>"

lemma codec_ok_ser: "ser_ok s \<Longrightarrow> codec_ok (codec_of_ser s)"
  using ser_okD [of s _ "[]"] by (simp add: codec_ok_def codec_of_ser_def)

definition fold_bytes :: "bytes \<Rightarrow> 'n::len word" where
  "fold_bytes b = foldl (\<lambda>acc x. 31 * acc + ucast x + 1) 7 b"

definition std_rounds :: round_lib where
  "std_rounds = \<lparr>
     round_new = RSome,
     round_as_u32 = (\<lambda>r. case r of RNil \<Rightarrow> None | RSome n \<Rightarrow> Some n),
     round_as_i64 = (\<lambda>r. case r of RNil \<Rightarrow> - 1 | RSome n \<Rightarrow> ucast n),
     round_of_opt = (\<lambda>x. case x of None \<Rightarrow> RNil | Some n \<Rightarrow> RSome n),
     round_of_i64 = (\<lambda>i. if i = - 1 then RNil else RSome (ucast i)),
     validity_of_bool = (\<lambda>b. if b then Valid else Invalid),
     validity_to_bool = (\<lambda>v. v = Valid)\<rparr>"

definition std_crypto :: crypto_lib where
  "std_crypto = \<lparr>
     keccak256 = fold_bytes,
     siphash = fold_bytes,
     pk_as_bytes = (\<lambda>pk. case pk of PublicKey b \<Rightarrow> b),
     sk_public_key = (\<lambda>sk. case sk of PrivateKey b \<Rightarrow> PublicKey b),
     sk_sign = (\<lambda>sk m. case sk of PrivateKey b \<Rightarrow> Signature (fold_bytes (b @ m))),
     pk_verify = (\<lambda>pk m s. case pk of PublicKey b \<Rightarrow> s = Signature (fold_bytes (b @ m))),
     sig_to_bytes = (\<lambda>s. case s of Signature w \<Rightarrow> to_be_bytes w),
     sig_from_bytes = (\<lambda>b. Signature (from_be_bytes b))\<rparr>"

definition std_ids :: id_lib where
  "std_ids = \<lparr>
     peer_to_bytes = (\<lambda>p. case p of PeerId b \<Rightarrow> b),
     peer_from_bytes = (\<lambda>b. Some (PeerId b)),
     sid_new = StreamId,
     sid_to_bytes = (\<lambda>s. case s of StreamId b \<Rightarrow> b)\<rparr>"

definition std_prost :: prost_lib where
  "std_prost = \<lparr>
     vote_type_of_i32 = (\<lambda>i. if i = 1 then PRECOMMIT else PREVOTE),
     vote_type_to_i32 = (\<lambda>t. case t of PREVOTE \<Rightarrow> 0 | PRECOMMIT \<Rightarrow> 1),
     c_signature = codec_of_ser s_signature,
     c_signed_message = codec_of_ser s_signed_message,
     c_stream_message = codec_of_ser s_stream_message,
     c_proposed_value = codec_of_ser s_proposed_value,
     c_status = codec_of_ser s_status,
     c_sync_request = codec_of_ser s_request,
     c_sync_response = codec_of_ser s_response,
     c_certificate = codec_of_ser s_certificate\<rparr>"

definition std_lib :: lib where
  "std_lib = \<lparr>rounds = std_rounds, crypto = std_crypto, ids = std_ids, prost = std_prost\<rparr>"

lemma ucast_u32_not_minus_one: "(ucast (n :: u32) :: i64) \<noteq> - 1"
proof
  assume "(ucast n :: i64) = - 1"
  then have "unat (ucast n :: i64) = unat (- 1 :: i64)" by (rule arg_cong)
  moreover have "unat (- 1 :: i64) = 2 ^ 64 - 1" by (simp add: unsigned_minus_1_eq_mask mask_eq_exp_minus_1)
  ultimately show False using unat_u32_less [of n] by simp
qed

lemma ucast_down_u32: "(ucast (ucast (n :: u32) :: i64) :: u32) = n"
  by (rule bit_word_eqI) (auto simp: bit_ucast_iff)

lemma std_round_laws: "round_laws std_rounds"
  unfolding round_laws_def
  by (auto simp: std_rounds_def ucast_u32_not_minus_one ucast_down_u32 split: Round.split)
    (metis Validity.exhaust)

lemma std_crypto_laws: "crypto_laws std_crypto"
  by (auto simp: crypto_laws_def std_crypto_def split: PrivateKey.split Signature.split)

lemma std_id_laws: "id_laws std_ids"
  by (auto simp: id_laws_def std_ids_def split: PeerId.split StreamId.split)

lemma std_prost_laws: "prost_laws std_prost"
  by (simp add: prost_laws_def std_prost_def codec_ok_ser ser_intros split: P_VoteType.split)

lemma std_lib_laws: "lib_laws std_lib"
  by (simp add: lib_laws_def std_lib_def std_round_laws std_crypto_laws std_id_laws std_prost_laws)

definition trait_to :: "('m \<Rightarrow> (ProtoError, 'p) result) \<Rightarrow> 'p ser \<Rightarrow> 'm \<Rightarrow> (ProtoError, bytes) result" where
  "trait_to f s m = and_then (f m) (\<lambda>p. Inr (enc (codec_of_ser s) p))"

definition trait_from :: "('p \<Rightarrow> (ProtoError, 'm) result) \<Rightarrow> 'p ser \<Rightarrow> bytes \<Rightarrow> (ProtoError, 'm) result" where
  "trait_from f s b = and_then (lift_lib id (dec (codec_of_ser s) b)) f"

lemma trait_law: "ser_ok s \<Longrightarrow> protobuf_law f g (trait_to f s) (trait_from g s)"
  unfolding protobuf_law_def trait_to_def trait_from_def using codec_ok_ser by blast

definition std_protobuf :: protobuf_trait where
  "std_protobuf = \<lparr>
     vote_to_bytes = trait_to (Vote_to_proto std_lib) s_vote,
     proposal_to_bytes = trait_to (Proposal_to_proto std_lib) s_proposal,
     part_to_bytes = trait_to (ProposalPart_to_proto std_lib) s_part,
     part_from_bytes = trait_from (ProposalPart_from_proto std_lib) s_part,
     value_to_bytes = trait_to Value_to_proto s_value,
     value_from_bytes = trait_from Value_from_proto s_value\<rparr>"

definition std_msg_lib :: msg_lib where
  "std_msg_lib = lib.extend std_lib \<lparr>protobuf = std_protobuf\<rparr>"

lemma std_msg_lib_sel [simp]:
  "rounds std_msg_lib = std_rounds" "crypto std_msg_lib = std_crypto" "ids std_msg_lib = std_ids"
  "prost std_msg_lib = std_prost" "protobuf std_msg_lib = std_protobuf"
  by (simp_all add: std_msg_lib_def std_lib_def lib.defs)

lemma std_lib_sel [simp]:
  "rounds std_lib = std_rounds" "crypto std_lib = std_crypto" "ids std_lib = std_ids"
  "prost std_lib = std_prost"
  by (simp_all add: std_lib_def)

lemma std_signature_format: "decode_signature std_msg_lib = decode_signature std_lib"
  "encode_signature std_msg_lib = encode_signature std_lib"
  by (intro ext; simp add: encode_signature_def decode_signature_def std_lib_def)+

lemma std_formats:
  "Vote_to_proto std_msg_lib = Vote_to_proto std_lib" "Vote_from_proto std_msg_lib = Vote_from_proto std_lib"
  "Proposal_to_proto std_msg_lib = Proposal_to_proto std_lib"
  "Proposal_from_proto std_msg_lib = Proposal_from_proto std_lib"
  "ProposalPart_to_proto std_msg_lib = ProposalPart_to_proto std_lib"
  "ProposalPart_from_proto std_msg_lib = ProposalPart_from_proto std_lib"
  unfolding Vote_to_proto_def Vote_from_proto_def Proposal_to_proto_def Proposal_from_proto_def
    ProposalPart_to_proto_def ProposalPart_from_proto_def std_signature_format std_msg_lib_sel
    std_lib_sel
  by (rule refl)+

lemma std_msg_laws: "msg_laws std_msg_lib"
proof -
  have "lib_laws std_msg_lib"
    by (simp add: lib_laws_def std_round_laws std_crypto_laws std_id_laws std_prost_laws)
  moreover have
    "protobuf_law (Vote_to_proto std_lib) (Vote_from_proto std_lib)
       (trait_to (Vote_to_proto std_lib) s_vote) (trait_from (Vote_from_proto std_lib) s_vote)"
    "protobuf_law (Proposal_to_proto std_lib) (Proposal_from_proto std_lib)
       (trait_to (Proposal_to_proto std_lib) s_proposal) (trait_from (Proposal_from_proto std_lib) s_proposal)"
    by (intro trait_law ser_intros)+
  moreover have
    "protobuf_law (ProposalPart_to_proto std_lib) (ProposalPart_from_proto std_lib)
       (trait_to (ProposalPart_to_proto std_lib) s_part) (trait_from (ProposalPart_from_proto std_lib) s_part)"
    "protobuf_law Value_to_proto Value_from_proto
       (trait_to Value_to_proto s_value) (trait_from Value_from_proto s_value)"
    by (intro trait_law ser_intros)+
  ultimately show ?thesis
    by (auto simp: msg_laws_def std_formats std_protobuf_def)
qed

end
