(* ===== verification/Streaming.thy ===== *)
theory Streaming
  imports Reference_Libs "HOL-Library.Multiset"
begin

text \<open>
  \<open>app/src/streaming.rs\<close>: reassembling the parts of a proposal from the messages of a stream,
  which arrive in any order, more than once, and interleaved with other streams. The standard
  library's \<open>BinaryHeap\<close> is a list whose \<open>pop\<close> takes a greatest element, a \<open>HashSet\<close> a set, a
  \<open>BTreeMap\<close> a map.
\<close>

section \<open>The message API of Malachite\<close>

record stream_lib =
  is_first :: "ProposalPart StreamMessage \<Rightarrow> bool"
  is_fin :: "ProposalPart StreamMessage \<Rightarrow> bool"
  content_as_data :: "ProposalPart StreamContent \<Rightarrow> ProposalPart option"
  content_into_data :: "ProposalPart StreamContent \<Rightarrow> ProposalPart option"

record stream_msg_lib = msg_lib + stream :: stream_lib

text \<open>A message is first when its sequence number is 0, final when it carries no data.\<close>

definition stream_laws :: "stream_lib \<Rightarrow> bool" where
  "stream_laws S \<longleftrightarrow>
     (\<forall>m. is_first S m \<longleftrightarrow> sm_sequence m = 0) \<and>
     (\<forall>m. is_fin S m \<longleftrightarrow> sm_content m = SFin) \<and>
     (\<forall>p. content_as_data S (SData p) = Some p) \<and> content_as_data S SFin = None \<and>
     (\<forall>p. content_into_data S (SData p) = Some p) \<and> content_into_data S SFin = None"

lemma stream_lawsD [law_simps]:
  assumes "stream_laws S"
  shows "is_first S m \<longleftrightarrow> sm_sequence m = 0" "is_fin S m \<longleftrightarrow> sm_content m = SFin"
    "content_as_data S (SData p) = Some p" "content_as_data S SFin = None"
    "content_into_data S (SData p) = Some p" "content_into_data S SFin = None"
  using assms by (auto simp: stream_laws_def)

section \<open>The buffer\<close>

datatype MinSeq = MinSeq (seq_msg: "ProposalPart StreamMessage")

definition MinSeq_cmp :: "MinSeq \<Rightarrow> MinSeq \<Rightarrow> ordering" where
  "MinSeq_cmp a b = ord_cmp (sm_sequence (seq_msg b)) (sm_sequence (seq_msg a))"

definition MinSeq_eq :: "MinSeq \<Rightarrow> MinSeq \<Rightarrow> bool" where
  "MinSeq_eq a b \<longleftrightarrow> sm_sequence (seq_msg a) = sm_sequence (seq_msg b)"

definition MinSeq_partial_cmp :: "MinSeq \<Rightarrow> MinSeq \<Rightarrow> ordering option" where
  "MinSeq_partial_cmp a b = Some (MinSeq_cmp a b)"

text \<open>\<open>BinaryHeap::pop\<close>: a greatest element in the order given, and the others.\<close>

fun pop_greatest :: "('a \<Rightarrow> 'a \<Rightarrow> ordering) \<Rightarrow> 'a list \<Rightarrow> ('a \<times> 'a list) option" where
  "pop_greatest cmp [] = None"
| "pop_greatest cmp (x # xs) =
     (case pop_greatest cmp xs of
        None \<Rightarrow> Some (x, [])
      | Some (m, rest) \<Rightarrow> if cmp x m = Less then Some (m, x # rest) else Some (x, xs))"

datatype MinHeap = MinHeap (heap_items: "MinSeq list")

definition MinHeap_default :: MinHeap where
  "MinHeap_default = MinHeap []"

definition MinHeap_push :: "MinHeap \<Rightarrow> ProposalPart StreamMessage \<Rightarrow> MinHeap" where
  "MinHeap_push h msg = MinHeap (MinSeq msg # heap_items h)"

definition MinHeap_len :: "MinHeap \<Rightarrow> nat" where
  "MinHeap_len h = length (heap_items h)"

definition MinHeap_pop :: "MinHeap \<Rightarrow> (ProposalPart StreamMessage \<times> MinHeap) option" where
  "MinHeap_pop h = map_option (\<lambda>(m, rest). (seq_msg m, MinHeap rest))
     (pop_greatest MinSeq_cmp (heap_items h))"

lemma pop_greatest_None [simp]: "pop_greatest cmp xs = None \<longleftrightarrow> xs = []"
  by (cases xs) (auto split: option.split)

lemma pop_greatest_mset: "pop_greatest cmp xs = Some (m, rest) \<Longrightarrow> mset xs = add_mset m (mset rest)"
  by (induction xs arbitrary: m rest) (auto split: option.splits if_splits)

lemma pop_greatest_length: "pop_greatest cmp xs = Some (m, rest) \<Longrightarrow> length xs = Suc (length rest)"
  by (drule pop_greatest_mset, drule arg_cong [where f = size]) simp

lemma pop_greatest_min:
  assumes "\<And>x y. cmp x y = Less \<longleftrightarrow> (key y :: 'k::linorder) < key x"
  shows "pop_greatest cmp xs = Some (m, rest) \<Longrightarrow> x \<in> set xs \<Longrightarrow> key m \<le> key x"
proof (induction xs arbitrary: m rest x)
  case Nil
  then show ?case by simp
next
  case (Cons a xs)
  show ?case
  proof (cases "pop_greatest cmp xs")
    case None
    with Cons.prems show ?thesis by auto
  next
    case (Some p)
    obtain b r where p: "p = (b, r)" by (cases p)
    from Cons.IH [OF Some [unfolded p]] have "key b \<le> key y" if "y \<in> set xs" for y using that .
    moreover have "b \<in> set xs" using pop_greatest_mset [OF Some [unfolded p]]
      by (metis set_mset_mset union_single_eq_member)
    ultimately show ?thesis
      using Cons.prems Some p by (fastforce simp: assms split: if_splits)
  qed
qed

lemma MinHeap_pop_length:
  "MinHeap_pop h = Some (m, h') \<Longrightarrow> length (heap_items h) = Suc (length (heap_items h'))"
  by (auto simp: MinHeap_pop_def pop_greatest_length)

function MinHeap_drain_loop ::
  "'z stream_msg_lib_scheme \<Rightarrow> ProposalPart list \<Rightarrow> MinHeap \<Rightarrow> ProposalPart list \<times> MinHeap" where
  "MinHeap_drain_loop L vec h =
     (case MinHeap_pop h of
        None \<Rightarrow> (vec, h)
      | Some (msg, h') \<Rightarrow>
          MinHeap_drain_loop L
            (case content_into_data (stream L) (sm_content msg) of
               Some data \<Rightarrow> vec @ [data] | None \<Rightarrow> vec) h')"
  by pat_completeness auto
termination
  by (relation "measure (\<lambda>(L, vec, h). length (heap_items h))") (auto dest: MinHeap_pop_length)

declare MinHeap_drain_loop.simps [simp del]

definition MinHeap_drain :: "'z stream_msg_lib_scheme \<Rightarrow> MinHeap \<Rightarrow> ProposalPart list \<times> MinHeap" where
  "MinHeap_drain L h = MinHeap_drain_loop L [] h"

text \<open>
  The contract of a buffer that hands elements back by ascending key. \<open>unload\<close> is any consumer
  that pops until the buffer is empty.
\<close>

locale priority_buffer =
  fixes empty :: 'h
    and push :: "'h \<Rightarrow> 'm \<Rightarrow> 'h"
    and pop :: "'h \<Rightarrow> ('m \<times> 'h) option"
    and items :: "'h \<Rightarrow> 'm multiset"
    and key :: "'m \<Rightarrow> 'k::linorder"
    and unload :: "'h \<Rightarrow> 'm list"
  assumes items_empty: "items empty = {#}"
    and items_push: "items (push h m) = add_mset m (items h)"
    and pop_None: "pop h = None \<Longrightarrow> items h = {#} \<and> unload h = []"
    and pop_Some: "pop h = Some (m, h') \<Longrightarrow>
      items h = add_mset m (items h') \<and> (\<forall>x \<in># items h. key m \<le> key x) \<and> unload h = m # unload h'"
begin

lemma unload_sorted: "sorted (map key (unload h)) \<and> mset (unload h) = items h"
proof (induction "size (items h)" arbitrary: h)
  case 0
  have "pop h = None"
    using 0 by (cases "pop h") (auto dest!: pop_Some)
  with pop_None show ?case by simp
next
  case (Suc n)
  have "pop h \<noteq> None"
    using Suc(2) pop_None [of h] by (cases "pop h") auto
  then obtain m h' where pop: "pop h = Some (m, h')" by auto
  note p = pop_Some [OF pop]
  with Suc(2) have "n = size (items h')" by simp
  from Suc(1) [OF this] have IH: "sorted (map key (unload h'))" "mset (unload h') = items h'"
    by simp_all
  then have "\<forall>x \<in> set (unload h'). key m \<le> key x"
    using p by (metis set_mset_mset insert_iff set_mset_add_mset_insert)
  with p IH show ?case by simp
qed

lemma items_pushes: "items (foldl push h ms) = items h + mset ms"
  by (induction ms arbitrary: h) (simp_all add: items_push)

text \<open>With distinct keys the arrival order is forgotten.\<close>

lemma unload_order_free:
  assumes "mset ms = items h" and "distinct (map key ms)" and "sorted (map key ms)"
  shows "unload h = ms"
proof -
  have u: "sorted (map key (unload h))" "mset (unload h) = mset ms"
    using unload_sorted [of h] assms(1) by simp_all
  have "distinct (map key (unload h))"
    using assms(2) u(2) by (metis distinct_map mset_eq_imp_distinct_iff mset_eq_setD mset_map)
  with u assms show ?thesis
    by (metis distinct_map map_sorted_distinct_set_unique mset_eq_setD sup.idem)
qed

lemma unload_permuted:
  assumes "mset as = mset bs" and "distinct (map key as)"
  shows "unload (foldl push empty as) = unload (foldl push empty bs)"
proof (rule unload_order_free)
  let ?u = "unload (foldl push empty bs)"
  have u: "sorted (map key ?u)" "mset ?u = mset bs"
    using unload_sorted [of "foldl push empty bs"] by (simp_all add: items_pushes items_empty)
  then show "mset ?u = items (foldl push empty as)" "sorted (map key ?u)"
    using assms(1) by (simp_all add: items_pushes items_empty)
  show "distinct (map key ?u)"
    using assms u(2) by (metis mset_eq_imp_distinct_iff mset_map)
qed

end

text \<open>The messages a buffer would hand back, in order.\<close>

function MinHeap_unload :: "MinHeap \<Rightarrow> ProposalPart StreamMessage list" where
  "MinHeap_unload h = (case MinHeap_pop h of None \<Rightarrow> [] | Some (m, h') \<Rightarrow> m # MinHeap_unload h')"
  by pat_completeness auto
termination
  by (relation "measure (\<lambda>h. length (heap_items h))") (auto dest: MinHeap_pop_length)

declare MinHeap_unload.simps [simp del]

abbreviation heap_msgs :: "MinHeap \<Rightarrow> ProposalPart StreamMessage multiset" where
  "heap_msgs h \<equiv> mset (map seq_msg (heap_items h))"

interpretation min_heap: priority_buffer MinHeap_default MinHeap_push MinHeap_pop heap_msgs
  sm_sequence MinHeap_unload
proof (unfold_locales, goal_cases)
  case (3 h)
  then show ?case by (subst MinHeap_unload.simps) (simp add: MinHeap_pop_def)
next
  case (4 h m h')
  then obtain r where r: "pop_greatest MinSeq_cmp (heap_items h) = Some (MinSeq m, r)"
    and h': "h' = MinHeap r"
    by (auto simp: MinHeap_pop_def)
  have "sm_sequence m \<le> sm_sequence (seq_msg x)" if "x \<in> set (heap_items h)" for x
    using pop_greatest_min [of MinSeq_cmp "\<lambda>x. sm_sequence (seq_msg x)", OF _ r that]
    by (simp add: MinSeq_cmp_def)
  moreover have "set r \<subseteq> set (heap_items h)"
    using pop_greatest_mset [OF r] by (metis set_mset_mset set_mset_add_mset_insert subset_insertI)
  moreover have "MinSeq m \<in> set (heap_items h)"
    using pop_greatest_mset [OF r] by (metis set_mset_mset union_single_eq_member)
  ultimately show ?case
    using 4 pop_greatest_mset [OF r] h' by (auto simp: MinHeap_unload.simps [of h])
qed (simp_all add: MinHeap_default_def MinHeap_push_def)

lemma MinHeap_drain_loop_eq:
  "MinHeap_drain_loop L vec h =
    (vec @ List.map_filter (\<lambda>m. content_into_data (stream L) (sm_content m)) (MinHeap_unload h),
     MinHeap_default)"
proof (induction L vec h rule: MinHeap_drain_loop.induct)
  case (1 L vec h)
  show ?case
  proof (cases "MinHeap_pop h")
    case None
    then have "h = MinHeap_default" by (cases h) (simp add: MinHeap_pop_def MinHeap_default_def)
    with None show ?thesis
      by (subst MinHeap_drain_loop.simps, subst MinHeap_unload.simps)
        (simp add: List.map_filter_simps)
  next
    case (Some p)
    obtain m h' where p: "p = (m, h')" by (cases p)
    from 1 [OF Some [unfolded p] refl] Some p show ?thesis
      by (subst MinHeap_drain_loop.simps, subst MinHeap_unload.simps)
        (simp add: List.map_filter_simps split: option.split)
  qed
qed

lemma MinHeap_drain_eq:
  "MinHeap_drain L h =
    (List.map_filter (\<lambda>m. content_into_data (stream L) (sm_content m)) (MinHeap_unload h),
     MinHeap_default)"
  by (simp add: MinHeap_drain_def MinHeap_drain_loop_eq)

section \<open>One stream\<close>

record StreamState =
  buffer :: MinHeap
  init_info :: "ProposalInit option"
  seen_sequences :: "u64 set"
  total_messages :: usize
  fin_received :: bool

record ProposalParts =
  parts_height :: Height
  parts_round :: Round
  parts_proposer :: Address
  parts_parts :: "ProposalPart list"

definition StreamState_default :: StreamState where
  "StreamState_default = \<lparr>buffer = MinHeap_default, init_info = None, seen_sequences = {},
     total_messages = 0, fin_received = False\<rparr>"

definition is_done :: "StreamState \<Rightarrow> bool" where
  "is_done st \<longleftrightarrow> init_info st \<noteq> None \<and> fin_received st \<and>
     MinHeap_len (buffer st) = unat (total_messages st)"

definition StreamState_insert ::
  "'z stream_msg_lib_scheme \<Rightarrow> StreamState \<Rightarrow> ProposalPart StreamMessage \<Rightarrow>
    ('e, ProposalParts option \<times> StreamState) result" where
  "StreamState_insert L st msg =
     (let st = (if is_first (stream L) msg
        then st\<lparr>init_info := Option.bind (content_as_data (stream L) (sm_content msg)) as_init\<rparr>
        else st) in
      and_then (if is_fin (stream L) msg
        then and_then (add_chk (sm_sequence msg) 1) (\<lambda>total.
          Inr (st\<lparr>fin_received := True, total_messages := total\<rparr>))
        else Inr st) (\<lambda>st.
      let st = st\<lparr>buffer := MinHeap_push (buffer st) msg\<rparr> in
      if is_done st then
        (case init_info st of
           None \<Rightarrow> Inr (None, st)
         | Some i \<Rightarrow>
             (let st = st\<lparr>init_info := None\<rparr>;
                  (parts, b) = MinHeap_drain L (buffer st) in
              Inr (Some \<lparr>parts_height = init_height i, parts_round = init_round i,
                parts_proposer = init_proposer i, parts_parts = parts\<rparr>, st\<lparr>buffer := b\<rparr>)))
      else Inr (None, st)))"

section \<open>All streams\<close>

type_synonym stream_key = "PeerId \<times> StreamId"

record PartStreamsMap = streams :: "stream_key \<rightharpoonup> StreamState"

definition PartStreamsMap_new :: PartStreamsMap where
  "PartStreamsMap_new = \<lparr>streams = Map.empty\<rparr>"

definition PartStreamsMap_insert ::
  "'z stream_msg_lib_scheme \<Rightarrow> PartStreamsMap \<Rightarrow> PeerId \<Rightarrow> ProposalPart StreamMessage \<Rightarrow>
    ('e, ProposalParts option \<times> PartStreamsMap) result" where
  "PartStreamsMap_insert L sm peer_id msg =
     (let key = (peer_id, sm_stream_id msg);
          state = (case streams sm key of None \<Rightarrow> StreamState_default | Some st \<Rightarrow> st) in
      if sm_sequence msg \<in> seen_sequences state
      then Inr (None, \<lparr>streams = (streams sm)(key \<mapsto> state)\<rparr>)
      else
        (let state = state\<lparr>seen_sequences := insert (sm_sequence msg) (seen_sequences state)\<rparr> in
         and_then (StreamState_insert L state msg) (\<lambda>(result, state).
           let m = (streams sm)(key \<mapsto> state) in
           Inr (result, \<lparr>streams = (if is_done state then m(key := None) else m)\<rparr>))))"

definition stream_at :: "PartStreamsMap \<Rightarrow> stream_key \<Rightarrow> StreamState" where
  "stream_at sm k = (case streams sm k of None \<Rightarrow> StreamState_default | Some st \<Rightarrow> st)"

text \<open>A sequence of deliveries, with the proposals it completes and the streams they came from.\<close>

fun feed :: "'z stream_msg_lib_scheme \<Rightarrow> PartStreamsMap \<Rightarrow>
    (PeerId \<times> ProposalPart StreamMessage) list \<Rightarrow>
    ('e, (stream_key \<times> ProposalParts) list \<times> PartStreamsMap) result" where
  "feed L sm [] = Inr ([], sm)"
| "feed L sm ((peer, msg) # ds) =
     and_then (PartStreamsMap_insert L sm peer msg) (\<lambda>(out, sm).
     and_then (feed L sm ds) (\<lambda>(outs, sm).
       Inr ((case out of None \<Rightarrow> outs | Some p \<Rightarrow> ((peer, sm_stream_id msg), p) # outs), sm)))"

definition emitted :: "stream_key \<Rightarrow> (stream_key \<times> ProposalParts) list \<Rightarrow> ProposalParts list" where
  "emitted k outs = map snd (filter (\<lambda>(k', _). k' = k) outs)"

definition delivered :: "stream_key \<Rightarrow> (PeerId \<times> ProposalPart StreamMessage) list \<Rightarrow>
    ProposalPart StreamMessage list" where
  "delivered k ds = map snd (filter (\<lambda>(p, m). (p, sm_stream_id m) = k) ds)"

lemma emitted_simps [simp]:
  "emitted k [] = []" "emitted k ((k', p) # outs) = (if k' = k then p # emitted k outs else emitted k outs)"
  by (simp_all add: emitted_def)

lemma delivered_simps [simp]:
  "delivered k [] = []"
  "delivered k ((p, m) # ds) = (if (p, sm_stream_id m) = k then m # delivered k ds else delivered k ds)"
  by (simp_all add: delivered_def)

section \<open>Lemmas\<close>

lemma is_done_drop_init [simp]: "\<not> is_done (st\<lparr>init_info := None, buffer := b\<rparr>)"
  by (simp add: is_done_def)

text \<open>The inner insertion takes the init part out whenever the stream is complete, so the caller
  never sees a complete stream.\<close>

lemma StreamState_insert_not_done: "StreamState_insert L st msg = Inr (out, st') \<Longrightarrow> \<not> is_done st'"
  by (auto simp: is_done_def StreamState_insert_def Let_def and_then_Inr_iff split: if_splits option.splits prod.splits)

lemma StreamState_insert_ok:
  assumes "stream_laws (stream L)" and "sm_content msg = SFin \<Longrightarrow> unat (sm_sequence msg) + 1 < 2 ^ 64"
  shows "\<exists>x. StreamState_insert L st msg = Inr x"
  using assms by (auto simp: StreamState_insert_def Let_def law_simps add_chk_def split: option.split prod.split)

lemma StreamState_insert_seen:
  "StreamState_insert L st msg = Inr (out, st') \<Longrightarrow> seen_sequences st' = seen_sequences st"
  by (auto simp: StreamState_insert_def Let_def and_then_Inr_iff split: if_splits option.splits prod.splits)

lemma PartStreamsMap_insert_other:
  "PartStreamsMap_insert L sm peer msg = Inr (out, sm') \<Longrightarrow> k \<noteq> (peer, sm_stream_id msg) \<Longrightarrow>
    stream_at sm' k = stream_at sm k"
  by (auto simp: PartStreamsMap_insert_def Let_def stream_at_def and_then_Inr_iff split: if_splits)

lemma PartStreamsMap_insert_same:
  assumes "PartStreamsMap_insert L sm peer msg = (Inr (out, sm') :: ('e, _) result)"
    and k: "k = (peer, sm_stream_id msg)"
  shows "if sm_sequence msg \<in> seen_sequences (stream_at sm k)
    then out = None \<and> stream_at sm' k = stream_at sm k
    else StreamState_insert L ((stream_at sm k)\<lparr>seen_sequences :=
      insert (sm_sequence msg) (seen_sequences (stream_at sm k))\<rparr>) msg
      = (Inr (out, stream_at sm' k) :: ('e, _) result)"
  using assms(1) unfolding k
  by (auto simp: PartStreamsMap_insert_def Let_def stream_at_def and_then_Inr_iff
      dest: StreamState_insert_not_done split: if_splits)

lemma PartStreamsMap_insert_ok:
  assumes "stream_laws (stream L)" and "sm_content msg = SFin \<Longrightarrow> unat (sm_sequence msg) + 1 < 2 ^ 64"
  shows "\<exists>x. (PartStreamsMap_insert L sm peer msg :: ('e, _) result) = Inr x"
proof -
  have "\<exists>x. (StreamState_insert L st msg :: ('e, _) result) = Inr x" for st
    using assms by (rule StreamState_insert_ok)
  then obtain f where "(StreamState_insert L st msg :: ('e, _) result) = Inr (f st)" for st
    by metis
  then show ?thesis
    by (simp add: PartStreamsMap_insert_def Let_def split: prod.split)
qed

lemma PartStreamsMap_insert_dom:
  "PartStreamsMap_insert L sm peer msg = Inr (out, sm') \<Longrightarrow>
    dom (streams sm') = insert (peer, sm_stream_id msg) (dom (streams sm))"
  by (auto simp: PartStreamsMap_insert_def Let_def and_then_Inr_iff
      dest: StreamState_insert_not_done split: if_splits)

section \<open>Reassembly\<close>

text \<open>
  The messages of one whole stream in sequence order: an init part first, a final message last
  and nowhere else.
\<close>

definition complete_stream :: "StreamId \<Rightarrow> ProposalInit \<Rightarrow> ProposalPart StreamMessage list \<Rightarrow> bool" where
  "complete_stream sid i ms \<longleftrightarrow> ms \<noteq> [] \<and> length ms < 2 ^ 64 \<and>
     map sm_sequence ms = map of_nat [0..<length ms] \<and>
     (\<forall>m\<in>set ms. sm_stream_id m = sid) \<and>
     sm_content (hd ms) = SData (PartInit i) \<and>
     (\<forall>m\<in>set ms. sm_content m = SFin \<longleftrightarrow> m = last ms)"

definition parts_of :: "ProposalPart StreamMessage list \<Rightarrow> ProposalPart list" where
  "parts_of ms = List.map_filter (\<lambda>m. case sm_content m of SData p \<Rightarrow> Some p | SFin \<Rightarrow> None) ms"

definition assembled :: "ProposalInit \<Rightarrow> ProposalPart StreamMessage list \<Rightarrow> ProposalParts" where
  "assembled i ms = \<lparr>parts_height = init_height i, parts_round = init_round i,
     parts_proposer = init_proposer i, parts_parts = parts_of ms\<rparr>"

text \<open>What a stream holds once it has received the messages \<open>xs\<close> of \<open>ms\<close>, not all of them; and
  once it has handed its proposal over.\<close>

definition collecting ::
  "ProposalInit \<Rightarrow> ProposalPart StreamMessage list \<Rightarrow> ProposalPart StreamMessage list \<Rightarrow> StreamState \<Rightarrow> bool" where
  "collecting i ms xs st \<longleftrightarrow> distinct xs \<and> set xs \<subset> set ms \<and>
     heap_msgs (buffer st) = mset xs \<and> seen_sequences st = sm_sequence ` set xs \<and>
     init_info st = (if hd ms \<in> set xs then Some i else None) \<and>
     fin_received st = (last ms \<in> set xs) \<and>
     total_messages st = (if last ms \<in> set xs then of_nat (length ms) else 0)"

definition handed_over :: "StreamState \<Rightarrow> bool" where
  "handed_over st \<longleftrightarrow> init_info st = None \<and> 0 \<in> seen_sequences st"

lemma content_into_data_eq:
  "stream_laws S \<Longrightarrow> content_into_data S c = (case c of SData p \<Rightarrow> Some p | SFin \<Rightarrow> None)"
  by (cases c) (simp_all add: law_simps)

lemma map_of_nat_nth:
  assumes "map sm_sequence ms = map of_nat [0..<length ms]" and "k < length ms"
  shows "sm_sequence (ms ! k) = of_nat k"
  using arg_cong [OF assms(1), of "\<lambda>l. l ! k"] assms(2) by simp

lemma complete_stream_sequences:
  assumes "complete_stream sid i ms"
  shows "distinct (map sm_sequence ms)" "sorted (map sm_sequence ms)"
proof -
  have *: "map sm_sequence ms = map of_nat [0..<length ms]" "length ms < 2 ^ 64"
    using assms by (auto simp: complete_stream_def)
  have un: "unat (of_nat k :: u64) = k" if "k < length ms" for k
    using that *(2) by (simp add: unat_of_nat)
  then have "inj_on (of_nat :: nat \<Rightarrow> u64) (set [0..<length ms])"
    by (intro inj_onI) (metis atLeastLessThan_iff set_upt)
  then show "distinct (map sm_sequence ms)" by (simp add: * distinct_map)
  show "sorted (map sm_sequence ms)"
    unfolding *(1) sorted_wrt_map sorted_map
    by (rule sorted_wrt_mono_rel [OF _ sorted_upt, simplified])
      (simp add: word_le_nat_alt un)
qed

lemma complete_stream_inj:
  "complete_stream sid i ms \<Longrightarrow> m \<in> set ms \<Longrightarrow> m' \<in> set ms \<Longrightarrow>
    sm_sequence m = sm_sequence m' \<longleftrightarrow> m = m'"
  using complete_stream_sequences(1) by (auto simp: distinct_map dest: inj_onD)

lemma complete_stream_hd:
  assumes "complete_stream sid i ms"
  shows "hd ms \<in> set ms" "last ms \<in> set ms" "sm_sequence (hd ms) = 0" "hd ms \<noteq> last ms"
    "unat (sm_sequence (last ms)) + 1 = length ms" "sm_content (last ms) = SFin"
proof -
  have ne: "ms \<noteq> []" and len: "length ms < 2 ^ 64"
    and seq: "map sm_sequence ms = map of_nat [0..<length ms]"
    and c: "sm_content (hd ms) = SData (PartInit i)"
    and f: "\<forall>m\<in>set ms. sm_content m = SFin \<longleftrightarrow> m = last ms"
    using assms by (auto simp: complete_stream_def)
  show "hd ms \<in> set ms" "last ms \<in> set ms" using ne by simp_all
  with f show "sm_content (last ms) = SFin" by blast
  with c show "hd ms \<noteq> last ms" by auto
  show "sm_sequence (hd ms) = 0"
    using map_of_nat_nth [OF seq, of 0] ne by (simp add: hd_conv_nth)
  have "sm_sequence (last ms) = of_nat (length ms - 1)"
    using map_of_nat_nth [OF seq, of "length ms - 1"] ne by (simp add: last_conv_nth)
  then show "unat (sm_sequence (last ms)) + 1 = length ms"
    using len ne by (simp add: unat_of_nat)
qed

lemma complete_stream_member:
  assumes "complete_stream sid i ms" and "m \<in> set ms"
  shows "sm_sequence m = 0 \<longleftrightarrow> m = hd ms" "sm_content m = SFin \<longleftrightarrow> m = last ms"
    "sm_stream_id m = sid" "sm_content m = SFin \<Longrightarrow> unat (sm_sequence m) + 1 < 2 ^ 64"
proof -
  note h = complete_stream_hd [OF assms(1)]
  show first: "sm_sequence m = 0 \<longleftrightarrow> m = hd ms"
    using complete_stream_inj [OF assms h(1)] h(3) by metis
  show fin: "sm_content m = SFin \<longleftrightarrow> m = last ms" and "sm_stream_id m = sid"
    using assms by (simp_all add: complete_stream_def)
  show "unat (sm_sequence m) + 1 < 2 ^ 64" if "sm_content m = SFin"
  proof -
    have "m = last ms" using fin that by (rule iffD1)
    then have "unat (sm_sequence m) + 1 = length ms" using h(5) by (simp only:)
    then show ?thesis using assms(1) by (simp only: complete_stream_def)
  qed
qed

lemma collecting_start: "complete_stream sid i ms \<Longrightarrow> collecting i ms [] StreamState_default"
  by (auto simp: collecting_def StreamState_default_def MinHeap_default_def complete_stream_def)

lemma unload_complete:
  assumes "complete_stream sid i ms" and "heap_msgs h = mset ms"
  shows "MinHeap_unload h = ms"
  using complete_stream_sequences [OF assms(1)] assms(2)
  by (intro min_heap.unload_order_free) simp_all

text \<open>What the state is when the buffer is looked at, and what is handed over then.\<close>

definition receive :: "StreamState \<Rightarrow> ProposalPart StreamMessage \<Rightarrow> StreamState" where
  "receive st m = st\<lparr>
     init_info := (if sm_sequence m = 0
       then (case sm_content m of SData p \<Rightarrow> as_init p | SFin \<Rightarrow> None) else init_info st),
     fin_received := fin_received st \<or> sm_content m = SFin,
     total_messages := (if sm_content m = SFin then sm_sequence m + 1 else total_messages st),
     buffer := MinHeap_push (buffer st) m\<rparr>"

definition hand_over :: "StreamState \<Rightarrow> ProposalParts option \<times> StreamState" where
  "hand_over st = (if is_done st
     then (Some \<lparr>parts_height = init_height (the (init_info st)),
         parts_round = init_round (the (init_info st)),
         parts_proposer = init_proposer (the (init_info st)),
         parts_parts = parts_of (MinHeap_unload (buffer st))\<rparr>,
       st\<lparr>init_info := None, buffer := MinHeap_default\<rparr>)
     else (None, st))"

lemma StreamState_insert_eq:
  assumes "stream_laws (stream L)"
  shows "StreamState_insert L st m =
    (if sm_content m = SFin \<and> 2 ^ 64 \<le> unat (sm_sequence m) + 1
     then panic ''attempt to add with overflow'' else Inr (hand_over (receive st m)))"
proof -
  have into: "(\<lambda>m. content_into_data (stream L) (sm_content m))
      = (\<lambda>m. case sm_content m of SData p \<Rightarrow> Some p | SFin \<Rightarrow> None)"
    by (rule ext) (rule content_into_data_eq [OF assms])
  have fin: "(if is_done st' then
        (case init_info st' of None \<Rightarrow> Inr (None, st')
         | Some i \<Rightarrow> (let st' = st'\<lparr>init_info := None\<rparr>; (parts, b) = MinHeap_drain L (buffer st') in
              Inr (Some \<lparr>parts_height = init_height i, parts_round = init_round i,
                parts_proposer = init_proposer i, parts_parts = parts\<rparr>, st'\<lparr>buffer := b\<rparr>)))
      else Inr (None, st')) = Inr (hand_over st')" for st'
    by (cases "init_info st'")
      (simp_all add: is_done_def hand_over_def MinHeap_drain_eq into parts_of_def)
  show ?thesis
    unfolding StreamState_insert_def Let_def [of "_\<lparr>buffer := _\<rparr>"] fin
    by (cases st, cases "sm_content m")
      (auto simp: Let_def law_simps assms add_chk_def receive_def)
qed

text \<open>A new message of the stream: the last one missing completes it, every other is kept.\<close>

lemma StreamState_insert_collecting:
  assumes L: "stream_laws (stream L)" and ms: "complete_stream sid i ms"
    and xs: "collecting i ms xs st" and m: "m \<in> set ms" "m \<notin> set xs"
    and run: "StreamState_insert L (st\<lparr>seen_sequences := insert (sm_sequence m) (seen_sequences st)\<rparr>) m
      = Inr (out, st')"
  shows "if set (m # xs) = set ms then out = Some (assembled i ms) \<and> handed_over st'
    else out = None \<and> collecting i ms (m # xs) st'"
proof -
  note mem = complete_stream_member [OF ms m(1)] complete_stream_hd [OF ms]
  let ?st = "receive (st\<lparr>seen_sequences := insert (sm_sequence m) (seen_sequences st)\<rparr>) m"
  have len: "length ms < 2 ^ 64" and ini: "sm_content (hd ms) = SData (PartInit i)"
    using ms by (simp_all add: complete_stream_def)
  have dist: "distinct ms" using complete_stream_sequences(1) [OF ms] by (simp add: distinct_map)
  have run': "(out, st') = hand_over ?st"
    using run mem(4) by (auto simp: StreamState_insert_eq [OF L] split: if_splits)
  have seq1: "sm_sequence (last ms) + 1 = of_nat (length ms)"
    unfolding mem(9) [symmetric] by simp
  have st: "heap_msgs (buffer ?st) = mset (m # xs)"
    "init_info ?st = (if hd ms \<in> set (m # xs) then Some i else None)"
    "fin_received ?st = (last ms \<in> set (m # xs))"
    "total_messages ?st = (if last ms \<in> set (m # xs) then of_nat (length ms) else 0)"
    "seen_sequences ?st = sm_sequence ` set (m # xs)"
    using xs m mem ini
    by (auto simp: collecting_def receive_def MinHeap_push_def seq1)
  have sub: "set (m # xs) \<subseteq> set ms" "distinct (m # xs)"
    using xs m by (auto simp: collecting_def)
  have "card (set (m # xs)) = length (m # xs)" "card (set ms) = length ms"
    using sub(2) dist by (simp_all only: distinct_card)
  then have full: "set (m # xs) = set ms \<longleftrightarrow> length (m # xs) = length ms"
    using sub(1) by (metis List.finite_set card_subset_eq)
  have blen: "MinHeap_len (buffer ?st) = length (m # xs)"
    using arg_cong [OF st(1), of size] by (simp add: MinHeap_len_def)
  have dn: "is_done ?st \<longleftrightarrow> set (m # xs) = set ms"
    unfolding is_done_def st blen full using full mem(5,6) len by (auto simp: unat_of_nat)
  show ?thesis
  proof (cases "set (m # xs) = set ms")
    case True
    then have "mset ms = mset (m # xs)"
      using set_eq_iff_mset_eq_distinct [OF dist sub(2)] by simp
    then have "MinHeap_unload (buffer ?st) = ms"
      using st(1) by (intro unload_complete [OF ms]) simp
    moreover have "hd ms \<in> set (m # xs)" "0 \<in> seen_sequences ?st"
      unfolding st True using mem(5,7) by (simp, metis image_eqI)
    ultimately show ?thesis
      using run' True dn st(2) mem(5) by (simp add: hand_over_def assembled_def handed_over_def)
  next
    case False
    with run' dn have "out = None" "st' = ?st" by (simp_all add: hand_over_def)
    with False sub st show ?thesis
      unfolding collecting_def by (simp only: if_False) blast
  qed
qed

text \<open>A stream that handed its proposal over keeps every further message and hands nothing over.\<close>

lemma receive_handed_over:
  assumes "handed_over st" and "sm_sequence m \<notin> seen_sequences st"
  defines "st1 \<equiv> receive (st\<lparr>seen_sequences := insert (sm_sequence m) (seen_sequences st)\<rparr>) m"
  shows "hand_over st1 = (None, st1) \<and> handed_over st1"
proof -
  have "sm_sequence m \<noteq> 0" using assms(1,2) by (auto simp: handed_over_def)
  with assms(1) show ?thesis
    by (simp add: st1_def handed_over_def hand_over_def is_done_def receive_def)
qed

lemma insert_handed_over:
  assumes L: "stream_laws (stream L)"
    and run: "PartStreamsMap_insert L sm peer msg = (Inr (out, sm') :: ('e, _) result)"
    and h: "handed_over (stream_at sm k)"
  shows "handed_over (stream_at sm' k) \<and> ((peer, sm_stream_id msg) = k \<longrightarrow> out = None)"
proof (cases "k = (peer, sm_stream_id msg)")
  case True
  note same = PartStreamsMap_insert_same [OF run True]
  show ?thesis
  proof (cases "sm_sequence msg \<in> seen_sequences (stream_at sm k)")
    case True
    with same h show ?thesis by auto
  next
    case False
    with same receive_handed_over [OF h False] show ?thesis
      by (auto simp: StreamState_insert_eq [OF L] split: if_splits)
  qed
next
  case False
  then show ?thesis using PartStreamsMap_insert_other [OF run False] h by auto
qed

lemma feed_handed_over:
  assumes L: "stream_laws (stream L)"
  shows "feed L sm ds = (Inr (outs, sm') :: ('e, _) result) \<Longrightarrow> handed_over (stream_at sm k) \<Longrightarrow>
    emitted k outs = [] \<and> handed_over (stream_at sm' k)"
proof (induction ds arbitrary: sm outs)
  case Nil
  then show ?case by simp
next
  case (Cons d ds)
  obtain peer msg where d: "d = (peer, msg)" by (cases d)
  from Cons.prems(1) obtain out sm1 outs1
    where run: "PartStreamsMap_insert L sm peer msg = (Inr (out, sm1) :: ('e, _) result)"
      and rest: "feed L sm1 ds = (Inr (outs1, sm') :: ('e, _) result)"
      and outs: "outs = (case out of None \<Rightarrow> outs1 | Some p \<Rightarrow> ((peer, sm_stream_id msg), p) # outs1)"
    by (auto simp: d and_then_Inr_iff)
  from insert_handed_over [OF L run Cons.prems(2)] Cons.IH [OF rest] outs
  show ?case by (auto split: option.splits)
qed

definition no_overflow :: "(PeerId \<times> ProposalPart StreamMessage) list \<Rightarrow> bool" where
  "no_overflow ds \<longleftrightarrow> (\<forall>(p, m)\<in>set ds. sm_content m = SFin \<longrightarrow> unat (sm_sequence m) + 1 < 2 ^ 64)"

lemma no_overflow_simps [simp]:
  "no_overflow []"
  "no_overflow ((p, m) # ds) \<longleftrightarrow>
    (sm_content m = SFin \<longrightarrow> unat (sm_sequence m) + 1 < 2 ^ 64) \<and> no_overflow ds"
  by (simp_all add: no_overflow_def)

lemma feed_ok:
  assumes L: "stream_laws (stream L)"
  shows "no_overflow ds \<Longrightarrow> \<exists>outs sm'. feed L sm ds = (Inr (outs, sm') :: ('e, _) result)"
proof (induction ds arbitrary: sm)
  case Nil
  then show ?case by simp
next
  case (Cons d ds)
  obtain peer msg where d: "d = (peer, msg)" by (cases d)
  with Cons.prems have "sm_content msg = SFin \<Longrightarrow> unat (sm_sequence msg) + 1 < 2 ^ 64" by simp
  from PartStreamsMap_insert_ok [OF L this] obtain out sm1
    where "PartStreamsMap_insert L sm peer msg = (Inr (out, sm1) :: ('e, _) result)" by fast
  moreover from Cons.IH [of sm1] Cons.prems d obtain outs sm'
    where "feed L sm1 ds = (Inr (outs, sm') :: ('e, _) result)" by auto
  ultimately show ?case by (auto simp: d)
qed

text \<open>One delivery, seen by a stream that still collects.\<close>

lemma insert_collecting:
  assumes L: "stream_laws (stream L)" and ms: "complete_stream sid i ms"
    and xs: "collecting i ms xs (stream_at sm k)"
    and k: "k = (peer, sm_stream_id m)" and m: "m \<in> set ms"
    and run: "PartStreamsMap_insert L sm peer m = (Inr (out, sm') :: ('e, _) result)"
  shows "if m \<in> set xs then out = None \<and> collecting i ms xs (stream_at sm' k)
    else if set (m # xs) = set ms then out = Some (assembled i ms) \<and> handed_over (stream_at sm' k)
    else out = None \<and> collecting i ms (m # xs) (stream_at sm' k)"
proof (cases "m \<in> set xs")
  case True
  then have "sm_sequence m \<in> seen_sequences (stream_at sm k)" using xs by (simp add: collecting_def)
  with True xs PartStreamsMap_insert_same [OF run k] show ?thesis by simp
next
  case False
  then have "sm_sequence m \<notin> seen_sequences (stream_at sm k)"
    using xs complete_stream_inj [OF ms] m by (auto simp: collecting_def)
  with PartStreamsMap_insert_same [OF run k]
  have "StreamState_insert L ((stream_at sm k)\<lparr>seen_sequences := insert (sm_sequence m)
      (seen_sequences (stream_at sm k))\<rparr>) m = (Inr (out, stream_at sm' k) :: ('e, _) result)"
    by simp
  from StreamState_insert_collecting [OF L ms xs m False this] False show ?thesis by simp
qed

lemma feed_collecting:
  assumes L: "stream_laws (stream L)" and ms: "complete_stream sid i ms" and k: "k = (peer, sid)"
  shows "feed L sm ds = (Inr (outs, sm') :: ('e, _) result) \<Longrightarrow>
    set (delivered k ds) \<subseteq> set ms \<Longrightarrow> collecting i ms xs (stream_at sm k) \<Longrightarrow>
    emitted k outs = (if set xs \<union> set (delivered k ds) = set ms then [assembled i ms] else [])"
proof (induction ds arbitrary: sm outs xs)
  case Nil
  then show ?case by (auto simp: collecting_def)
next
  case (Cons d ds)
  obtain p m where d: "d = (p, m)" by (cases d)
  from Cons.prems(1) obtain out sm1 outs1
    where run: "PartStreamsMap_insert L sm p m = (Inr (out, sm1) :: ('e, _) result)"
      and rest: "feed L sm1 ds = (Inr (outs1, sm') :: ('e, _) result)"
      and outs: "outs = (case out of None \<Rightarrow> outs1 | Some x \<Rightarrow> ((p, sm_stream_id m), x) # outs1)"
    by (auto simp: d and_then_Inr_iff)
  note IH = Cons.IH [OF rest]
  show ?case
  proof (cases "k = (p, sm_stream_id m)")
    case False
    with PartStreamsMap_insert_other [OF run False] IH Cons.prems outs d show ?thesis
      by (auto split: option.splits)
  next
    case True
    with Cons.prems(2) d have m: "m \<in> set ms" and ds: "set (delivered k ds) \<subseteq> set ms" by auto
    note step = insert_collecting [OF L ms Cons.prems(3) True m run]
    consider "m \<in> set xs" | "m \<notin> set xs" "set (m # xs) = set ms" | "m \<notin> set xs" "set (m # xs) \<noteq> set ms"
      by blast
    then show ?thesis
    proof cases
      case 1
      with step IH [OF ds] outs True d show ?thesis by (simp add: insert_absorb)
    next
      case 2
      with step have "out = Some (assembled i ms)" "handed_over (stream_at sm1 k)" by simp_all
      with feed_handed_over [OF L rest] outs True d ds 2 show ?thesis by auto
    next
      case 3
      with step IH [OF ds, of "m # xs"] outs True d show ?thesis by simp
    qed
  qed
qed

section \<open>Arbitrary senders\<close>

text \<open>What every reachable stream state satisfies, whatever was delivered (the set \<open>M\<close>).\<close>

definition stream_inv :: "ProposalPart StreamMessage set \<Rightarrow> StreamState \<Rightarrow> bool" where
  "stream_inv M st \<longleftrightarrow>
     set_mset (heap_msgs (buffer st)) \<subseteq> M \<and>
     (\<forall>m \<in># heap_msgs (buffer st). sm_sequence m \<in> seen_sequences st) \<and>
     (\<forall>xs. mset xs = heap_msgs (buffer st) \<longrightarrow> distinct (map sm_sequence xs)) \<and>
     (\<forall>i. init_info st = Some i \<longrightarrow>
       (\<exists>m \<in># heap_msgs (buffer st). sm_sequence m = 0 \<and> sm_content m = SData (PartInit i)))"

text \<open>A proposal made of messages in \<open>M\<close>: one for each of its sequence numbers, in ascending order,
  its header that of the init part which comes first.\<close>

definition genuine :: "ProposalPart StreamMessage set \<Rightarrow> ProposalParts \<Rightarrow> bool" where
  "genuine M pp \<longleftrightarrow> (\<exists>i xs. pp = assembled i xs \<and> set xs \<subseteq> M \<and> xs \<noteq> [] \<and>
     distinct (map sm_sequence xs) \<and> sorted (map sm_sequence xs) \<and>
     sm_sequence (hd xs) = 0 \<and> sm_content (hd xs) = SData (PartInit i))"

lemma stream_inv_default: "stream_inv M StreamState_default"
  by (simp add: stream_inv_def StreamState_default_def MinHeap_default_def)

lemma stream_inv_mono: "stream_inv M st \<Longrightarrow> M \<subseteq> N \<Longrightarrow> stream_inv N st"
  unfolding stream_inv_def by blast

lemma genuine_mono: "genuine M pp \<Longrightarrow> M \<subseteq> N \<Longrightarrow> genuine N pp"
  unfolding genuine_def by blast

lemma genuine_hd: "genuine M pp \<Longrightarrow>
  \<exists>i rest. parts_parts pp = PartInit i # rest \<and> parts_height pp = init_height i \<and>
    parts_round pp = init_round i \<and> parts_proposer pp = init_proposer i"
proof -
  assume "genuine M pp"
  then obtain i xs where xs: "pp = assembled i xs" "xs \<noteq> []" "sm_content (hd xs) = SData (PartInit i)"
    by (auto simp: genuine_def)
  then have "parts_of xs = PartInit i # parts_of (tl xs)"
    by (cases xs) (simp_all add: parts_of_def List.map_filter_simps)
  with xs show ?thesis by (simp add: assembled_def)
qed

lemma as_init_Some: "as_init p = Some i \<longleftrightarrow> p = PartInit i"
  by (cases p) auto

lemma receive_inv:
  assumes inv: "stream_inv M st" and m: "sm_sequence m \<notin> seen_sequences st"
  defines "st1 \<equiv> receive (st\<lparr>seen_sequences := insert (sm_sequence m) (seen_sequences st)\<rparr>) m"
  shows "stream_inv (insert m M) st1"
proof -
  have items: "heap_msgs (buffer st1) = add_mset m (heap_msgs (buffer st))"
    by (simp add: st1_def receive_def MinHeap_push_def)
  have seen: "seen_sequences st1 = insert (sm_sequence m) (seen_sequences st)"
    by (simp add: st1_def receive_def)
  have "distinct (map sm_sequence xs)" if "mset xs = heap_msgs (buffer st1)" for xs
  proof -
    obtain ys where ys: "mset ys = heap_msgs (buffer st)" by (metis ex_mset)
    then have "distinct (map sm_sequence ys)" using inv by (simp add: stream_inv_def)
    moreover have "set ys = set_mset (heap_msgs (buffer st))" using ys by (metis set_mset_mset)
    then have "sm_sequence m \<notin> set (map sm_sequence ys)"
      using inv m by (auto simp: stream_inv_def)
    ultimately have "distinct (map sm_sequence (m # ys))" by simp
    moreover have "mset (map sm_sequence xs) = mset (map sm_sequence (m # ys))"
      using that ys items by simp
    ultimately show ?thesis by (metis mset_eq_imp_distinct_iff)
  qed
  moreover have "\<exists>n \<in># heap_msgs (buffer st1). sm_sequence n = 0 \<and> sm_content n = SData (PartInit i)"
    if "init_info st1 = Some i" for i
    using that inv unfolding items
    by (auto simp: st1_def receive_def stream_inv_def as_init_Some split: if_splits StreamContent.splits)
  ultimately show ?thesis
    using inv unfolding stream_inv_def items seen by auto
qed

lemma hand_over_inv:
  assumes inv: "stream_inv M st" and run: "hand_over st = (out, st')"
  shows "stream_inv M st' \<and> (\<forall>pp. out = Some pp \<longrightarrow> genuine M pp \<and> handed_over st')"
proof (cases "is_done st")
  case False
  with run inv show ?thesis by (simp add: hand_over_def)
next
  case True
  let ?xs = "MinHeap_unload (buffer st)"
  from True obtain i where i: "init_info st = Some i" by (auto simp: is_done_def)
  with inv obtain m where m: "m \<in># heap_msgs (buffer st)" "sm_sequence m = 0"
      "sm_content m = SData (PartInit i)" "0 \<in> seen_sequences st"
    unfolding stream_inv_def by fastforce
  have u: "sorted (map sm_sequence ?xs)" "mset ?xs = heap_msgs (buffer st)"
    using min_heap.unload_sorted by blast+
  then have d: "distinct (map sm_sequence ?xs)" and M: "set ?xs \<subseteq> M" and mem: "m \<in> set ?xs"
    using inv m(1) unfolding stream_inv_def by (blast, metis set_mset_mset, metis set_mset_mset)
  then obtain a rest where xs: "?xs = a # rest" by (cases ?xs) auto
  have "sm_sequence a \<le> sm_sequence m" using u(1) mem xs by auto
  then have a0: "sm_sequence a = 0" using m(2) by simp
  have "a = m" using a0 d mem m(2) xs by (metis distinct_map inj_onD list.set_intros(1))
  then have "genuine M (assembled i ?xs)"
    unfolding genuine_def using u(1) d M xs a0 m(3) \<open>a = m\<close>
    by (intro exI [of _ i] exI [of _ ?xs] conjI refl) simp_all
  moreover have "out = Some (assembled i ?xs)" "st' = st\<lparr>init_info := None, buffer := MinHeap_default\<rparr>"
    using run True i by (simp_all add: hand_over_def assembled_def)
  ultimately show ?thesis
    using m(4) by (simp add: handed_over_def stream_inv_def MinHeap_default_def)
qed

lemma insert_inv:
  assumes L: "stream_laws (stream L)"
    and run: "PartStreamsMap_insert L sm peer m = (Inr (out, sm') :: ('e, _) result)"
    and k: "k = (peer, sm_stream_id m)" and inv: "stream_inv M (stream_at sm k)"
  shows "stream_inv (insert m M) (stream_at sm' k) \<and>
    (\<forall>pp. out = Some pp \<longrightarrow> genuine (insert m M) pp \<and> handed_over (stream_at sm' k))"
proof (cases "sm_sequence m \<in> seen_sequences (stream_at sm k)")
  case True
  with PartStreamsMap_insert_same [OF run k] inv show ?thesis
    by (auto intro: stream_inv_mono)
next
  case False
  with PartStreamsMap_insert_same [OF run k]
  have "hand_over (receive ((stream_at sm k)\<lparr>seen_sequences := insert (sm_sequence m)
      (seen_sequences (stream_at sm k))\<rparr>) m) = (out, stream_at sm' k)"
    by (simp add: StreamState_insert_eq [OF L] split: if_splits)
  from hand_over_inv [OF receive_inv [OF inv False] this] show ?thesis .
qed

definition map_inv :: "(stream_key \<Rightarrow> ProposalPart StreamMessage set) \<Rightarrow> PartStreamsMap \<Rightarrow> bool" where
  "map_inv D sm \<longleftrightarrow> (\<forall>k. stream_inv (D k) (stream_at sm k))"

definition deliver_to :: "(stream_key \<Rightarrow> ProposalPart StreamMessage set) \<Rightarrow> PeerId \<Rightarrow>
    ProposalPart StreamMessage \<Rightarrow> stream_key \<Rightarrow> ProposalPart StreamMessage set" where
  "deliver_to D peer m = D((peer, sm_stream_id m) := insert m (D (peer, sm_stream_id m)))"

lemma map_inv_new: "map_inv D PartStreamsMap_new"
  by (simp add: map_inv_def PartStreamsMap_new_def stream_at_def stream_inv_default)

lemma map_inv_insert:
  assumes L: "stream_laws (stream L)"
    and run: "PartStreamsMap_insert L sm peer m = (Inr (out, sm') :: ('e, _) result)"
    and inv: "map_inv D sm"
  shows "map_inv (deliver_to D peer m) sm'"
    and "out = Some pp \<Longrightarrow> genuine (deliver_to D peer m (peer, sm_stream_id m)) pp \<and>
      handed_over (stream_at sm' (peer, sm_stream_id m))"
proof -
  let ?k = "(peer, sm_stream_id m)"
  have "stream_inv (D ?k) (stream_at sm ?k)" using inv by (simp add: map_inv_def)
  note step = insert_inv [OF L run refl this]
  then show "out = Some pp \<Longrightarrow> genuine (deliver_to D peer m ?k) pp \<and> handed_over (stream_at sm' ?k)"
    by (simp add: deliver_to_def)
  show "map_inv (deliver_to D peer m) sm'"
    unfolding map_inv_def
  proof
    fix k
    have "stream_inv (D k) (stream_at sm k)" using inv unfolding map_inv_def ..
    then show "stream_inv (deliver_to D peer m k) (stream_at sm' k)"
      using step PartStreamsMap_insert_other [OF run, of k]
      by (cases "k = ?k") (simp_all add: deliver_to_def)
  qed
qed

lemma feed_inv:
  assumes L: "stream_laws (stream L)"
  shows "feed L sm ds = (Inr (outs, sm') :: ('e, _) result) \<Longrightarrow> map_inv D sm \<Longrightarrow>
    length (emitted k outs) \<le> 1 \<and>
    (\<forall>pp \<in> set (emitted k outs). genuine (D k \<union> set (delivered k ds)) pp)"
proof (induction ds arbitrary: sm outs D)
  case Nil
  then show ?case by simp
next
  case (Cons d ds)
  obtain p m where d: "d = (p, m)" by (cases d)
  from Cons.prems(1) obtain out sm1 outs1
    where run: "PartStreamsMap_insert L sm p m = (Inr (out, sm1) :: ('e, _) result)"
      and rest: "feed L sm1 ds = (Inr (outs1, sm') :: ('e, _) result)"
      and outs: "outs = (case out of None \<Rightarrow> outs1 | Some x \<Rightarrow> ((p, sm_stream_id m), x) # outs1)"
    by (auto simp: d and_then_Inr_iff)
  note step = map_inv_insert [OF L run Cons.prems(2)]
  have mono: "deliver_to D p m k \<union> set (delivered k ds) \<subseteq> D k \<union> set (delivered k (d # ds))"
    by (auto simp: deliver_to_def d)
  show ?case
  proof (cases "k = (p, sm_stream_id m) \<and> out \<noteq> None")
    case True
    then obtain pp where pp: "out = Some pp" "k = (p, sm_stream_id m)" by auto
    with step(2) have g: "genuine (deliver_to D p m k) pp" "handed_over (stream_at sm1 k)" by auto
    from feed_handed_over [OF L rest g(2)] have "emitted k outs = [pp]" using outs pp by simp
    moreover have "genuine (D k \<union> set (delivered k (d # ds))) pp"
      using g(1) mono by (auto intro: genuine_mono)
    ultimately show ?thesis by simp
  next
    case False
    then have "emitted k outs = emitted k outs1" using outs by (auto split: option.splits)
    with Cons.IH [OF rest step(1)] mono show ?thesis by (auto intro: genuine_mono)
  qed
qed

lemma reassembly:
  assumes "stream_laws (stream L)" and "complete_stream sid i ms" and "no_overflow ds"
    and "streams sm (peer, sid) = None" and "set (delivered (peer, sid) ds) \<subseteq> set ms"
  shows "\<exists>outs sm'. feed L sm ds = (Inr (outs, sm') :: ('e, _) result) \<and>
    emitted (peer, sid) outs =
      (if set (delivered (peer, sid) ds) = set ms then [assembled i ms] else [])"
proof -
  obtain outs sm' where run: "feed L sm ds = (Inr (outs, sm') :: ('e, _) result)"
    using feed_ok [OF assms(1,3)] by blast
  have "collecting i ms [] (stream_at sm (peer, sid))"
    using assms(2,4) by (simp add: stream_at_def collecting_start)
  from feed_collecting [OF assms(1,2) refl run assms(5) this] run show ?thesis by auto
qed

section \<open>Properties\<close>

text \<open>C16: a stream is reassembled whatever the order in which its messages arrive, with any of them
  repeated and with any other streams interleaved: the deliveries are accepted without a panic, and
  the stream hands over exactly one proposal once all its messages have arrived, made of the init
  part's header and the parts in sequence order; before that it hands over nothing.\<close>

theorem stream_reassembly:
  assumes "stream_laws (stream L)" and "complete_stream sid i ms" and "no_overflow ds"
    and "streams sm (peer, sid) = None" and "set (delivered (peer, sid) ds) \<subseteq> set ms"
  shows "\<exists>outs sm'. feed L sm ds = (Inr (outs, sm') :: ('e, _) result) \<and>
    emitted (peer, sid) outs =
      (if set (delivered (peer, sid) ds) = set ms then [assembled i ms] else [])"
  using assms by (rule reassembly)

text \<open>C17: whatever is delivered, and by whoever, a stream hands over at most one proposal, and that
  proposal is genuine: its parts are parts delivered by that peer on that stream, at most one per
  sequence number and in ascending order, and its header is that of the init part they start with.\<close>

theorem stream_proposals_genuine:
  assumes "stream_laws (stream L)"
    and "feed L PartStreamsMap_new ds = (Inr (outs, sm') :: ('e, _) result)"
  shows "length (emitted k outs) \<le> 1 \<and> (\<forall>pp \<in> set (emitted k outs). genuine (set (delivered k ds)) pp)"
  using feed_inv [OF assms map_inv_new, of k "\<lambda>_. {}"] by simp

text \<open>The map of streams only grows. A completed stream is never removed from it: the inner
  insertion has taken the init part out by the time the caller tests whether the stream is done.\<close>

theorem streams_never_removed:
  assumes "PartStreamsMap_insert L sm peer msg = Inr (out, sm')"
  shows "dom (streams sm') = insert (peer, sm_stream_id msg) (dom (streams sm))"
  using assms by (rule PartStreamsMap_insert_dom)

text \<open>C25: a final message with the largest sequence number panics the node that receives it, in any
  state that has not seen that number on that stream; no other message panics it.\<close>

theorem stream_insert_panics_iff:
  assumes "stream_laws (stream L)"
  shows "panics (PartStreamsMap_insert L sm peer msg) \<longleftrightarrow>
      sm_content msg = SFin \<and> unat (sm_sequence msg) = 2 ^ 64 - 1 \<and>
      sm_sequence msg \<notin> seen_sequences (stream_at sm (peer, sm_stream_id msg))"
proof -
  have u: "2 ^ 64 \<le> unat (sm_sequence msg) + 1 \<longleftrightarrow> unat (sm_sequence msg) = 2 ^ 64 - 1"
    using unat_u64_less [of "sm_sequence msg"] by linarith
  show ?thesis
    unfolding PartStreamsMap_insert_def Let_def StreamState_insert_eq [OF assms] u stream_at_def
    by (auto split: prod.splits)
qed

section \<open>Witnesses\<close>

definition std_stream :: stream_lib where
  "std_stream = \<lparr>
     is_first = (\<lambda>m. sm_sequence m = 0),
     is_fin = (\<lambda>m. sm_content m = SFin),
     content_as_data = (\<lambda>c. case c of SData p \<Rightarrow> Some p | SFin \<Rightarrow> None),
     content_into_data = (\<lambda>c. case c of SData p \<Rightarrow> Some p | SFin \<Rightarrow> None)\<rparr>"

definition std_stream_msg_lib :: stream_msg_lib where
  "std_stream_msg_lib = msg_lib.extend std_msg_lib \<lparr>stream = std_stream\<rparr>"

lemma std_stream_laws: "stream_laws std_stream"
  by (simp add: stream_laws_def std_stream_def)

lemma std_stream_msg_lib_sel [simp]: "stream std_stream_msg_lib = std_stream"
  by (simp add: std_stream_msg_lib_def msg_lib.defs)

definition sample_init :: ProposalInit where
  "sample_init = \<lparr>init_height = Height 3, init_round = RSome 1, init_proposer = Address 7\<rparr>"

definition sample_stream :: "ProposalPart StreamMessage list" where
  "sample_stream =
    [\<lparr>sm_stream_id = StreamId [1], sm_sequence = 0, sm_content = SData (PartInit sample_init)\<rparr>,
     \<lparr>sm_stream_id = StreamId [1], sm_sequence = 1, sm_content = SData (PartData \<lparr>data_bytes = [5, 6]\<rparr>)\<rparr>,
     \<lparr>sm_stream_id = StreamId [1], sm_sequence = 2,
       sm_content = SData (PartFin \<lparr>fin_signature = Signature 9\<rparr>)\<rparr>,
     \<lparr>sm_stream_id = StreamId [1], sm_sequence = 3, sm_content = SFin\<rparr>]"

definition sample_deliveries :: "(PeerId \<times> ProposalPart StreamMessage) list" where
  "sample_deliveries = map (Pair (PeerId [4]))
     [sample_stream ! 3, sample_stream ! 1, sample_stream ! 3, sample_stream ! 0, sample_stream ! 2]"

lemma sample_complete: "complete_stream (StreamId [1]) sample_init sample_stream"
  by (simp add: complete_stream_def sample_stream_def upt_rec)

lemma sample_delivered:
  "set (delivered (PeerId [4], StreamId [1]) sample_deliveries) = set sample_stream"
  by (auto simp: sample_deliveries_def sample_stream_def)

theorem stream_reassembly_witness:
  "\<exists>outs sm'. feed std_stream_msg_lib PartStreamsMap_new sample_deliveries
      = (Inr (outs, sm') :: (unit, _) result) \<and>
    emitted (PeerId [4], StreamId [1]) outs = [assembled sample_init sample_stream]"
  using stream_reassembly [of std_stream_msg_lib "StreamId [1]" sample_init sample_stream
      sample_deliveries PartStreamsMap_new "PeerId [4]"] sample_complete sample_delivered
  by (simp add: std_stream_laws PartStreamsMap_new_def sample_deliveries_def sample_stream_def)

theorem stream_proposals_genuine_witness:
  "\<exists>outs sm'. feed std_stream_msg_lib PartStreamsMap_new sample_deliveries
      = (Inr (outs, sm') :: (unit, _) result) \<and>
    (\<forall>pp \<in> set (emitted (PeerId [4], StreamId [1]) outs). genuine (set sample_stream) pp)"
proof -
  have "no_overflow sample_deliveries" by (simp add: sample_deliveries_def sample_stream_def)
  then obtain outs sm' where run: "feed std_stream_msg_lib PartStreamsMap_new sample_deliveries
      = (Inr (outs, sm') :: (unit, _) result)"
    using feed_ok [of std_stream_msg_lib] std_stream_laws by fastforce
  from stream_proposals_genuine [of std_stream_msg_lib, OF _ run, of "(PeerId [4], StreamId [1])"] run show ?thesis
    by (simp add: std_stream_laws sample_delivered)
qed

theorem streams_never_removed_witness:
  "\<exists>out sm'. PartStreamsMap_insert std_stream_msg_lib PartStreamsMap_new (PeerId [4]) (hd sample_stream)
      = (Inr (out, sm') :: (unit, _) result) \<and>
    dom (streams sm') = {(PeerId [4], StreamId [1])}"
proof -
  have "\<exists>x. PartStreamsMap_insert std_stream_msg_lib PartStreamsMap_new (PeerId [4]) (hd sample_stream)
      = (Inr x :: (unit, _) result)"
    by (rule PartStreamsMap_insert_ok) (simp_all add: std_stream_laws sample_stream_def)
  then obtain out sm' where run: "PartStreamsMap_insert std_stream_msg_lib PartStreamsMap_new
      (PeerId [4]) (hd sample_stream) = (Inr (out, sm') :: (unit, _) result)"
    by auto
  from streams_never_removed [OF run] run show ?thesis
    by (simp add: PartStreamsMap_new_def sample_stream_def)
qed

theorem stream_insert_panics_witness:
  "panics (PartStreamsMap_insert std_stream_msg_lib PartStreamsMap_new (PeerId [4])
     \<lparr>sm_stream_id = StreamId [1], sm_sequence = - 1, sm_content = SFin\<rparr>)"
  using stream_insert_panics_iff [of std_stream_msg_lib PartStreamsMap_new "PeerId [4]"
      "\<lparr>sm_stream_id = StreamId [1], sm_sequence = - 1, sm_content = SFin\<rparr>"]
  by (simp add: std_stream_laws PartStreamsMap_new_def stream_at_def StreamState_default_def
      unsigned_minus_1_eq_mask mask_eq_exp_minus_1)

end
