(* ===== verification/Store_Keys.thy ===== *)
theory Store_Keys
  imports Heights
begin

text \<open>
  \<open>app/src/store/keys.rs\<close> and the interface of redb. The keys of the tables are a height, or a
  height and a round, written and compared the way redb writes and compares its \<open>u64\<close> and \<open>i64\<close>
  keys; a nil round is stored as -1 and so comes first.
\<close>

section \<open>Integer keys of redb\<close>

record redb_keys =
  rk_u64_as_bytes :: "u64 \<Rightarrow> bytes"
  rk_u64_from_bytes :: "bytes \<Rightarrow> u64"
  rk_u64_compare :: "bytes \<Rightarrow> bytes \<Rightarrow> ordering"
  rk_i64_as_bytes :: "i64 \<Rightarrow> bytes"
  rk_i64_from_bytes :: "bytes \<Rightarrow> i64"
  rk_i64_compare :: "bytes \<Rightarrow> bytes \<Rightarrow> ordering"

text \<open>The byte forms invert, and their comparison is that of the integers they stand for.\<close>

definition redb_key_laws :: "redb_keys \<Rightarrow> bool" where
  "redb_key_laws K \<longleftrightarrow>
     (\<forall>x. rk_u64_from_bytes K (rk_u64_as_bytes K x) = x) \<and>
     (\<forall>x y. rk_u64_compare K (rk_u64_as_bytes K x) (rk_u64_as_bytes K y) = ord_cmp (unat x) (unat y)) \<and>
     (\<forall>x. rk_i64_from_bytes K (rk_i64_as_bytes K x) = x) \<and>
     (\<forall>x y. rk_i64_compare K (rk_i64_as_bytes K x) (rk_i64_as_bytes K y) = ord_cmp (sint x) (sint y))"

lemma redb_key_lawsD [law_simps]:
  assumes "redb_key_laws K"
  shows "rk_u64_from_bytes K (rk_u64_as_bytes K x) = x"
    "rk_u64_compare K (rk_u64_as_bytes K x) (rk_u64_as_bytes K y) = ord_cmp (unat x) (unat y)"
    "rk_i64_from_bytes K (rk_i64_as_bytes K z) = z"
    "rk_i64_compare K (rk_i64_as_bytes K z) (rk_i64_as_bytes K w) = ord_cmp (sint z) (sint w)"
  using assms by (simp_all add: redb_key_laws_def)

section \<open>The keys of the tables\<close>

definition HeightKey_fixed_width :: "nat option" where
  "HeightKey_fixed_width = Some 8"

definition HeightKey_from_bytes :: "redb_keys \<Rightarrow> bytes \<Rightarrow> Height" where
  "HeightKey_from_bytes K data = Height_new (rk_u64_from_bytes K data)"

definition HeightKey_as_bytes :: "redb_keys \<Rightarrow> Height \<Rightarrow> bytes" where
  "HeightKey_as_bytes K h = rk_u64_as_bytes K (as_u64 h)"

definition HeightKey_type_name :: string where
  "HeightKey_type_name = ''Height''"

definition HeightKey_compare :: "redb_keys \<Rightarrow> bytes \<Rightarrow> bytes \<Rightarrow> ordering" where
  "HeightKey_compare K a b = rk_u64_compare K a b"

definition RoundKey_fixed_width :: "nat option" where
  "RoundKey_fixed_width = Some 8"

definition RoundKey_from_bytes :: "round_lib \<Rightarrow> redb_keys \<Rightarrow> bytes \<Rightarrow> Round" where
  "RoundKey_from_bytes R K data = round_of_i64 R (rk_i64_from_bytes K data)"

definition RoundKey_as_bytes :: "round_lib \<Rightarrow> redb_keys \<Rightarrow> Round \<Rightarrow> bytes" where
  "RoundKey_as_bytes R K r = rk_i64_as_bytes K (round_as_i64 R r)"

definition RoundKey_type_name :: string where
  "RoundKey_type_name = ''Round''"

definition RoundKey_compare :: "redb_keys \<Rightarrow> bytes \<Rightarrow> bytes \<Rightarrow> ordering" where
  "RoundKey_compare K a b = rk_i64_compare K a b"

text \<open>
  A table key is the list of the byte forms of its components; redb compares the components of
  the tuple \<open>UndecidedValueKey\<close> from left to right.
\<close>

type_synonym table_key = "bytes list"

definition height_key :: "redb_keys \<Rightarrow> Height \<Rightarrow> table_key" where
  "height_key K h = [HeightKey_as_bytes K h]"

definition undecided_key :: "round_lib \<Rightarrow> redb_keys \<Rightarrow> Height \<times> Round \<Rightarrow> table_key" where
  "undecided_key R K = (\<lambda>(h, r). [HeightKey_as_bytes K h, RoundKey_as_bytes R K r])"

definition height_key_value :: "redb_keys \<Rightarrow> table_key \<Rightarrow> Height" where
  "height_key_value K k = HeightKey_from_bytes K (hd k)"

definition undecided_key_value :: "round_lib \<Rightarrow> redb_keys \<Rightarrow> table_key \<Rightarrow> Height \<times> Round" where
  "undecided_key_value R K k = (HeightKey_from_bytes K (hd k), RoundKey_from_bytes R K (hd (tl k)))"

definition height_key_compare :: "redb_keys \<Rightarrow> table_key \<Rightarrow> table_key \<Rightarrow> ordering" where
  "height_key_compare K a b = HeightKey_compare K (hd a) (hd b)"

definition undecided_key_compare :: "redb_keys \<Rightarrow> table_key \<Rightarrow> table_key \<Rightarrow> ordering" where
  "undecided_key_compare K a b =
     (case HeightKey_compare K (hd a) (hd b) of
        Equal \<Rightarrow> RoundKey_compare K (hd (tl a)) (hd (tl b)) | c \<Rightarrow> c)"

lemma height_key_value [simp]:
  "redb_key_laws K \<Longrightarrow> height_key_value K (height_key K h) = h"
  by (simp add: height_key_value_def height_key_def HeightKey_from_bytes_def HeightKey_as_bytes_def
      law_simps Height_new_def)

lemma undecided_key_value [simp]:
  "redb_key_laws K \<Longrightarrow> round_laws R \<Longrightarrow> undecided_key_value R K (undecided_key R K hr) = hr"
  by (simp add: undecided_key_value_def undecided_key_def HeightKey_from_bytes_def
      HeightKey_as_bytes_def RoundKey_from_bytes_def RoundKey_as_bytes_def law_simps Height_new_def
      split: prod.split)

lemma height_key_inject:
  "redb_key_laws K \<Longrightarrow> height_key K h = height_key K h' \<longleftrightarrow> h = h'"
  by (metis height_key_value)

lemma undecided_key_inject:
  "redb_key_laws K \<Longrightarrow> round_laws R \<Longrightarrow> undecided_key R K a = undecided_key R K b \<longleftrightarrow> a = b"
  by (metis undecided_key_value)

lemma height_key_compare [simp]:
  "redb_key_laws K \<Longrightarrow> height_key_compare K (height_key K h) (height_key K h') = ord_cmp h h'"
  by (auto simp: height_key_compare_def height_key_def HeightKey_compare_def HeightKey_as_bytes_def
      law_simps ord_cmp_def Height_less_hval hval_inject)

lemma round_as_i64_nonneg: "round_laws R \<Longrightarrow> r \<noteq> RNil \<Longrightarrow> 0 \<le> sint (round_as_i64 R r)"
  by (cases r) (simp_all add: sint_round)

text \<open>Below \<open>(retain, Nil)\<close> are exactly the keys of smaller heights, whatever their round.\<close>

lemma undecided_key_below:
  assumes "redb_key_laws K" and "round_laws R"
  shows "undecided_key_compare K (undecided_key R K (h, r)) (undecided_key R K (h', RNil)) = Less \<longleftrightarrow> h < h'"
proof -
  have "sint (round_as_i64 R RNil) \<le> sint (round_as_i64 R r)"
    using assms(2) order.trans [OF _ uint_ge_0, of "- 1"] by (cases r) (simp_all add: sint_round)
  then have "\<not> sint (round_as_i64 R r) < sint (round_as_i64 R RNil)" by simp
  then show ?thesis
    using assms(1)
    by (auto simp: undecided_key_compare_def undecided_key_def HeightKey_compare_def
        RoundKey_compare_def HeightKey_as_bytes_def RoundKey_as_bytes_def law_simps ord_cmp_def
        Height_less_hval hval_inject)
qed

section \<open>Databases and transactions\<close>

text \<open>
  redb's operations on a database \<open>'db\<close> and a transaction \<open>'tx\<close>, any of which may fail with an
  error (its text). A range hands back its items one by one, and each may fail.
\<close>

record ('db, 'tx) redb_lib =
  rb_create :: "string \<Rightarrow> string + 'db"
  rb_begin_read :: "'db \<Rightarrow> string + 'tx"
  rb_begin_write :: "'db \<Rightarrow> string + 'tx"
  rb_open_table :: "'tx \<Rightarrow> string \<Rightarrow> string + 'tx"
  rb_get :: "'tx \<Rightarrow> string \<Rightarrow> table_key \<Rightarrow> string + bytes option"
  rb_insert :: "'tx \<Rightarrow> string \<Rightarrow> table_key \<Rightarrow> bytes \<Rightarrow> string + 'tx"
  rb_remove :: "'tx \<Rightarrow> string \<Rightarrow> table_key \<Rightarrow> string + 'tx"
  rb_range_to :: "'tx \<Rightarrow> string \<Rightarrow> (table_key \<Rightarrow> table_key \<Rightarrow> ordering) \<Rightarrow> table_key \<Rightarrow>
    string + (string + table_key) list"
  rb_first :: "'tx \<Rightarrow> string \<Rightarrow> (table_key \<Rightarrow> table_key \<Rightarrow> ordering) \<Rightarrow>
    string + (table_key \<times> bytes) option"
  rb_commit :: "'tx \<Rightarrow> string + 'db"

type_synonym contents = "string \<times> table_key \<Rightarrow> bytes option"

text \<open>The comparison of a table must order its keys, here by a number \<open>f\<close> each stands for.\<close>

definition orders ::
  "(table_key \<Rightarrow> table_key \<Rightarrow> ordering) \<Rightarrow> (table_key \<Rightarrow> nat) \<Rightarrow> (table_key \<Rightarrow> bool) \<Rightarrow> bool" where
  "orders cmp f P \<longleftrightarrow> (\<forall>a b. P a \<longrightarrow> P b \<longrightarrow> (cmp a b = Less \<longleftrightarrow> f a < f b))"

text \<open>
  What a database and a transaction hold is the content \<open>\<alpha>\<close> and \<open>\<beta>\<close> gives them. Transactions start
  from the committed content, see their own writes, and become visible as a whole when they
  commit; a range scans the keys below its bound. These are redb's documented guarantees, for operations that
  succeed.
\<close>

definition redb_laws ::
  "('db, 'tx) redb_lib \<Rightarrow> ('db \<Rightarrow> contents) \<Rightarrow> ('tx \<Rightarrow> contents) \<Rightarrow> bool" where
  "redb_laws B \<alpha> \<beta> \<longleftrightarrow>
     (\<forall>db tx. rb_begin_read B db = Inr tx \<longrightarrow> \<beta> tx = \<alpha> db) \<and>
     (\<forall>db tx. rb_begin_write B db = Inr tx \<longrightarrow> \<beta> tx = \<alpha> db) \<and>
     (\<forall>tx t tx'. rb_open_table B tx t = Inr tx' \<longrightarrow> \<beta> tx' = \<beta> tx) \<and>
     (\<forall>tx t k v. rb_get B tx t k = Inr v \<longrightarrow> v = \<beta> tx (t, k)) \<and>
     (\<forall>tx t k v tx'. rb_insert B tx t k v = Inr tx' \<longrightarrow> \<beta> tx' = (\<beta> tx)((t, k) \<mapsto> v)) \<and>
     (\<forall>tx t k tx'. rb_remove B tx t k = Inr tx' \<longrightarrow> \<beta> tx' = (\<beta> tx)((t, k) := None)) \<and>
     (\<forall>tx t cmp b items. rb_range_to B tx t cmp b = Inr items \<longrightarrow>
        Inr ` {k. \<beta> tx (t, k) \<noteq> None \<and> cmp k b = Less} \<supseteq> {x \<in> set items. \<exists>k. x = Inr k} \<and>
        ((\<forall>x \<in> set items. \<exists>k. x = Inr k) \<longrightarrow>
          set items = Inr ` {k. \<beta> tx (t, k) \<noteq> None \<and> cmp k b = Less})) \<and>
     (\<forall>tx t cmp. rb_first B tx t cmp = Inr None \<longrightarrow> (\<forall>k. \<beta> tx (t, k) = None)) \<and>
     (\<forall>tx t cmp f k v. rb_first B tx t cmp = Inr (Some (k, v)) \<longrightarrow>
        orders cmp f (\<lambda>a. \<beta> tx (t, a) \<noteq> None) \<longrightarrow>
        \<beta> tx (t, k) = Some v \<and> (\<forall>k'. \<beta> tx (t, k') \<noteq> None \<longrightarrow> f k \<le> f k')) \<and>
     (\<forall>tx db. rb_commit B tx = Inr db \<longrightarrow> \<alpha> db = \<beta> tx)"

text \<open>A database whose operations all succeed.\<close>

definition redb_reliable :: "('db, 'tx) redb_lib \<Rightarrow> bool" where
  "redb_reliable B \<longleftrightarrow>
     (\<forall>db. \<exists>tx. rb_begin_read B db = Inr tx) \<and> (\<forall>db. \<exists>tx. rb_begin_write B db = Inr tx) \<and>
     (\<forall>tx t. \<exists>tx'. rb_open_table B tx t = Inr tx') \<and> (\<forall>tx t k. \<exists>v. rb_get B tx t k = Inr v) \<and>
     (\<forall>tx t k v. \<exists>tx'. rb_insert B tx t k v = Inr tx') \<and>
     (\<forall>tx t k. \<exists>tx'. rb_remove B tx t k = Inr tx') \<and>
     (\<forall>tx t cmp b. \<exists>ks. rb_range_to B tx t cmp b = Inr (map Inr ks)) \<and>
     (\<forall>tx t cmp. \<exists>x. rb_first B tx t cmp = Inr x) \<and> (\<forall>tx. \<exists>db. rb_commit B tx = Inr db)"

lemmas redb_begin_read = redb_laws_def [THEN iffD1, THEN conjunct1, rule_format]
lemmas redb_begin_write = redb_laws_def [THEN iffD1, THEN conjunct2, THEN conjunct1, rule_format]
lemmas redb_open_table = redb_laws_def [THEN iffD1, THEN conjunct2, THEN conjunct2, THEN conjunct1, rule_format]
lemmas redb_get = redb_laws_def [THEN iffD1, THEN conjunct2, THEN conjunct2, THEN conjunct2, THEN conjunct1, rule_format]
lemmas redb_insert = redb_laws_def [THEN iffD1, THEN conjunct2, THEN conjunct2, THEN conjunct2, THEN conjunct2, THEN conjunct1, rule_format]
lemmas redb_remove = redb_laws_def [THEN iffD1, THEN conjunct2, THEN conjunct2, THEN conjunct2, THEN conjunct2, THEN conjunct2, THEN conjunct1, rule_format]
lemmas redb_range_items = redb_laws_def [THEN iffD1, THEN conjunct2, THEN conjunct2, THEN conjunct2, THEN conjunct2, THEN conjunct2, THEN conjunct2, THEN conjunct1, rule_format]
lemmas redb_first_None = redb_laws_def [THEN iffD1, THEN conjunct2, THEN conjunct2, THEN conjunct2, THEN conjunct2, THEN conjunct2, THEN conjunct2, THEN conjunct2, THEN conjunct1, rule_format]
lemmas redb_first_Some = redb_laws_def [THEN iffD1, THEN conjunct2, THEN conjunct2, THEN conjunct2, THEN conjunct2, THEN conjunct2, THEN conjunct2, THEN conjunct2, THEN conjunct2, THEN conjunct1, rule_format]
lemmas redb_commit = redb_laws_def [THEN iffD1, THEN conjunct2, THEN conjunct2, THEN conjunct2, THEN conjunct2, THEN conjunct2, THEN conjunct2, THEN conjunct2, THEN conjunct2, THEN conjunct2, rule_format]

lemmas redb_lawsD = redb_begin_read redb_begin_write redb_open_table redb_get redb_insert redb_remove
  redb_first_None redb_first_Some redb_commit

lemma redb_range:
  assumes "redb_laws B \<alpha> \<beta>" and "rb_range_to B tx t cmp b = Inr (map Inr ks)"
  shows "set ks = {k. \<beta> tx (t, k) \<noteq> None \<and> cmp k b = Less}"
proof -
  have "\<forall>x \<in> set (map Inr ks :: (string + table_key) list). \<exists>k. x = Inr k" by simp
  with redb_range_items [OF assms]
  have "set (map Inr ks :: (string + table_key) list) = Inr ` {k. \<beta> tx (t, k) \<noteq> None \<and> cmp k b = Less}"
    by blast
  then have "(Inr ` set ks :: (string + table_key) set) = Inr ` {k. \<beta> tx (t, k) \<noteq> None \<and> cmp k b = Less}"
    by simp
  then show ?thesis by (simp only: inj_image_eq_iff [OF inj_Inr])
qed

lemmas reliable_read = redb_reliable_def [THEN iffD1, THEN conjunct1, rule_format]
lemmas reliable_write = redb_reliable_def [THEN iffD1, THEN conjunct2, THEN conjunct1, rule_format]
lemmas reliable_open = redb_reliable_def [THEN iffD1, THEN conjunct2, THEN conjunct2, THEN conjunct1, rule_format]
lemmas reliable_get = redb_reliable_def [THEN iffD1, THEN conjunct2, THEN conjunct2, THEN conjunct2, THEN conjunct1, rule_format]
lemmas reliable_insert = redb_reliable_def [THEN iffD1, THEN conjunct2, THEN conjunct2, THEN conjunct2, THEN conjunct2, THEN conjunct1, rule_format]
lemmas reliable_remove = redb_reliable_def [THEN iffD1, THEN conjunct2, THEN conjunct2, THEN conjunct2, THEN conjunct2, THEN conjunct2, THEN conjunct1, rule_format]
lemmas reliable_range = redb_reliable_def [THEN iffD1, THEN conjunct2, THEN conjunct2, THEN conjunct2, THEN conjunct2, THEN conjunct2, THEN conjunct2, THEN conjunct1, rule_format]
lemmas reliable_first = redb_reliable_def [THEN iffD1, THEN conjunct2, THEN conjunct2, THEN conjunct2, THEN conjunct2, THEN conjunct2, THEN conjunct2, THEN conjunct2, THEN conjunct1, rule_format]
lemmas reliable_commit = redb_reliable_def [THEN iffD1, THEN conjunct2, THEN conjunct2, THEN conjunct2, THEN conjunct2, THEN conjunct2, THEN conjunct2, THEN conjunct2, THEN conjunct2, rule_format]

lemmas redb_reliableD = reliable_read reliable_write reliable_open reliable_get reliable_insert
  reliable_remove reliable_range reliable_first reliable_commit

end
