(* ===== verification/Db_Metrics.thy ===== *)
theory Db_Metrics
  imports Prelude
begin

text \<open>
  \<open>app/src/metrics.rs\<close>: the counters of the database. A prometheus counter is a 64-bit word that
  wraps; of a histogram only the number of observations is kept, the durations are wall-clock
  times. The handles are shared (\<open>Arc\<close>), so there is one copy of each.
\<close>

record DbMetrics =
  db_size :: i64
  db_write_bytes :: u64
  db_read_bytes :: u64
  db_key_read_bytes :: u64
  db_read_count :: u64
  db_write_count :: u64
  db_delete_count :: u64
  db_read_time :: nat
  db_write_time :: nat
  db_delete_time :: nat

definition DbMetrics_new :: DbMetrics where
  "DbMetrics_new = \<lparr>db_size = 0, db_write_bytes = 0, db_read_bytes = 0, db_key_read_bytes = 0,
     db_read_count = 0, db_write_count = 0, db_delete_count = 0, db_read_time = 0,
     db_write_time = 0, db_delete_time = 0\<rparr>"

text \<open>The names \<open>register\<close> announces under the prefix \<open>app_channel\<close>, in its order.\<close>

definition DbMetrics_registered :: "string list" where
  "DbMetrics_registered =
    [''db_size'', ''db_write_bytes_total'', ''db_read_bytes_total'', ''db_key_read_bytes_total'',
     ''db_read_count_total'', ''db_write_count_total'', ''db_delete_count_total'', ''db_read_time'',
     ''db_write_time'', ''db_delete_time'']"

definition set_db_size :: "usize \<Rightarrow> DbMetrics \<Rightarrow> DbMetrics" where
  "set_db_size s m = m\<lparr>db_size := s\<rparr>"

definition add_write_bytes :: "u64 \<Rightarrow> DbMetrics \<Rightarrow> DbMetrics" where
  "add_write_bytes b m = m\<lparr>db_write_bytes := db_write_bytes m + b,
     db_write_count := db_write_count m + 1\<rparr>"

definition add_read_bytes :: "u64 \<Rightarrow> DbMetrics \<Rightarrow> DbMetrics" where
  "add_read_bytes b m = m\<lparr>db_read_bytes := db_read_bytes m + b,
     db_read_count := db_read_count m + 1\<rparr>"

definition add_key_read_bytes :: "u64 \<Rightarrow> DbMetrics \<Rightarrow> DbMetrics" where
  "add_key_read_bytes b m = m\<lparr>db_key_read_bytes := db_key_read_bytes m + b\<rparr>"

definition observe_read_time :: "DbMetrics \<Rightarrow> DbMetrics" where
  "observe_read_time m = m\<lparr>db_read_time := db_read_time m + 1\<rparr>"

definition observe_write_time :: "DbMetrics \<Rightarrow> DbMetrics" where
  "observe_write_time m = m\<lparr>db_write_time := db_write_time m + 1\<rparr>"

definition observe_delete_time :: "DbMetrics \<Rightarrow> DbMetrics" where
  "observe_delete_time m = m\<lparr>db_delete_time := db_delete_time m + 1\<rparr>"

lemmas metric_defs = add_write_bytes_def add_read_bytes_def add_key_read_bytes_def
  observe_read_time_def observe_write_time_def observe_delete_time_def

end
