(* ===== verification/Store.thy ===== *)
theory Store
  imports Streaming Store_Keys Db_Metrics
begin

text \<open>
  \<open>app/src/store.rs\<close>: the tables of decided values, certificates, undecided proposals and block
  data. Every operation of \<open>Db\<close> runs in one transaction and returns the database after it; where
  it returns an error the transaction is dropped and the database is the one before. The methods
  of \<open>Store\<close> run them on a blocking task, whose panic becomes the error \<open>SE_TaskJoin\<close>.
\<close>

record ('db, 'tx) store_lib = stream_msg_lib +
  redb :: "('db, 'tx) redb_lib"
  rkeys :: redb_keys

record DecidedValue =
  dv_value :: Value
  dv_certificate :: CommitCertificate

datatype StoreError =
    SE_Database string
  | SE_Storage string
  | SE_Table string
  | SE_Commit string
  | SE_Transaction string
  | SE_Protobuf ProtoError
  | SE_TaskJoin string

section \<open>Certificates\<close>

text \<open>\<open>decode_certificate\<close> and \<open>encode_certificate\<close> of this module, over those of the codec.\<close>

definition store_decode_certificate :: "'z lib_scheme \<Rightarrow> bytes \<Rightarrow> (ProtoError, CommitCertificate) result" where
  "store_decode_certificate L b =
     and_then (prost_decode (c_certificate (prost L)) b) (\<lambda>proto. decode_certificate L proto)"

definition store_encode_certificate :: "'z lib_scheme \<Rightarrow> CommitCertificate \<Rightarrow> (ProtoError, bytes) result" where
  "store_encode_certificate L certificate =
     and_then (encode_certificate L certificate) (\<lambda>proto. Inr (enc (c_certificate (prost L)) proto))"

interpretation certificate_codec:
  wire_format "store_encode_certificate L" "store_decode_certificate L" "lib_laws L"
    "\<lambda>c. cert_round c \<noteq> RNil" "\<lambda>c. c" for L
proof (unfold_locales, goal_cases)
  case (1 m)
  with certificate_wire.to_from [of L m] show ?case
    by (auto simp: store_encode_certificate_def store_decode_certificate_def law_simps)
qed

section \<open>Tables\<close>

definition CERTIFICATES_TABLE :: string where
  "CERTIFICATES_TABLE = ''certificates''"

definition DECIDED_VALUES_TABLE :: string where
  "DECIDED_VALUES_TABLE = ''decided_values''"

definition UNDECIDED_PROPOSALS_TABLE :: string where
  "UNDECIDED_PROPOSALS_TABLE = ''undecided_values''"

definition DECIDED_BLOCK_DATA_TABLE :: string where
  "DECIDED_BLOCK_DATA_TABLE = ''decided_block_data''"

definition UNDECIDED_BLOCK_DATA_TABLE :: string where
  "UNDECIDED_BLOCK_DATA_TABLE = ''undecided_block_data''"

lemmas table_defs = CERTIFICATES_TABLE_def DECIDED_VALUES_TABLE_def UNDECIDED_PROPOSALS_TABLE_def
  DECIDED_BLOCK_DATA_TABLE_def UNDECIDED_BLOCK_DATA_TABLE_def

lemma tables_neq [simp]:
  "CERTIFICATES_TABLE \<noteq> DECIDED_VALUES_TABLE"
  "CERTIFICATES_TABLE \<noteq> UNDECIDED_PROPOSALS_TABLE"
  "CERTIFICATES_TABLE \<noteq> DECIDED_BLOCK_DATA_TABLE"
  "CERTIFICATES_TABLE \<noteq> UNDECIDED_BLOCK_DATA_TABLE"
  "DECIDED_VALUES_TABLE \<noteq> CERTIFICATES_TABLE"
  "DECIDED_VALUES_TABLE \<noteq> UNDECIDED_PROPOSALS_TABLE"
  "DECIDED_VALUES_TABLE \<noteq> DECIDED_BLOCK_DATA_TABLE"
  "DECIDED_VALUES_TABLE \<noteq> UNDECIDED_BLOCK_DATA_TABLE"
  "UNDECIDED_PROPOSALS_TABLE \<noteq> CERTIFICATES_TABLE"
  "UNDECIDED_PROPOSALS_TABLE \<noteq> DECIDED_VALUES_TABLE"
  "UNDECIDED_PROPOSALS_TABLE \<noteq> DECIDED_BLOCK_DATA_TABLE"
  "UNDECIDED_PROPOSALS_TABLE \<noteq> UNDECIDED_BLOCK_DATA_TABLE"
  "DECIDED_BLOCK_DATA_TABLE \<noteq> CERTIFICATES_TABLE"
  "DECIDED_BLOCK_DATA_TABLE \<noteq> DECIDED_VALUES_TABLE"
  "DECIDED_BLOCK_DATA_TABLE \<noteq> UNDECIDED_PROPOSALS_TABLE"
  "DECIDED_BLOCK_DATA_TABLE \<noteq> UNDECIDED_BLOCK_DATA_TABLE"
  "UNDECIDED_BLOCK_DATA_TABLE \<noteq> CERTIFICATES_TABLE"
  "UNDECIDED_BLOCK_DATA_TABLE \<noteq> DECIDED_VALUES_TABLE"
  "UNDECIDED_BLOCK_DATA_TABLE \<noteq> UNDECIDED_PROPOSALS_TABLE"
  "UNDECIDED_BLOCK_DATA_TABLE \<noteq> DECIDED_BLOCK_DATA_TABLE"
  by (simp_all add: table_defs)

section \<open>\<open>Db\<close>\<close>

record 'db Db =
  db_handle :: 'db
  db_metrics :: DbMetrics

type_synonym ('a, 'db) db_result = "(StoreError, 'a \<times> 'db Db) result"

definition Db_new :: "('db, 'tx, 'z) store_lib_scheme \<Rightarrow> string \<Rightarrow> DbMetrics \<Rightarrow> (StoreError, 'db Db) result" where
  "Db_new L path metrics =
     and_then (lift_lib SE_Database (rb_create (redb L) path)) (\<lambda>db.
       Inr \<lparr>db_handle = db, db_metrics = metrics\<rparr>)"

definition Db_get_decided_value ::
  "('db, 'tx, 'z) store_lib_scheme \<Rightarrow> 'db Db \<Rightarrow> Height \<Rightarrow> (DecidedValue option, 'db) db_result" where
  "Db_get_decided_value L db height =
     and_then (lift_lib SE_Transaction (rb_begin_read (redb L) (db_handle db))) (\<lambda>tx.
     and_then (lift_lib SE_Table (rb_open_table (redb L) tx DECIDED_VALUES_TABLE)) (\<lambda>tx.
     and_then (lift_lib SE_Storage
         (rb_get (redb L) tx DECIDED_VALUES_TABLE (height_key (rkeys L) height))) (\<lambda>vb.
     and_then (case vb of
         None \<Rightarrow> Inr (None, 0)
       | Some bytes \<Rightarrow> and_then (ok (value_from_bytes (protobuf L) bytes)) (\<lambda>v.
           Inr (v, of_nat (length bytes)))) (\<lambda>(value, read_bytes).
     and_then (lift_lib SE_Table (rb_open_table (redb L) tx CERTIFICATES_TABLE)) (\<lambda>tx.
     and_then (lift_lib SE_Storage
         (rb_get (redb L) tx CERTIFICATES_TABLE (height_key (rkeys L) height))) (\<lambda>cb.
     and_then (case cb of
         None \<Rightarrow> Inr (None, read_bytes)
       | Some bytes \<Rightarrow> and_then (ok (store_decode_certificate L bytes)) (\<lambda>c.
           Inr (c, read_bytes + of_nat (length bytes)))) (\<lambda>(certificate, read_bytes).
     let metrics = add_key_read_bytes 8 (add_read_bytes read_bytes (observe_read_time (db_metrics db))) in
     Inr (Option.bind value (\<lambda>v. map_option (\<lambda>c. \<lparr>dv_value = v, dv_certificate = c\<rparr>) certificate),
          db\<lparr>db_metrics := metrics\<rparr>))))))))"

definition Db_insert_decided_value ::
  "('db, 'tx, 'z) store_lib_scheme \<Rightarrow> 'db Db \<Rightarrow> DecidedValue \<Rightarrow> (unit, 'db) db_result" where
  "Db_insert_decided_value L db decided_value =
     (let height = cert_height (dv_certificate decided_value) in
      and_then (lift_lib SE_Transaction (rb_begin_write (redb L) (db_handle db))) (\<lambda>tx.
      and_then (lift_lib SE_Table (rb_open_table (redb L) tx DECIDED_VALUES_TABLE)) (\<lambda>tx.
      and_then (map_err SE_Protobuf (value_to_bytes (protobuf L) (dv_value decided_value))) (\<lambda>values_bytes.
      and_then (lift_lib SE_Storage
          (rb_insert (redb L) tx DECIDED_VALUES_TABLE (height_key (rkeys L) height) values_bytes)) (\<lambda>tx.
      and_then (lift_lib SE_Table (rb_open_table (redb L) tx CERTIFICATES_TABLE)) (\<lambda>tx.
      and_then (map_err SE_Protobuf (store_encode_certificate L (dv_certificate decided_value)))
        (\<lambda>encoded_certificate.
      and_then (lift_lib SE_Storage
          (rb_insert (redb L) tx CERTIFICATES_TABLE (height_key (rkeys L) height) encoded_certificate)) (\<lambda>tx.
      and_then (lift_lib SE_Commit (rb_commit (redb L) tx)) (\<lambda>handle.
        Inr ((), \<lparr>db_handle = handle,
          db_metrics = add_write_bytes (of_nat (length values_bytes) + of_nat (length encoded_certificate))
            (observe_write_time (db_metrics db))\<rparr>))))))))))"

definition Db_get_undecided_proposal ::
  "('db, 'tx, 'z) store_lib_scheme \<Rightarrow> 'db Db \<Rightarrow> Height \<Rightarrow> Round \<Rightarrow> (ProposedValue option, 'db) db_result" where
  "Db_get_undecided_proposal L db height round =
     and_then (lift_lib SE_Transaction (rb_begin_read (redb L) (db_handle db))) (\<lambda>tx.
     and_then (lift_lib SE_Table (rb_open_table (redb L) tx UNDECIDED_PROPOSALS_TABLE)) (\<lambda>tx.
     and_then (case rb_get (redb L) tx UNDECIDED_PROPOSALS_TABLE
           (undecided_key (rounds L) (rkeys L) (height, round)) of
         Inr (Some bytes) \<Rightarrow>
           and_then (map_err SE_Protobuf (ProposedValue_decode L bytes)) (\<lambda>proposal.
             Inr (Some proposal, of_nat (length bytes)))
       | _ \<Rightarrow> Inr (None, 0)) (\<lambda>(value, read_bytes).
     Inr (value, db\<lparr>db_metrics := add_key_read_bytes 16 (add_read_bytes read_bytes
       (observe_read_time (db_metrics db)))\<rparr>))))"

text \<open>The write both undecided tables and the decided block data share: only a free key is written.\<close>

definition insert_if_absent ::
  "('db, 'tx, 'z) store_lib_scheme \<Rightarrow> 'db Db \<Rightarrow> string \<Rightarrow> table_key \<Rightarrow> bytes \<Rightarrow> (StoreError, 'db) result" where
  "insert_if_absent L db table key value =
     and_then (lift_lib SE_Transaction (rb_begin_write (redb L) (db_handle db))) (\<lambda>tx.
     and_then (lift_lib SE_Table (rb_open_table (redb L) tx table)) (\<lambda>tx.
     and_then (lift_lib SE_Storage (rb_get (redb L) tx table key)) (\<lambda>existing.
     and_then (if existing = None then lift_lib SE_Storage (rb_insert (redb L) tx table key value)
       else Inr tx) (\<lambda>tx.
     lift_lib SE_Commit (rb_commit (redb L) tx)))))"

definition Db_insert_undecided_proposal ::
  "('db, 'tx, 'z) store_lib_scheme \<Rightarrow> 'db Db \<Rightarrow> ProposedValue \<Rightarrow> (unit, 'db) db_result" where
  "Db_insert_undecided_proposal L db proposal =
     (let key = (prv_height proposal, prv_round proposal) in
      and_then (map_err SE_Protobuf (ProposedValue_encode L proposal)) (\<lambda>value.
      and_then (insert_if_absent L db UNDECIDED_PROPOSALS_TABLE
          (undecided_key (rounds L) (rkeys L) key) value) (\<lambda>handle.
        Inr ((), \<lparr>db_handle = handle,
          db_metrics = add_write_bytes (of_nat (length value)) (observe_write_time (db_metrics db))\<rparr>))))"

definition Db_insert_undecided_block_data ::
  "('db, 'tx, 'z) store_lib_scheme \<Rightarrow> 'db Db \<Rightarrow> Height \<Rightarrow> Round \<Rightarrow> bytes \<Rightarrow> (unit, 'db) db_result" where
  "Db_insert_undecided_block_data L db height round data =
     (let write_bytes = of_nat (length data) in
      and_then (insert_if_absent L db UNDECIDED_BLOCK_DATA_TABLE
          (undecided_key (rounds L) (rkeys L) (height, round)) data) (\<lambda>handle.
        Inr ((), \<lparr>db_handle = handle,
          db_metrics = add_write_bytes write_bytes (observe_write_time (db_metrics db))\<rparr>)))"

definition Db_insert_decided_block_data ::
  "('db, 'tx, 'z) store_lib_scheme \<Rightarrow> 'db Db \<Rightarrow> Height \<Rightarrow> bytes \<Rightarrow> (unit, 'db) db_result" where
  "Db_insert_decided_block_data L db height data =
     (let write_bytes = of_nat (length data) in
      and_then (insert_if_absent L db DECIDED_BLOCK_DATA_TABLE (height_key (rkeys L) height) data) (\<lambda>handle.
        Inr ((), \<lparr>db_handle = handle,
          db_metrics = add_write_bytes write_bytes (observe_write_time (db_metrics db))\<rparr>)))"

text \<open>\<open>flatten\<close> drops the items of a range that failed to read.\<close>

definition flatten_items :: "(string + 'a) list \<Rightarrow> 'a list" where
  "flatten_items = List.map_filter (\<lambda>x. case x of Inl e \<Rightarrow> None | Inr k \<Rightarrow> Some k)"

definition height_range ::
  "('db, 'tx, 'z) store_lib_scheme \<Rightarrow> 'tx \<Rightarrow> string \<Rightarrow> Height \<Rightarrow> (StoreError, Height list) result" where
  "height_range L tx table to =
     and_then (lift_lib SE_Storage (rb_range_to (redb L) tx table (height_key_compare (rkeys L))
         (height_key (rkeys L) to))) (\<lambda>items.
       Inr (map (height_key_value (rkeys L)) (flatten_items items)))"

definition undecided_proposals_range ::
  "('db, 'tx, 'z) store_lib_scheme \<Rightarrow> 'tx \<Rightarrow> string \<Rightarrow> Height \<times> Round \<Rightarrow>
    (StoreError, (Height \<times> Round) list) result" where
  "undecided_proposals_range L tx table to =
     and_then (lift_lib SE_Storage (rb_range_to (redb L) tx table (undecided_key_compare (rkeys L))
         (undecided_key (rounds L) (rkeys L) to))) (\<lambda>items.
       Inr (map (undecided_key_value (rounds L) (rkeys L)) (flatten_items items)))"

definition block_data_range ::
  "('db, 'tx, 'z) store_lib_scheme \<Rightarrow> 'tx \<Rightarrow> string \<Rightarrow> Height \<times> Round \<Rightarrow>
    (StoreError, (Height \<times> Round) list) result" where
  "block_data_range L tx table to =
     and_then (lift_lib SE_Storage (rb_range_to (redb L) tx table (undecided_key_compare (rkeys L))
         (undecided_key (rounds L) (rkeys L) to))) (\<lambda>items.
       Inr (map (undecided_key_value (rounds L) (rkeys L)) (flatten_items items)))"

text \<open>The loops of \<open>prune\<close>: remove the keys one by one from each of the tables.\<close>

fun remove_keys ::
  "('db, 'tx, 'z) store_lib_scheme \<Rightarrow> 'tx \<Rightarrow> (string \<times> table_key) list \<Rightarrow> (StoreError, 'tx) result" where
  "remove_keys L tx [] = Inr tx"
| "remove_keys L tx ((t, k) # ks) =
     and_then (lift_lib SE_Storage (rb_remove (redb L) tx t k)) (\<lambda>tx. remove_keys L tx ks)"

definition Db_prune ::
  "('db, 'tx, 'z) store_lib_scheme \<Rightarrow> 'db Db \<Rightarrow> Height \<Rightarrow> (Height list, 'db) db_result" where
  "Db_prune L db retain_height =
     and_then (unwrap ''called `Result::unwrap()` on an `Err` value''
         (lift_lib SE_Transaction (rb_begin_write (redb L) (db_handle db)))) (\<lambda>tx.
     and_then (lift_lib SE_Table (rb_open_table (redb L) tx UNDECIDED_PROPOSALS_TABLE)) (\<lambda>tx.
     and_then (undecided_proposals_range L tx UNDECIDED_PROPOSALS_TABLE (retain_height, RNil)) (\<lambda>keys.
     and_then (remove_keys L tx
         (map (\<lambda>k. (UNDECIDED_PROPOSALS_TABLE, undecided_key (rounds L) (rkeys L) k)) keys)) (\<lambda>tx.
     and_then (lift_lib SE_Table (rb_open_table (redb L) tx UNDECIDED_BLOCK_DATA_TABLE)) (\<lambda>tx.
     and_then (block_data_range L tx UNDECIDED_BLOCK_DATA_TABLE (retain_height, RNil)) (\<lambda>keys.
     and_then (remove_keys L tx
         (map (\<lambda>k. (UNDECIDED_BLOCK_DATA_TABLE, undecided_key (rounds L) (rkeys L) k)) keys)) (\<lambda>tx.
     and_then (lift_lib SE_Table (rb_open_table (redb L) tx DECIDED_VALUES_TABLE)) (\<lambda>tx.
     and_then (lift_lib SE_Table (rb_open_table (redb L) tx CERTIFICATES_TABLE)) (\<lambda>tx.
     and_then (lift_lib SE_Table (rb_open_table (redb L) tx DECIDED_BLOCK_DATA_TABLE)) (\<lambda>tx.
     and_then (height_range L tx DECIDED_VALUES_TABLE retain_height) (\<lambda>keys.
     and_then (remove_keys L tx (concat (map (\<lambda>h.
         [(DECIDED_VALUES_TABLE, height_key (rkeys L) h), (CERTIFICATES_TABLE, height_key (rkeys L) h),
          (DECIDED_BLOCK_DATA_TABLE, height_key (rkeys L) h)]) keys))) (\<lambda>tx.
     and_then (lift_lib SE_Commit (rb_commit (redb L) tx)) (\<lambda>handle.
       Inr (keys, \<lparr>db_handle = handle, db_metrics = observe_delete_time (db_metrics db)\<rparr>))))))))))))))"

definition Db_min_decided_value_height ::
  "('db, 'tx, 'z) store_lib_scheme \<Rightarrow> 'db Db \<Rightarrow> (Height option, 'db) db_result" where
  "Db_min_decided_value_height L db =
     and_then (unwrap ''called `Result::unwrap()` on an `Err` value''
         (lift_lib SE_Transaction (rb_begin_read (redb L) (db_handle db)))) (\<lambda>tx.
     and_then (unwrap ''called `Result::unwrap()` on an `Err` value''
         (lift_lib SE_Table (rb_open_table (redb L) tx DECIDED_VALUES_TABLE))) (\<lambda>tx.
     (case rb_first (redb L) tx DECIDED_VALUES_TABLE (height_key_compare (rkeys L)) of
        Inr (Some (key, value)) \<Rightarrow>
          Inr (Some (height_key_value (rkeys L) key),
            db\<lparr>db_metrics := add_key_read_bytes 8 (add_read_bytes (of_nat (length value))
              (observe_read_time (db_metrics db)))\<rparr>)
      | _ \<Rightarrow> Inr (None, db))))"

definition Db_create_tables :: "('db, 'tx, 'z) store_lib_scheme \<Rightarrow> 'db Db \<Rightarrow> (unit, 'db) db_result" where
  "Db_create_tables L db =
     and_then (lift_lib SE_Transaction (rb_begin_write (redb L) (db_handle db))) (\<lambda>tx.
     and_then (lift_lib SE_Table (rb_open_table (redb L) tx DECIDED_VALUES_TABLE)) (\<lambda>tx.
     and_then (lift_lib SE_Table (rb_open_table (redb L) tx CERTIFICATES_TABLE)) (\<lambda>tx.
     and_then (lift_lib SE_Table (rb_open_table (redb L) tx UNDECIDED_PROPOSALS_TABLE)) (\<lambda>tx.
     and_then (lift_lib SE_Table (rb_open_table (redb L) tx DECIDED_BLOCK_DATA_TABLE)) (\<lambda>tx.
     and_then (lift_lib SE_Table (rb_open_table (redb L) tx UNDECIDED_BLOCK_DATA_TABLE)) (\<lambda>tx.
     and_then (lift_lib SE_Commit (rb_commit (redb L) tx)) (\<lambda>handle.
       Inr ((), db\<lparr>db_handle := handle\<rparr>))))))))"

definition Db_get_block_data ::
  "('db, 'tx, 'z) store_lib_scheme \<Rightarrow> 'db Db \<Rightarrow> Height \<Rightarrow> Round \<Rightarrow> (bytes option, 'db) db_result" where
  "Db_get_block_data L db height round =
     and_then (lift_lib SE_Transaction (rb_begin_read (redb L) (db_handle db))) (\<lambda>tx.
     and_then (lift_lib SE_Table (rb_open_table (redb L) tx UNDECIDED_BLOCK_DATA_TABLE)) (\<lambda>tx.
     and_then (lift_lib SE_Storage (rb_get (redb L) tx UNDECIDED_BLOCK_DATA_TABLE
         (undecided_key (rounds L) (rkeys L) (height, round)))) (\<lambda>undecided.
     (case undecided of
        Some bytes \<Rightarrow> Inr (Some bytes, db\<lparr>db_metrics := add_key_read_bytes 16
          (add_read_bytes (of_nat (length bytes)) (observe_read_time (db_metrics db)))\<rparr>)
      | None \<Rightarrow>
     and_then (lift_lib SE_Table (rb_open_table (redb L) tx DECIDED_BLOCK_DATA_TABLE)) (\<lambda>tx.
     and_then (lift_lib SE_Storage (rb_get (redb L) tx DECIDED_BLOCK_DATA_TABLE
         (height_key (rkeys L) height))) (\<lambda>decided.
     (case decided of
        Some bytes \<Rightarrow> Inr (Some bytes, db\<lparr>db_metrics := add_key_read_bytes 8
          (add_read_bytes (of_nat (length bytes)) (observe_read_time (db_metrics db)))\<rparr>)
      | None \<Rightarrow> Inr (None, db\<lparr>db_metrics := observe_read_time (db_metrics db)\<rparr>))))))))"

section \<open>What the operations do to the contents\<close>

definition store_laws ::
  "('db, 'tx, 'z) store_lib_scheme \<Rightarrow> ('db \<Rightarrow> contents) \<Rightarrow> ('tx \<Rightarrow> contents) \<Rightarrow> bool" where
  "store_laws L \<alpha> \<beta> \<longleftrightarrow> msg_laws L \<and> redb_key_laws (rkeys L) \<and> redb_laws (redb L) \<alpha> \<beta>"

lemma store_lawsD:
  assumes "store_laws L \<alpha> \<beta>"
  shows "msg_laws L" "lib_laws L" "round_laws (rounds L)" "redb_key_laws (rkeys L)"
    "redb_laws (redb L) \<alpha> \<beta>"
  using assms msg_lawsD by (auto simp: store_laws_def)

text \<open>The entries of the tables, by key.\<close>

definition by_height :: "('db, 'tx, 'z) store_lib_scheme \<Rightarrow> contents \<Rightarrow> string \<Rightarrow> Height \<Rightarrow> bytes option" where
  "by_height L c t h = c (t, height_key (rkeys L) h)"

definition by_round ::
  "('db, 'tx, 'z) store_lib_scheme \<Rightarrow> contents \<Rightarrow> string \<Rightarrow> Height \<times> Round \<Rightarrow> bytes option" where
  "by_round L c t hr = c (t, undecided_key (rounds L) (rkeys L) hr)"

lemma insert_if_absent_contents:
  assumes "store_laws L \<alpha> \<beta>" and "insert_if_absent L db t k v = Inr h"
  shows "\<alpha> h = (if \<alpha> (db_handle db) (t, k) = None then (\<alpha> (db_handle db))((t, k) \<mapsto> v)
    else \<alpha> (db_handle db))"
proof -
  note l = redb_lawsD [OF store_lawsD(5) [OF assms(1)]]
  from assms(2) obtain tx tx1 x tx2
    where 1: "rb_begin_write (redb L) (db_handle db) = Inr tx" "rb_open_table (redb L) tx t = Inr tx1"
      "rb_get (redb L) tx1 t k = Inr x" "rb_commit (redb L) tx2 = Inr h"
    and 2: "(if x = None then lift_lib SE_Storage (rb_insert (redb L) tx1 t k v) else Inr tx1) = Inr tx2"
    unfolding insert_if_absent_def and_then_Inr_iff res_conv_Inr by blast
  from 1 have "\<beta> tx1 = \<alpha> (db_handle db)" "x = \<beta> tx1 (t, k)" "\<alpha> h = \<beta> tx2"
    using l(2,3,4,9) by metis+
  with 2 show ?thesis using l(5) by (auto split: if_splits)
qed

lemma insert_if_absent_ok:
  assumes "redb_reliable (redb L)"
  shows "\<exists>h. insert_if_absent L db t k v = Inr h"
proof -
  note r = redb_reliableD [OF assms]
  obtain tx where 1: "rb_begin_write (redb L) (db_handle db) = Inr tx" using r(2) by blast
  obtain tx1 where 2: "rb_open_table (redb L) tx t = Inr tx1" using r(3) by blast
  obtain x where 3: "rb_get (redb L) tx1 t k = Inr x" using r(4) by blast
  obtain tx2 where 4: "rb_insert (redb L) tx1 t k v = Inr tx2" using r(5) by blast
  obtain h where 5: "rb_commit (redb L) (if x = None then tx2 else tx1) = Inr h" using r(9) by blast
  then show ?thesis by (cases x) (simp_all add: insert_if_absent_def 1 2 3 4)
qed

text \<open>
  The contract of a table whose entries are written once: a successful write stores the entry
  under a free key, and leaves everything else as it was.
\<close>

locale write_once_table =
  fixes put :: "'s \<Rightarrow> 'v \<Rightarrow> (StoreError, unit \<times> 's) result"
    and key :: "'v \<Rightarrow> 'k"
    and entry :: "'v \<Rightarrow> bytes option"
    and stored :: "'s \<Rightarrow> 'k \<Rightarrow> bytes option"
    and laws :: bool
  assumes put_stored: "laws \<Longrightarrow> put s v = Inr (u, s') \<Longrightarrow> entry v \<noteq> None \<and>
    stored s' k = (if k = key v \<and> stored s k = None then entry v else stored s k)"
begin

lemma keeps: "laws \<Longrightarrow> put s v = Inr (u, s') \<Longrightarrow> stored s k = Some b \<Longrightarrow> stored s' k = Some b"
  using put_stored [of s v u s' k] by simp

text \<open>After any writes a key holds what it held before them, or else the first entry written to it.\<close>

lemma first_wins:
  "laws \<Longrightarrow> each put s vs = Inr s' \<Longrightarrow>
    stored s' k = (case stored s k of Some b \<Rightarrow> Some b
      | None \<Rightarrow> Option.bind (find (\<lambda>v. key v = k) vs) entry)"
proof (induction vs arbitrary: s)
  case Nil
  then show ?case by (auto split: option.split)
next
  case (Cons v vs)
  from Cons.prems(2) obtain s1 where put: "put s v = Inr ((), s1)" and rest: "each put s1 vs = Inr s'"
    by (auto simp: and_then_Inr_iff)
  from Cons.IH [OF Cons.prems(1) rest] put_stored [OF Cons.prems(1) put, of k]
  show ?case by (auto split: option.split)
qed

end

lemma ProposedValue_encode_Inr:
  assumes "lib_laws L" and "ProposedValue_encode L p = Inr b"
  shows "prv_round p \<noteq> RNil \<and> ProposedValue_decode L b = Inr p"
proof -
  have "prv_round p \<noteq> RNil" using assms by (metis ProposedValue_encode_nil Inl_Inr_False)
  with proposed_value_codec.decodes [OF assms(1) this assms(2)] show ?thesis by simp
qed

lemma Db_insert_undecided_proposal_Inr:
  "Db_insert_undecided_proposal L db p = Inr (u, db') \<Longrightarrow>
    \<exists>b. ProposedValue_encode L p = Inr b \<and> insert_if_absent L db UNDECIDED_PROPOSALS_TABLE
      (undecided_key (rounds L) (rkeys L) (prv_height p, prv_round p)) b = Inr (db_handle db')"
  by (auto simp: Db_insert_undecided_proposal_def and_then_Inr_iff)

interpretation undecided_proposals:
  write_once_table "Db_insert_undecided_proposal L" "\<lambda>p. (prv_height p, prv_round p)"
    "\<lambda>p. ok_opt (ProposedValue_encode L p)"
    "\<lambda>db. by_round L (\<alpha> (db_handle db)) UNDECIDED_PROPOSALS_TABLE" "store_laws L \<alpha> \<beta>" for L \<alpha> \<beta>
proof (unfold_locales, goal_cases)
  case (1 s v u s' k)
  from Db_insert_undecided_proposal_Inr [OF 1(2)] obtain b
    where "ProposedValue_encode L v = Inr b" and ins: "insert_if_absent L s UNDECIDED_PROPOSALS_TABLE
      (undecided_key (rounds L) (rkeys L) (prv_height v, prv_round v)) b = Inr (db_handle s')"
    by blast
  then show ?case
    using insert_if_absent_contents [OF 1(1) ins] store_lawsD [OF 1(1)]
    by (auto simp: by_round_def undecided_key_inject)
qed

interpretation undecided_block_data:
  write_once_table "\<lambda>db (h, r, d). Db_insert_undecided_block_data L db h r d"
    "\<lambda>(h, r, d). (h, r)" "\<lambda>(h, r, d). Some d"
    "\<lambda>db. by_round L (\<alpha> (db_handle db)) UNDECIDED_BLOCK_DATA_TABLE" "store_laws L \<alpha> \<beta>" for L \<alpha> \<beta>
proof (unfold_locales, goal_cases)
  case (1 s v u s' k)
  obtain h r d where v: "v = (h, r, d)" by (cases v)
  with 1(2) have ins: "insert_if_absent L s UNDECIDED_BLOCK_DATA_TABLE
      (undecided_key (rounds L) (rkeys L) (h, r)) d = Inr (db_handle s')"
    by (auto simp: Db_insert_undecided_block_data_def Let_def and_then_Inr_iff)
  show ?case
    using insert_if_absent_contents [OF 1(1) ins] store_lawsD [OF 1(1)]
    by (auto simp: v by_round_def undecided_key_inject)
qed

interpretation decided_block_data:
  write_once_table "\<lambda>db (h, d). Db_insert_decided_block_data L db h d" fst "\<lambda>(h, d). Some d"
    "\<lambda>db. by_height L (\<alpha> (db_handle db)) DECIDED_BLOCK_DATA_TABLE" "store_laws L \<alpha> \<beta>" for L \<alpha> \<beta>
proof (unfold_locales, goal_cases)
  case (1 s v u s' k)
  obtain h d where v: "v = (h, d)" by (cases v)
  with 1(2) have ins: "insert_if_absent L s DECIDED_BLOCK_DATA_TABLE
      (height_key (rkeys L) h) d = Inr (db_handle s')"
    by (auto simp: Db_insert_decided_block_data_def Let_def and_then_Inr_iff)
  show ?case
    using insert_if_absent_contents [OF 1(1) ins] store_lawsD [OF 1(1)]
    by (auto simp: v by_height_def height_key_inject)
qed

section \<open>Reading\<close>

lemma reliable_opened:
  assumes "store_laws L \<alpha> \<beta>" and "redb_reliable (redb L)"
  shows "\<exists>tx'. rb_open_table (redb L) tx t = Inr tx' \<and> \<beta> tx' = \<beta> tx"
  using reliable_open [OF assms(2)] redb_open_table [OF store_lawsD(5) [OF assms(1)]] by metis

lemma reliable_read_tx:
  assumes "store_laws L \<alpha> \<beta>" and "redb_reliable (redb L)"
  shows "\<exists>tx. rb_begin_read (redb L) db = Inr tx \<and> \<beta> tx = \<alpha> db"
  using reliable_read [OF assms(2)] redb_begin_read [OF store_lawsD(5) [OF assms(1)]] by metis

lemma reliable_write_tx:
  assumes "store_laws L \<alpha> \<beta>" and "redb_reliable (redb L)"
  shows "\<exists>tx. rb_begin_write (redb L) db = Inr tx \<and> \<beta> tx = \<alpha> db"
  using reliable_write [OF assms(2)] redb_begin_write [OF store_lawsD(5) [OF assms(1)]] by metis

lemma reliable_got:
  assumes "store_laws L \<alpha> \<beta>" and "redb_reliable (redb L)"
  shows "rb_get (redb L) tx t k = Inr (\<beta> tx (t, k))"
  using reliable_get [OF assms(2)] redb_get [OF store_lawsD(5) [OF assms(1)]] by metis

lemma reliable_committed:
  assumes "store_laws L \<alpha> \<beta>" and "redb_reliable (redb L)"
  shows "\<exists>h. rb_commit (redb L) tx = Inr h \<and> \<alpha> h = \<beta> tx"
  using reliable_commit [OF assms(2)] redb_commit [OF store_lawsD(5) [OF assms(1)]] by metis

lemma reliable_inserted:
  assumes "store_laws L \<alpha> \<beta>" and "redb_reliable (redb L)"
  shows "\<exists>tx'. rb_insert (redb L) tx t k b = Inr tx' \<and> \<beta> tx' = (\<beta> tx)((t, k) \<mapsto> b)"
  using reliable_insert [OF assms(2)] redb_insert [OF store_lawsD(5) [OF assms(1)]] by metis

text \<open>With a database that does not fail, a read returns what the table holds, and only counts.\<close>

lemma Db_get_undecided_proposal_reliable:
  assumes "store_laws L \<alpha> \<beta>" and "redb_reliable (redb L)"
    and entry: "by_round L (\<alpha> (db_handle db)) UNDECIDED_PROPOSALS_TABLE (h, r) = entry"
  shows "\<exists>m. Db_get_undecided_proposal L db h r =
    and_then (case entry of None \<Rightarrow> Inr None
        | Some b \<Rightarrow> and_then (map_err SE_Protobuf (ProposedValue_decode L b)) (\<lambda>p. Inr (Some p)))
      (\<lambda>x. Inr (x, db\<lparr>db_metrics := m\<rparr>))"
proof -
  note L = assms(1,2)
  obtain tx where 1: "rb_begin_read (redb L) (db_handle db) = Inr tx" "\<beta> tx = \<alpha> (db_handle db)"
    using reliable_read_tx [OF L] by blast
  obtain tx1 where 2: "rb_open_table (redb L) tx UNDECIDED_PROPOSALS_TABLE = Inr tx1" "\<beta> tx1 = \<beta> tx"
    using reliable_opened [OF L] by blast
  show ?thesis
    unfolding Db_get_undecided_proposal_def
    by (rule exI [of _ "add_key_read_bytes 16 (add_read_bytes
        (case entry of None \<Rightarrow> 0 | Some b \<Rightarrow> of_nat (length b)) (observe_read_time (db_metrics db)))"])
      (use entry in \<open>auto simp: 1 2 reliable_got [OF L] by_round_def and_then_assoc split: option.split\<close>)
qed

lemma Db_get_block_data_reliable:
  assumes "store_laws L \<alpha> \<beta>" and "redb_reliable (redb L)"
  shows "\<exists>m. Db_get_block_data L db h r =
    Inr (case by_round L (\<alpha> (db_handle db)) UNDECIDED_BLOCK_DATA_TABLE (h, r) of
           Some d \<Rightarrow> Some d | None \<Rightarrow> by_height L (\<alpha> (db_handle db)) DECIDED_BLOCK_DATA_TABLE h,
         db\<lparr>db_metrics := m\<rparr>)"
proof -
  note L = assms(1,2)
  obtain tx where 1: "rb_begin_read (redb L) (db_handle db) = Inr tx" "\<beta> tx = \<alpha> (db_handle db)"
    using reliable_read_tx [OF L] by blast
  obtain tx1 where 2: "rb_open_table (redb L) tx UNDECIDED_BLOCK_DATA_TABLE = Inr tx1" "\<beta> tx1 = \<beta> tx"
    using reliable_opened [OF L] by blast
  obtain tx2 where 3: "rb_open_table (redb L) tx1 DECIDED_BLOCK_DATA_TABLE = Inr tx2" "\<beta> tx2 = \<beta> tx1"
    using reliable_opened [OF L] by blast
  show ?thesis
    by (cases "\<alpha> (db_handle db) (UNDECIDED_BLOCK_DATA_TABLE, undecided_key (rounds L) (rkeys L) (h, r))";
        cases "\<alpha> (db_handle db) (DECIDED_BLOCK_DATA_TABLE, height_key (rkeys L) h)")
      (auto simp: Db_get_block_data_def 1 2 3 reliable_got [OF L] by_round_def by_height_def)
qed

lemma Db_get_decided_value_reliable:
  assumes "store_laws L \<alpha> \<beta>" and "redb_reliable (redb L)"
    and "by_height L (\<alpha> (db_handle db)) DECIDED_VALUES_TABLE h = map_option fst e"
    and "by_height L (\<alpha> (db_handle db)) CERTIFICATES_TABLE h = map_option snd e"
    and "e \<noteq> None \<Longrightarrow> value_from_bytes (protobuf L) (fst (the e)) = Inr v"
    and "e \<noteq> None \<Longrightarrow> store_decode_certificate L (snd (the e)) = Inr c"
  shows "\<exists>m. Db_get_decided_value L db h =
    Inr (map_option (\<lambda>_. \<lparr>dv_value = v, dv_certificate = c\<rparr>) e, db\<lparr>db_metrics := m\<rparr>)"
proof -
  note L = assms(1,2)
  obtain tx where 1: "rb_begin_read (redb L) (db_handle db) = Inr tx" "\<beta> tx = \<alpha> (db_handle db)"
    using reliable_read_tx [OF L] by blast
  obtain tx1 where 2: "rb_open_table (redb L) tx DECIDED_VALUES_TABLE = Inr tx1" "\<beta> tx1 = \<beta> tx"
    using reliable_opened [OF L] by blast
  obtain tx2 where 3: "rb_open_table (redb L) tx1 CERTIFICATES_TABLE = Inr tx2" "\<beta> tx2 = \<beta> tx1"
    using reliable_opened [OF L] by blast
  show ?thesis
    using assms(3-6)
    by (cases e) (auto simp: Db_get_decided_value_def 1 2 3 reliable_got [OF L] by_height_def Let_def)
qed

section \<open>Deciding\<close>

lemma Db_insert_decided_value_contents:
  assumes "store_laws L \<alpha> \<beta>" and "Db_insert_decided_value L db dv = Inr (u, db')"
  shows "\<exists>vb cb. value_to_bytes (protobuf L) (dv_value dv) = Inr vb \<and>
    store_encode_certificate L (dv_certificate dv) = Inr cb \<and>
    \<alpha> (db_handle db') = (\<alpha> (db_handle db))
      ((DECIDED_VALUES_TABLE, height_key (rkeys L) (cert_height (dv_certificate dv))) \<mapsto> vb,
       (CERTIFICATES_TABLE, height_key (rkeys L) (cert_height (dv_certificate dv))) \<mapsto> cb)"
proof -
  note l = redb_lawsD [OF store_lawsD(5) [OF assms(1)]]
  let ?k = "height_key (rkeys L) (cert_height (dv_certificate dv))"
  from assms(2) obtain tx tx1 vb tx2 tx3 cb tx4 h
    where 1: "rb_begin_write (redb L) (db_handle db) = Inr tx"
      "rb_open_table (redb L) tx DECIDED_VALUES_TABLE = Inr tx1"
      "rb_insert (redb L) tx1 DECIDED_VALUES_TABLE ?k vb = Inr tx2"
      "rb_open_table (redb L) tx2 CERTIFICATES_TABLE = Inr tx3"
      "rb_insert (redb L) tx3 CERTIFICATES_TABLE ?k cb = Inr tx4" "rb_commit (redb L) tx4 = Inr h"
    and 2: "value_to_bytes (protobuf L) (dv_value dv) = Inr vb"
      "store_encode_certificate L (dv_certificate dv) = Inr cb" and 3: "db_handle db' = h"
    unfolding Db_insert_decided_value_def Let_def and_then_Inr_iff res_conv_Inr by force
  from 1 have "\<alpha> h = (\<alpha> (db_handle db))((DECIDED_VALUES_TABLE, ?k) \<mapsto> vb, (CERTIFICATES_TABLE, ?k) \<mapsto> cb)"
    using l(2,3,5,9) by metis
  with 2 3 show ?thesis by blast
qed

lemma Db_insert_decided_value_reliable:
  assumes "store_laws L \<alpha> \<beta>" and "redb_reliable (redb L)" and "cert_round (dv_certificate dv) \<noteq> RNil"
  shows "\<exists>db'. Db_insert_decided_value L db dv = Inr ((), db')"
proof -
  note L = assms(1,2) and r = redb_reliableD [OF assms(2)]
  let ?k = "height_key (rkeys L) (cert_height (dv_certificate dv))"
  obtain vb where v: "value_to_bytes (protobuf L) (dv_value dv) = Inr vb"
    using value_bytes_roundtrip [OF store_lawsD(1) [OF assms(1)]] by blast
  obtain cb where c: "store_encode_certificate L (dv_certificate dv) = Inr cb"
    using certificate_codec.encodes [OF store_lawsD(2) [OF assms(1)] assms(3)] by blast
  obtain tx where 1: "rb_begin_write (redb L) (db_handle db) = Inr tx" using r(2) by blast
  obtain tx1 where 2: "rb_open_table (redb L) tx DECIDED_VALUES_TABLE = Inr tx1" using r(3) by blast
  obtain tx2 where 3: "rb_insert (redb L) tx1 DECIDED_VALUES_TABLE ?k vb = Inr tx2" using r(5) by blast
  obtain tx3 where 4: "rb_open_table (redb L) tx2 CERTIFICATES_TABLE = Inr tx3" using r(3) by blast
  obtain tx4 where 5: "rb_insert (redb L) tx3 CERTIFICATES_TABLE ?k cb = Inr tx4" using r(5) by blast
  obtain h where 6: "rb_commit (redb L) tx4 = Inr h" using r(9) by blast
  show ?thesis by (simp add: Db_insert_decided_value_def Let_def v c 1 2 3 4 5 6)
qed

section \<open>Pruning\<close>

text \<open>Every key of a table is one the code can write there.\<close>

definition well_keyed :: "('db, 'tx, 'z) store_lib_scheme \<Rightarrow> contents \<Rightarrow> bool" where
  "well_keyed L c \<longleftrightarrow> (\<forall>t k. c (t, k) \<noteq> None \<longrightarrow>
     (if t = UNDECIDED_PROPOSALS_TABLE \<or> t = UNDECIDED_BLOCK_DATA_TABLE
      then k \<in> range (undecided_key (rounds L) (rkeys L)) else k \<in> range (height_key (rkeys L))))"

lemma well_keyedD:
  assumes "well_keyed L c" and "c (t, k) \<noteq> None"
  shows "t = UNDECIDED_PROPOSALS_TABLE \<or> t = UNDECIDED_BLOCK_DATA_TABLE \<Longrightarrow>
      k \<in> range (undecided_key (rounds L) (rkeys L))"
    "t \<noteq> UNDECIDED_PROPOSALS_TABLE \<Longrightarrow> t \<noteq> UNDECIDED_BLOCK_DATA_TABLE \<Longrightarrow>
      k \<in> range (height_key (rkeys L))"
  using assms(1) [unfolded well_keyed_def, rule_format, OF assms(2)] by auto

lemma well_keyed_empty: "well_keyed L (\<lambda>_. None)"
  by (simp add: well_keyed_def)

lemma well_keyed_undecided:
  "well_keyed L c \<Longrightarrow> t = UNDECIDED_PROPOSALS_TABLE \<or> t = UNDECIDED_BLOCK_DATA_TABLE \<Longrightarrow>
    well_keyed L (c((t, undecided_key (rounds L) (rkeys L) hr) \<mapsto> b))"
  by (auto simp: well_keyed_def)

lemma well_keyed_decided:
  "well_keyed L c \<Longrightarrow> t \<noteq> UNDECIDED_PROPOSALS_TABLE \<Longrightarrow> t \<noteq> UNDECIDED_BLOCK_DATA_TABLE \<Longrightarrow>
    well_keyed L (c((t, height_key (rkeys L) h) \<mapsto> b))"
  by (auto simp: well_keyed_def)

lemma well_keyed_restrict: "well_keyed L c \<Longrightarrow> (\<And>x. d x \<noteq> None \<Longrightarrow> d x = c x) \<Longrightarrow> well_keyed L d"
  unfolding well_keyed_def by metis

lemma flatten_Inr [simp]: "flatten_items (map Inr ks) = ks"
  by (induction ks) (simp_all add: flatten_items_def List.map_filter_simps)

lemma remove_keys_reliable:
  assumes "store_laws L \<alpha> \<beta>" and "redb_reliable (redb L)"
  shows "\<exists>tx'. remove_keys L tx ks = Inr tx' \<and>
    (\<forall>x. \<beta> tx' x = (if x \<in> set ks then None else \<beta> tx x))"
proof (induction ks arbitrary: tx)
  case Nil
  then show ?case by simp
next
  case (Cons a ks)
  obtain t k where a: "a = (t, k)" by (cases a)
  obtain tx1 where 1: "rb_remove (redb L) tx t k = Inr tx1" using reliable_remove [OF assms(2)] by blast
  then have "\<beta> tx1 = (\<beta> tx)((t, k) := None)" using redb_remove [OF store_lawsD(5) [OF assms(1)]] by blast
  with Cons.IH [of tx1] 1 a show ?case by auto
qed

lemma height_range_reliable:
  assumes "store_laws L \<alpha> \<beta>" and "redb_reliable (redb L)" and "well_keyed L (\<beta> tx)"
    and "t \<noteq> UNDECIDED_PROPOSALS_TABLE" and "t \<noteq> UNDECIDED_BLOCK_DATA_TABLE"
  shows "\<exists>hs. height_range L tx t b = Inr hs \<and> set hs = {h. by_height L (\<beta> tx) t h \<noteq> None \<and> h < b}"
proof -
  note K = store_lawsD(4) [OF assms(1)]
  let ?cmp = "height_key_compare (rkeys L)" and ?b = "height_key (rkeys L) b"
  obtain ks where ks: "rb_range_to (redb L) tx t ?cmp ?b = Inr (map Inr ks)"
    using reliable_range [OF assms(2)] by blast
  have "set ks = {k. \<beta> tx (t, k) \<noteq> None \<and> ?cmp k ?b = Less}"
    by (rule redb_range [OF store_lawsD(5) [OF assms(1)] ks])
  also have "\<dots> = height_key (rkeys L) ` {h. by_height L (\<beta> tx) t h \<noteq> None \<and> h < b}" (is "?A = ?B")
  proof
    show "?A \<subseteq> ?B"
    proof
      fix k assume k: "k \<in> ?A"
      then have "\<beta> tx (t, k) \<noteq> None" by simp
      then have "k \<in> range (height_key (rkeys L))" by (rule well_keyedD(2) [OF assms(3) _ assms(4,5)])
      with k K show "k \<in> ?B" by (auto simp: by_height_def)
    qed
  qed (use K in \<open>auto simp: by_height_def\<close>)
  finally have "set (map (height_key_value (rkeys L)) ks) = {h. by_height L (\<beta> tx) t h \<noteq> None \<and> h < b}"
    using K by (simp add: image_image)
  then show ?thesis by (simp add: height_range_def ks)
qed

lemma undecided_range_reliable:
  assumes "store_laws L \<alpha> \<beta>" and "redb_reliable (redb L)" and "well_keyed L (\<beta> tx)"
    and "t = UNDECIDED_PROPOSALS_TABLE \<or> t = UNDECIDED_BLOCK_DATA_TABLE"
  shows "\<exists>ks. undecided_proposals_range L tx t (b, RNil) = Inr ks \<and> block_data_range L tx t (b, RNil) = Inr ks \<and>
    set ks = {(h, r). by_round L (\<beta> tx) t (h, r) \<noteq> None \<and> h < b}"
proof -
  note K = store_lawsD(4,3) [OF assms(1)]
  let ?cmp = "undecided_key_compare (rkeys L)" and ?k = "undecided_key (rounds L) (rkeys L)"
  obtain ks where ks: "rb_range_to (redb L) tx t ?cmp (?k (b, RNil)) = Inr (map Inr ks)"
    using reliable_range [OF assms(2)] by blast
  have "set ks = {k. \<beta> tx (t, k) \<noteq> None \<and> ?cmp k (?k (b, RNil)) = Less}"
    by (rule redb_range [OF store_lawsD(5) [OF assms(1)] ks])
  also have "\<dots> = ?k ` {(h, r). by_round L (\<beta> tx) t (h, r) \<noteq> None \<and> h < b}" (is "?A = ?B")
  proof
    show "?A \<subseteq> ?B"
    proof
      fix k assume k: "k \<in> ?A"
      then have "\<beta> tx (t, k) \<noteq> None" by simp
      then have "k \<in> range ?k" by (rule well_keyedD(1) [OF assms(3) _ assms(4)])
      then obtain h r where "k = ?k (h, r)" by auto
      with k K show "k \<in> ?B" by (auto simp: by_round_def undecided_key_below)
    qed
  qed (use K in \<open>auto simp: by_round_def undecided_key_below\<close>)
  finally have "set (map (undecided_key_value (rounds L) (rkeys L)) ks)
      = {(h, r). by_round L (\<beta> tx) t (h, r) \<noteq> None \<and> h < b}"
    using K by (simp add: image_image)
  then show ?thesis by (simp add: undecided_proposals_range_def block_data_range_def ks)
qed

text \<open>What pruning leaves of the contents.\<close>

definition pruned_contents ::
  "('db, 'tx, 'z) store_lib_scheme \<Rightarrow> contents \<Rightarrow> Height \<Rightarrow> contents \<Rightarrow> bool" where
  "pruned_contents L c retain d \<longleftrightarrow>
     (\<forall>t \<in> {UNDECIDED_PROPOSALS_TABLE, UNDECIDED_BLOCK_DATA_TABLE}. \<forall>h r.
        by_round L d t (h, r) = (if h < retain then None else by_round L c t (h, r))) \<and>
     (\<forall>t \<in> {DECIDED_VALUES_TABLE, CERTIFICATES_TABLE, DECIDED_BLOCK_DATA_TABLE}. \<forall>h.
        by_height L d t h = (if h < retain \<and> by_height L c DECIDED_VALUES_TABLE h \<noteq> None
          then None else by_height L c t h))"

lemma Db_prune_reliable:
  assumes "store_laws L \<alpha> \<beta>" and "redb_reliable (redb L)" and wk: "well_keyed L (\<alpha> (db_handle db))"
  shows "\<exists>pruned db'. Db_prune L db retain = Inr (pruned, db') \<and>
    set pruned = {h. by_height L (\<alpha> (db_handle db)) DECIDED_VALUES_TABLE h \<noteq> None \<and> h < retain} \<and>
    pruned_contents L (\<alpha> (db_handle db)) retain (\<alpha> (db_handle db')) \<and>
    well_keyed L (\<alpha> (db_handle db'))"
proof -
  note L = assms(1,2) and K = store_lawsD(3,4) [OF assms(1)]
  let ?c = "\<alpha> (db_handle db)" and ?u = "undecided_key (rounds L) (rkeys L)" and ?h = "height_key (rkeys L)"
  obtain tx where 1: "rb_begin_write (redb L) (db_handle db) = Inr tx" "\<beta> tx = ?c"
    using reliable_write_tx [OF L] by blast
  obtain tx1 where 2: "rb_open_table (redb L) tx UNDECIDED_PROPOSALS_TABLE = Inr tx1" "\<beta> tx1 = \<beta> tx"
    using reliable_opened [OF L] by blast
  obtain ps where ps: "undecided_proposals_range L tx1 UNDECIDED_PROPOSALS_TABLE (retain, RNil) = Inr ps"
    "set ps = {(h, r). by_round L ?c UNDECIDED_PROPOSALS_TABLE (h, r) \<noteq> None \<and> h < retain}"
    using undecided_range_reliable [OF L, of tx1 UNDECIDED_PROPOSALS_TABLE retain] wk 1 2 by auto
  obtain tx2 where 3: "remove_keys L tx1 (map (\<lambda>k. (UNDECIDED_PROPOSALS_TABLE, ?u k)) ps) = Inr tx2"
    "\<And>x. \<beta> tx2 x = (if x \<in> (\<lambda>k. (UNDECIDED_PROPOSALS_TABLE, ?u k)) ` set ps then None else ?c x)"
    using remove_keys_reliable [OF L, of tx1] 1 2 by fastforce
  have wk2: "well_keyed L (\<beta> tx2)" by (rule well_keyed_restrict [OF wk]) (simp add: 3 split: if_splits)
  have r2: "by_round L (\<beta> tx2) UNDECIDED_BLOCK_DATA_TABLE = by_round L ?c UNDECIDED_BLOCK_DATA_TABLE"
    by (rule ext) (auto simp: by_round_def 3)
  obtain tx3 where 4: "rb_open_table (redb L) tx2 UNDECIDED_BLOCK_DATA_TABLE = Inr tx3" "\<beta> tx3 = \<beta> tx2"
    using reliable_opened [OF L] by blast
  obtain bs where bs: "block_data_range L tx3 UNDECIDED_BLOCK_DATA_TABLE (retain, RNil) = Inr bs"
    "set bs = {(h, r). by_round L ?c UNDECIDED_BLOCK_DATA_TABLE (h, r) \<noteq> None \<and> h < retain}"
    using undecided_range_reliable [OF L, of tx3 UNDECIDED_BLOCK_DATA_TABLE retain] wk2 4 r2 by auto
  obtain tx4 where 5: "remove_keys L tx3 (map (\<lambda>k. (UNDECIDED_BLOCK_DATA_TABLE, ?u k)) bs) = Inr tx4"
    "\<And>x. \<beta> tx4 x = (if x \<in> (\<lambda>k. (UNDECIDED_BLOCK_DATA_TABLE, ?u k)) ` set bs then None else \<beta> tx2 x)"
    using remove_keys_reliable [OF L, of tx3] 4 by fastforce
  have wk4: "well_keyed L (\<beta> tx4)" by (rule well_keyed_restrict [OF wk2]) (simp add: 5 split: if_splits)
  obtain tx5 where 6: "rb_open_table (redb L) tx4 DECIDED_VALUES_TABLE = Inr tx5" "\<beta> tx5 = \<beta> tx4"
    using reliable_opened [OF L] by blast
  obtain tx6 where 7: "rb_open_table (redb L) tx5 CERTIFICATES_TABLE = Inr tx6" "\<beta> tx6 = \<beta> tx5"
    using reliable_opened [OF L] by blast
  obtain tx7 where 8: "rb_open_table (redb L) tx6 DECIDED_BLOCK_DATA_TABLE = Inr tx7" "\<beta> tx7 = \<beta> tx6"
    using reliable_opened [OF L] by blast
  have d7: "by_height L (\<beta> tx7) t = by_height L ?c t"
    if "t \<noteq> UNDECIDED_PROPOSALS_TABLE" "t \<noteq> UNDECIDED_BLOCK_DATA_TABLE" for t
    by (rule ext) (use that in \<open>auto simp: by_height_def 8 7 6 5 3\<close>)
  obtain hs where hs: "height_range L tx7 DECIDED_VALUES_TABLE retain = Inr hs"
    "set hs = {h. by_height L ?c DECIDED_VALUES_TABLE h \<noteq> None \<and> h < retain}"
    using height_range_reliable [OF L, of tx7 DECIDED_VALUES_TABLE retain] wk4 6 7 8 d7 by auto
  let ?rm = "concat (map (\<lambda>h. [(DECIDED_VALUES_TABLE, ?h h), (CERTIFICATES_TABLE, ?h h),
    (DECIDED_BLOCK_DATA_TABLE, ?h h)]) hs)"
  obtain tx8 where 9: "remove_keys L tx7 ?rm = Inr tx8"
    "\<And>x. \<beta> tx8 x = (if x \<in> set ?rm then None else \<beta> tx4 x)"
    using remove_keys_reliable [OF L, of tx7 ?rm] unfolding 8(2) 7(2) 6(2) by blast
  obtain hd where 10: "rb_commit (redb L) tx8 = Inr hd" "\<alpha> hd = \<beta> tx8"
    using reliable_committed [OF L] by blast
  let ?db = "\<lparr>db_handle = hd, db_metrics = observe_delete_time (db_metrics db)\<rparr>"
  have run: "Db_prune L db retain = Inr (hs, ?db)"
    by (simp add: Db_prune_def 1(1) 2(1) ps(1) 3(1) 4(1) bs(1) 5(1) 6(1) 7(1) 8(1) hs(1) 9(1) 10(1))
  have u: "by_round L (\<alpha> hd) t (h, r) = (if h < retain then None else by_round L ?c t (h, r))"
    if "t = UNDECIDED_PROPOSALS_TABLE \<or> t = UNDECIDED_BLOCK_DATA_TABLE" for t h r
    using that by (auto simp: by_round_def 10 9 5 3 image_iff undecided_key_inject K ps(2) bs(2))
  have d: "by_height L (\<alpha> hd) t h = (if h < retain \<and> by_height L ?c DECIDED_VALUES_TABLE h \<noteq> None
      then None else by_height L ?c t h)"
    if "t \<in> {DECIDED_VALUES_TABLE, CERTIFICATES_TABLE, DECIDED_BLOCK_DATA_TABLE}" for t h
    using that by (auto simp: by_height_def 10 9 5 3 height_key_inject K hs(2))
  have "well_keyed L (\<alpha> hd)" unfolding 10 by (rule well_keyed_restrict [OF wk4]) (simp add: 9 split: if_splits)
  with run hs(2) u d show ?thesis
    by (intro exI [of _ hs] exI [of _ ?db]) (simp add: pruned_contents_def)
qed

section \<open>The smallest decided height\<close>

lemma height_keys_ordered:
  assumes "store_laws L \<alpha> \<beta>" and "well_keyed L c"
    and "t \<noteq> UNDECIDED_PROPOSALS_TABLE" and "t \<noteq> UNDECIDED_BLOCK_DATA_TABLE"
  shows "orders (height_key_compare (rkeys L)) (\<lambda>k. hval (height_key_value (rkeys L) k))
    (\<lambda>k. c (t, k) \<noteq> None)"
  unfolding orders_def
proof (intro allI impI)
  note K = store_lawsD(4) [OF assms(1)]
  fix a b assume "c (t, a) \<noteq> None" "c (t, b) \<noteq> None"
  then obtain h h' where "a = height_key (rkeys L) h" "b = height_key (rkeys L) h'"
    using well_keyedD(2) [OF assms(2) _ assms(3,4)] by (metis imageE)
  with K show "(height_key_compare (rkeys L) a b = Less) =
      (hval (height_key_value (rkeys L) a) < hval (height_key_value (rkeys L) b))"
    by (simp add: Height_less_hval)
qed

lemma Db_min_decided_value_height_reliable:
  assumes "store_laws L \<alpha> \<beta>" and "redb_reliable (redb L)" and "well_keyed L (\<alpha> (db_handle db))"
  defines "decided \<equiv> {h. by_height L (\<alpha> (db_handle db)) DECIDED_VALUES_TABLE h \<noteq> None}"
  shows "\<exists>x m. Db_min_decided_value_height L db = Inr (x, db\<lparr>db_metrics := m\<rparr>) \<and>
    (case x of None \<Rightarrow> decided = {} | Some h \<Rightarrow> h \<in> decided \<and> (\<forall>k \<in> decided. h \<le> k))"
proof -
  note L = assms(1,2) and K = store_lawsD(4) [OF assms(1)] and B = store_lawsD(5) [OF assms(1)]
  let ?cmp = "height_key_compare (rkeys L)"
  obtain tx where 1: "rb_begin_read (redb L) (db_handle db) = Inr tx" "\<beta> tx = \<alpha> (db_handle db)"
    using reliable_read_tx [OF L] by blast
  obtain tx1 where 2: "rb_open_table (redb L) tx DECIDED_VALUES_TABLE = Inr tx1" "\<beta> tx1 = \<alpha> (db_handle db)"
    using reliable_opened [OF L] 1(2) by metis
  obtain x where 3: "rb_first (redb L) tx1 DECIDED_VALUES_TABLE ?cmp = Inr x"
    using reliable_first [OF assms(2)] by blast
  show ?thesis
  proof (cases x)
    case None
    then have "\<alpha> (db_handle db) (DECIDED_VALUES_TABLE, k) = None" for k
      using redb_first_None [OF B] 2(2) 3 by metis
    then have "decided = {}" by (simp add: decided_def by_height_def)
    then show ?thesis
      by (intro exI [of _ None] exI [of _ "db_metrics db"])
        (simp add: Db_min_decided_value_height_def 1(1) 2(1) 3 None)
  next
    case (Some kv)
    obtain k v where kv: "kv = (k, v)" by (cases kv)
    note ord = height_keys_ordered [OF assms(1,3) tables_neq(6,8), folded 2(2)]
    from redb_first_Some [OF B 3 [unfolded Some kv] ord]
    have f: "\<alpha> (db_handle db) (DECIDED_VALUES_TABLE, k) = Some v"
      "\<And>k'. \<alpha> (db_handle db) (DECIDED_VALUES_TABLE, k') \<noteq> None \<Longrightarrow>
        hval (height_key_value (rkeys L) k) \<le> hval (height_key_value (rkeys L) k')"
      by (simp_all add: 2(2))
    then obtain h where h: "k = height_key (rkeys L) h"
      using well_keyedD(2) [OF assms(3) _ tables_neq(6,8)] by (metis imageE option.distinct(1))
    have "h \<in> decided" using f(1) h by (simp add: decided_def by_height_def)
    moreover have "h \<le> h'" if "h' \<in> decided" for h'
      using that f(2) [of "height_key (rkeys L) h'"] h K
      by (simp add: decided_def by_height_def Height_le_hval)
    ultimately show ?thesis
      using h K
      by (intro exI [of _ "Some h"] exI [of _ "add_key_read_bytes 8 (add_read_bytes (of_nat (length v))
          (observe_read_time (db_metrics db)))"])
        (simp add: Db_min_decided_value_height_def 1(1) 2(1) 3 Some kv)
  qed
qed

section \<open>Opening\<close>

lemma Db_create_tables_reliable:
  assumes "store_laws L \<alpha> \<beta>" and "redb_reliable (redb L)"
  shows "\<exists>db'. Db_create_tables L db = Inr ((), db') \<and> \<alpha> (db_handle db') = \<alpha> (db_handle db)"
proof -
  note L = assms(1,2)
  obtain tx where 1: "rb_begin_write (redb L) (db_handle db) = Inr tx" "\<beta> tx = \<alpha> (db_handle db)"
    using reliable_write_tx [OF L] by blast
  obtain tx1 where 2: "rb_open_table (redb L) tx DECIDED_VALUES_TABLE = Inr tx1" "\<beta> tx1 = \<beta> tx"
    using reliable_opened [OF L] by blast
  obtain tx2 where 3: "rb_open_table (redb L) tx1 CERTIFICATES_TABLE = Inr tx2" "\<beta> tx2 = \<beta> tx1"
    using reliable_opened [OF L] by blast
  obtain tx3 where 4: "rb_open_table (redb L) tx2 UNDECIDED_PROPOSALS_TABLE = Inr tx3" "\<beta> tx3 = \<beta> tx2"
    using reliable_opened [OF L] by blast
  obtain tx4 where 5: "rb_open_table (redb L) tx3 DECIDED_BLOCK_DATA_TABLE = Inr tx4" "\<beta> tx4 = \<beta> tx3"
    using reliable_opened [OF L] by blast
  obtain tx5 where 6: "rb_open_table (redb L) tx4 UNDECIDED_BLOCK_DATA_TABLE = Inr tx5" "\<beta> tx5 = \<beta> tx4"
    using reliable_opened [OF L] by blast
  obtain h where 7: "rb_commit (redb L) tx5 = Inr h" "\<alpha> h = \<beta> tx5"
    using reliable_committed [OF L] by blast
  show ?thesis by (simp add: Db_create_tables_def 1 2 3 4 5 6 7)
qed

section \<open>\<open>Store\<close>\<close>

text \<open>\<open>spawn_blocking(..).await?\<close>: tokio reports a panic of the task as a \<open>JoinError\<close>.\<close>

definition joined :: "(StoreError, 'a) result \<Rightarrow> (StoreError, 'a) result" where
  "joined m = (case m of Inl (Panic p) \<Rightarrow> fail (SE_TaskJoin p) | _ \<Rightarrow> m)"

lemma joined_simps [simp]:
  "joined (Inr x) = Inr x" "joined (fail e) = fail e" "joined (panic p) = fail (SE_TaskJoin p)"
  by (simp_all add: joined_def)

lemma joined_Inr [simp]: "joined m = Inr x \<longleftrightarrow> m = Inr x"
  by (auto simp: joined_def split: sum.splits fault.splits)

lemma joined_no_panic: "\<not> panics (joined m)"
  by (auto simp: joined_def panics_def split: sum.splits fault.splits)

definition Store_open ::
  "('db, 'tx, 'z) store_lib_scheme \<Rightarrow> string \<Rightarrow> DbMetrics \<Rightarrow> (StoreError, 'db Db) result" where
  "Store_open L path metrics =
     and_then (Db_new L path metrics) (\<lambda>db.
     and_then (Db_create_tables L db) (\<lambda>(u, db). Inr db))"

definition Store_min_decided_value_height ::
  "('db, 'tx, 'z) store_lib_scheme \<Rightarrow> 'db Db \<Rightarrow> Height option \<times> 'db Db" where
  "Store_min_decided_value_height L s =
     (case Db_min_decided_value_height L s of Inl _ \<Rightarrow> (None, s) | Inr (x, s') \<Rightarrow> (x, s'))"

definition Store_get_decided_value ::
  "('db, 'tx, 'z) store_lib_scheme \<Rightarrow> 'db Db \<Rightarrow> Height \<Rightarrow> (DecidedValue option, 'db) db_result" where
  "Store_get_decided_value L s height = joined (Db_get_decided_value L s height)"

definition store_decided_value ::
  "('db, 'tx, 'z) store_lib_scheme \<Rightarrow> 'db Db \<Rightarrow> CommitCertificate \<Rightarrow> Value \<Rightarrow> (unit, 'db) db_result" where
  "store_decided_value L s certificate value =
     joined (Db_insert_decided_value L s \<lparr>dv_value = value, dv_certificate = certificate\<rparr>)"

definition store_undecided_proposal ::
  "('db, 'tx, 'z) store_lib_scheme \<Rightarrow> 'db Db \<Rightarrow> ProposedValue \<Rightarrow> (unit, 'db) db_result" where
  "store_undecided_proposal L s value = joined (Db_insert_undecided_proposal L s value)"

definition Store_get_undecided_proposal ::
  "('db, 'tx, 'z) store_lib_scheme \<Rightarrow> 'db Db \<Rightarrow> Height \<Rightarrow> Round \<Rightarrow> (ProposedValue option, 'db) db_result" where
  "Store_get_undecided_proposal L s height round = joined (Db_get_undecided_proposal L s height round)"

definition Store_prune ::
  "('db, 'tx, 'z) store_lib_scheme \<Rightarrow> 'db Db \<Rightarrow> Height \<Rightarrow> (Height list, 'db) db_result" where
  "Store_prune L s retain_height = joined (Db_prune L s retain_height)"

definition Store_get_block_data ::
  "('db, 'tx, 'z) store_lib_scheme \<Rightarrow> 'db Db \<Rightarrow> Height \<Rightarrow> Round \<Rightarrow> (bytes option, 'db) db_result" where
  "Store_get_block_data L s height round = joined (Db_get_block_data L s height round)"

definition store_undecided_block_data ::
  "('db, 'tx, 'z) store_lib_scheme \<Rightarrow> 'db Db \<Rightarrow> Height \<Rightarrow> Round \<Rightarrow> bytes \<Rightarrow> (unit, 'db) db_result" where
  "store_undecided_block_data L s height round data =
     joined (Db_insert_undecided_block_data L s height round data)"

definition store_decided_block_data ::
  "('db, 'tx, 'z) store_lib_scheme \<Rightarrow> 'db Db \<Rightarrow> Height \<Rightarrow> bytes \<Rightarrow> (unit, 'db) db_result" where
  "store_decided_block_data L s height data = joined (Db_insert_decided_block_data L s height data)"

section \<open>Every write keeps the tables well keyed\<close>

lemma insert_if_absent_well_keyed:
  assumes "store_laws L \<alpha> \<beta>" and "insert_if_absent L db t k v = Inr h"
    and "well_keyed L (\<alpha> (db_handle db))"
    and "if t = UNDECIDED_PROPOSALS_TABLE \<or> t = UNDECIDED_BLOCK_DATA_TABLE
      then k \<in> range (undecided_key (rounds L) (rkeys L)) else k \<in> range (height_key (rkeys L))"
  shows "well_keyed L (\<alpha> h)"
  using assms(3,4) insert_if_absent_contents [OF assms(1,2)]
  by (auto simp: well_keyed_undecided well_keyed_decided split: if_splits)

lemma writes_well_keyed:
  assumes "store_laws L \<alpha> \<beta>" and "well_keyed L (\<alpha> (db_handle db))"
  shows "Db_insert_undecided_proposal L db p = Inr (u, db') \<Longrightarrow> well_keyed L (\<alpha> (db_handle db'))"
    and "Db_insert_undecided_block_data L db h r d = Inr (u, db') \<Longrightarrow> well_keyed L (\<alpha> (db_handle db'))"
    and "Db_insert_decided_block_data L db h d = Inr (u, db') \<Longrightarrow> well_keyed L (\<alpha> (db_handle db'))"
    and "Db_insert_decided_value L db dv = Inr (u, db') \<Longrightarrow> well_keyed L (\<alpha> (db_handle db'))"
proof -
  note ins = insert_if_absent_well_keyed [OF assms(1) _ assms(2)]
  show "Db_insert_undecided_proposal L db p = Inr (u, db') \<Longrightarrow> well_keyed L (\<alpha> (db_handle db'))"
    using Db_insert_undecided_proposal_Inr ins by fastforce
  show "Db_insert_undecided_block_data L db h r d = Inr (u, db') \<Longrightarrow> well_keyed L (\<alpha> (db_handle db'))"
    by (auto simp: Db_insert_undecided_block_data_def Let_def intro: ins)
  show "Db_insert_decided_block_data L db h d = Inr (u, db') \<Longrightarrow> well_keyed L (\<alpha> (db_handle db'))"
    by (auto simp: Db_insert_decided_block_data_def Let_def intro: ins)
  show "Db_insert_decided_value L db dv = Inr (u, db') \<Longrightarrow> well_keyed L (\<alpha> (db_handle db'))"
    using Db_insert_decided_value_contents [OF assms(1), of db dv u db'] assms(2)
    by (auto simp: well_keyed_decided)
qed

end
