(* ===== verification/Reference_Db.thy ===== *)
theory Reference_Db
  imports Store
begin

text \<open>
  A database in memory that satisfies the laws of \<open>Store_Keys\<close> and never fails, and the library
  record the witnesses of the store and of the node evaluate the model on.
\<close>

type_synonym mem = "((string \<times> table_key) \<times> bytes) list"

definition mem_keys :: "mem \<Rightarrow> string \<Rightarrow> table_key list" where
  "mem_keys tx t = map (\<lambda>((_, k), _). k) (filter (\<lambda>((t', _), _). t' = t) tx)"

fun min_key :: "(table_key \<Rightarrow> table_key \<Rightarrow> ordering) \<Rightarrow> table_key list \<Rightarrow> table_key option" where
  "min_key cmp [] = None"
| "min_key cmp (k # ks) = (case min_key cmp ks of None \<Rightarrow> Some k
     | Some m \<Rightarrow> Some (if cmp m k = Less then m else k))"

definition mem_first :: "mem \<Rightarrow> string \<Rightarrow> (table_key \<Rightarrow> table_key \<Rightarrow> ordering) \<Rightarrow> (table_key \<times> bytes) option" where
  "mem_first tx t cmp = Option.bind (min_key cmp (mem_keys tx t)) (\<lambda>k.
     map_option (Pair k) (map_of tx (t, k)))"

definition mem_redb :: "(mem, mem) redb_lib" where
  "mem_redb = \<lparr>
     rb_create = (\<lambda>_. Inr []),
     rb_begin_read = Inr, rb_begin_write = Inr,
     rb_open_table = (\<lambda>tx t. Inr tx),
     rb_get = (\<lambda>tx t k. Inr (map_of tx (t, k))),
     rb_insert = (\<lambda>tx t k v. Inr (((t, k), v) # tx)),
     rb_remove = (\<lambda>tx t k. Inr (filter (\<lambda>(x, _). x \<noteq> (t, k)) tx)),
     rb_range_to = (\<lambda>tx t cmp b. Inr (map Inr (filter (\<lambda>k. cmp k b = Less) (mem_keys tx t)))),
     rb_first = (\<lambda>tx t cmp. Inr (mem_first tx t cmp)),
     rb_commit = Inr\<rparr>"

definition mem_redb_keys :: redb_keys where
  "mem_redb_keys = \<lparr>
     rk_u64_as_bytes = to_be_bytes, rk_u64_from_bytes = from_be_bytes,
     rk_u64_compare = (\<lambda>a b. ord_cmp (unat (from_be_bytes a :: u64)) (unat (from_be_bytes b :: u64))),
     rk_i64_as_bytes = to_be_bytes, rk_i64_from_bytes = from_be_bytes,
     rk_i64_compare = (\<lambda>a b. ord_cmp (sint (from_be_bytes a :: i64)) (sint (from_be_bytes b :: i64)))\<rparr>"

lemma mem_keys_present: "k \<in> set (mem_keys tx t) \<longleftrightarrow> map_of tx (t, k) \<noteq> None"
  by (induction tx) (auto simp: mem_keys_def)

lemma map_of_remove: "map_of (filter (\<lambda>(x, _). x \<noteq> a) tx) = (map_of tx)(a := None)"
  by (induction tx) auto

lemma min_key_None [simp]: "min_key cmp ks = None \<longleftrightarrow> ks = []"
  by (cases ks) (auto split: option.split)

lemma min_key_mem: "min_key cmp ks = Some m \<Longrightarrow> m \<in> set ks"
  by (induction ks arbitrary: m) (auto split: option.splits if_splits)

lemma min_key_Some:
  "orders cmp f P \<Longrightarrow> \<forall>k \<in> set ks. P k \<Longrightarrow> min_key cmp ks = Some m \<Longrightarrow>
    m \<in> set ks \<and> (\<forall>k \<in> set ks. f m \<le> f k)"
proof (induction ks arbitrary: m)
  case (Cons a ks)
  show ?case
  proof (cases "min_key cmp ks")
    case (Some n)
    with Cons.IH [OF Cons.prems(1) _ Some] Cons.prems
    have n: "n \<in> set ks" "\<forall>k \<in> set ks. f n \<le> f k" by auto
    then have "cmp n a = Less \<longleftrightarrow> f n < f a" using Cons.prems(1,2) by (simp add: orders_def)
    with n Cons.prems(3) Some show ?thesis by (auto split: if_splits)
  qed (use Cons.prems in auto)
qed simp

lemma mem_redb_sel [simp]:
  "rb_create mem_redb p = Inr []" "rb_begin_read mem_redb db = Inr db"
  "rb_begin_write mem_redb db = Inr db" "rb_open_table mem_redb tx t = Inr tx"
  "rb_get mem_redb tx t k = Inr (map_of tx (t, k))"
  "rb_insert mem_redb tx t k v = Inr (((t, k), v) # tx)"
  "rb_remove mem_redb tx t k = Inr (filter (\<lambda>(x, _). x \<noteq> (t, k)) tx)"
  "rb_range_to mem_redb tx t cmp b = Inr (map Inr (filter (\<lambda>k. cmp k b = Less) (mem_keys tx t)))"
  "rb_first mem_redb tx t cmp = Inr (mem_first tx t cmp)" "rb_commit mem_redb tx = Inr tx"
  by (simp_all add: mem_redb_def)

lemma mem_first_law:
  assumes "mem_first tx t cmp = Some (k, v)" and "orders cmp f (\<lambda>a. map_of tx (t, a) \<noteq> None)"
  shows "map_of tx (t, k) = Some v \<and> (\<forall>k'. map_of tx (t, k') \<noteq> None \<longrightarrow> f k \<le> f k')"
proof -
  from assms(1) have k: "min_key cmp (mem_keys tx t) = Some k" "map_of tx (t, k) = Some v"
    by (auto simp: mem_first_def bind_eq_Some_conv)
  from min_key_Some [OF assms(2) _ k(1)] k(2) show ?thesis by (simp add: mem_keys_present)
qed

lemma mem_first_none:
  assumes "mem_first tx t cmp = None"
  shows "map_of tx (t, k) = None"
proof (cases "mem_keys tx t = []")
  case True
  then show ?thesis using mem_keys_present [of k tx t] by simp
next
  case False
  then obtain m where m: "min_key cmp (mem_keys tx t) = Some m" by fastforce
  then have "m \<in> set (mem_keys tx t)" by (rule min_key_mem)
  with assms m show ?thesis by (auto simp: mem_first_def mem_keys_present)
qed

lemma mem_redb_laws: "redb_laws mem_redb map_of map_of"
  unfolding redb_laws_def mem_redb_sel Inr_inject
  by (intro conjI allI impI)
    (auto simp: map_of_remove mem_first_none mem_keys_present dest: mem_first_law)

lemma mem_redb_reliable: "redb_reliable mem_redb"
  by (simp add: redb_reliable_def)

lemma mem_redb_key_laws: "redb_key_laws mem_redb_keys"
  by (simp add: redb_key_laws_def mem_redb_keys_def)

definition mem_lib :: "(mem, mem) store_lib" where
  "mem_lib = stream_msg_lib.extend std_stream_msg_lib \<lparr>redb = mem_redb, rkeys = mem_redb_keys\<rparr>"

lemma mem_lib_sel [simp]:
  "rounds mem_lib = std_rounds" "crypto mem_lib = std_crypto" "ids mem_lib = std_ids"
  "prost mem_lib = std_prost" "protobuf mem_lib = std_protobuf" "stream mem_lib = std_stream"
  "redb mem_lib = mem_redb" "rkeys mem_lib = mem_redb_keys"
  by (simp_all add: mem_lib_def std_stream_msg_lib_def std_msg_lib_def std_lib_def msg_lib.defs
      lib.defs stream_msg_lib.defs)

lemma mem_msg_laws: "msg_laws mem_lib"
proof -
  have "Vote_to_proto mem_lib = Vote_to_proto std_msg_lib" "Vote_from_proto mem_lib = Vote_from_proto std_msg_lib"
    "Proposal_to_proto mem_lib = Proposal_to_proto std_msg_lib"
    "Proposal_from_proto mem_lib = Proposal_from_proto std_msg_lib"
    unfolding Vote_to_proto_def Vote_from_proto_def Proposal_to_proto_def Proposal_from_proto_def
      mem_lib_sel std_msg_lib_sel by (rule refl)+
  moreover have s: "decode_signature mem_lib = decode_signature std_msg_lib"
    "encode_signature mem_lib = encode_signature std_msg_lib"
    unfolding fun_eq_iff decode_signature_def encode_signature_def mem_lib_sel std_msg_lib_sel by simp_all
  have "ProposalPart_to_proto mem_lib = ProposalPart_to_proto std_msg_lib"
    "ProposalPart_from_proto mem_lib = ProposalPart_from_proto std_msg_lib"
    unfolding ProposalPart_to_proto_def ProposalPart_from_proto_def s mem_lib_sel std_msg_lib_sel
    by (rule refl)+
  ultimately show ?thesis
    using std_msg_laws unfolding msg_laws_def lib_laws_def mem_lib_sel std_msg_lib_sel by metis
qed

lemma mem_store_laws: "store_laws mem_lib map_of map_of"
  by (simp add: store_laws_def mem_msg_laws mem_redb_laws mem_redb_key_laws)

end
