(* ===== verification/Store_Correct.thy ===== *)
theory Store_Correct
  imports Reference_Db
begin

text \<open>
  The invariant of the store as a state machine whose steps are the methods of \<open>Store\<close>, and the
  properties of \<open>app/src/store.rs\<close>.
\<close>

section \<open>The invariant\<close>

definition decided_sound :: "('db, 'tx, 'z) store_lib_scheme \<Rightarrow> contents \<Rightarrow> Height \<Rightarrow> bool" where
  "decided_sound L c h \<longleftrightarrow>
     (case (by_height L c DECIDED_VALUES_TABLE h, by_height L c CERTIFICATES_TABLE h) of
        (None, None) \<Rightarrow> True
      | (Some vb, Some cb) \<Rightarrow> (\<exists>v cert. value_from_bytes (protobuf L) vb = Inr v \<and>
          store_decode_certificate L cb = Inr cert \<and> cert_height cert = h)
      | _ \<Rightarrow> False)"

definition undecided_sound :: "('db, 'tx, 'z) store_lib_scheme \<Rightarrow> contents \<Rightarrow> Height \<times> Round \<Rightarrow> bool" where
  "undecided_sound L c hr \<longleftrightarrow> (\<forall>b. by_round L c UNDECIDED_PROPOSALS_TABLE hr = Some b \<longrightarrow>
     (\<exists>p. ProposedValue_decode L b = Inr p \<and> (prv_height p, prv_round p) = hr))"

text \<open>Keys are well formed, every proposal decodes to one for its key, and a height has a decided
  value exactly when it has a certificate, both of which decode.\<close>

definition store_sound :: "('db, 'tx, 'z) store_lib_scheme \<Rightarrow> contents \<Rightarrow> bool" where
  "store_sound L c \<longleftrightarrow> well_keyed L c \<and> (\<forall>hr. undecided_sound L c hr) \<and> (\<forall>h. decided_sound L c h)"

lemma store_soundD:
  assumes "store_sound L c"
  shows "well_keyed L c" "undecided_sound L c hr" "decided_sound L c h"
  using assms unfolding store_sound_def by blast+

inductive store_step :: "('db, 'tx, 'z) store_lib_scheme \<Rightarrow> 'db Db \<Rightarrow> 'db Db \<Rightarrow> bool" for L where
  put_proposal: "store_undecided_proposal L s p = Inr (u, s') \<Longrightarrow> store_step L s s'"
| put_block: "store_undecided_block_data L s h r d = Inr (u, s') \<Longrightarrow> store_step L s s'"
| put_decided_block: "store_decided_block_data L s h d = Inr (u, s') \<Longrightarrow> store_step L s s'"
| put_decided: "store_decided_value L s c v = Inr (u, s') \<Longrightarrow> store_step L s s'"
| prune: "Store_prune L s h = Inr (x1, s') \<Longrightarrow> store_step L s s'"
| get_decided: "Store_get_decided_value L s h = Inr (x2, s') \<Longrightarrow> store_step L s s'"
| get_undecided: "Store_get_undecided_proposal L s h r = Inr (x3, s') \<Longrightarrow> store_step L s s'"
| get_block: "Store_get_block_data L s h r = Inr (x4, s') \<Longrightarrow> store_step L s s'"
| get_min: "Store_min_decided_value_height L s = (x5, s') \<Longrightarrow> store_step L s s'"

lemma reads_keep_handle:
  "Db_get_decided_value L s h = Inr (x2, s') \<Longrightarrow> db_handle s' = db_handle s"
  "Db_get_undecided_proposal L s h r = Inr (x3, s') \<Longrightarrow> db_handle s' = db_handle s"
  "Db_get_block_data L s h r = Inr (x4, s') \<Longrightarrow> db_handle s' = db_handle s"
  "Store_min_decided_value_height L s = (x5, s') \<Longrightarrow> db_handle s' = db_handle s"
proof -
  show "Db_get_decided_value L s h = Inr (x2, s') \<Longrightarrow> db_handle s' = db_handle s"
    by (auto simp: Db_get_decided_value_def Let_def)
  show "Db_get_undecided_proposal L s h r = Inr (x3, s') \<Longrightarrow> db_handle s' = db_handle s"
    by (auto simp: Db_get_undecided_proposal_def)
  show "Db_get_block_data L s h r = Inr (x4, s') \<Longrightarrow> db_handle s' = db_handle s"
    by (auto simp: Db_get_block_data_def split: option.splits)
  have "Db_min_decided_value_height L s = Inr (x, s') \<Longrightarrow> db_handle s' = db_handle s" for x
    by (auto simp: Db_min_decided_value_height_def split: option.splits sum.splits)
  then show "Store_min_decided_value_height L s = (x5, s') \<Longrightarrow> db_handle s' = db_handle s"
    by (auto simp: Store_min_decided_value_height_def split: sum.splits)
qed

lemma remove_keys_contents:
  assumes "store_laws L \<alpha> \<beta>"
  shows "remove_keys L tx ks = Inr tx' \<Longrightarrow> \<beta> tx' = (\<lambda>x. if x \<in> set ks then None else \<beta> tx x)"
proof (induction ks arbitrary: tx)
  case (Cons a ks)
  obtain t k where a: "a = (t, k)" by (cases a)
  with Cons.prems obtain tx1 where 1: "rb_remove (redb L) tx t k = Inr tx1" "remove_keys L tx1 ks = Inr tx'"
    by (auto simp: and_then_Inr_iff)
  from redb_remove [OF store_lawsD(5) [OF assms] 1(1)] Cons.IH [OF 1(2)] a show ?case by auto
qed simp

text \<open>Whatever range scans report, pruning removes decided values with their certificates.\<close>

lemma Db_prune_contents:
  assumes "store_laws L \<alpha> \<beta>" and "Db_prune L db retain = Inr (x, db')"
  shows "\<exists>ks hs. \<alpha> (db_handle db') = (\<lambda>(t, k). if (t, k) \<in> ks \<or>
      (\<exists>h \<in> set hs. k = height_key (rkeys L) h \<and>
        t \<in> {DECIDED_VALUES_TABLE, CERTIFICATES_TABLE, DECIDED_BLOCK_DATA_TABLE})
      then None else \<alpha> (db_handle db) (t, k)) \<and>
    fst ` ks \<subseteq> {UNDECIDED_PROPOSALS_TABLE, UNDECIDED_BLOCK_DATA_TABLE}"
proof -
  note B = store_lawsD(5) [OF assms(1)] and rm = remove_keys_contents [OF assms(1)]
  let ?u = "undecided_key (rounds L) (rkeys L)" and ?h = "height_key (rkeys L)"
  let ?rm = "\<lambda>hs. concat (map (\<lambda>h. [(DECIDED_VALUES_TABLE, ?h h), (CERTIFICATES_TABLE, ?h h),
    (DECIDED_BLOCK_DATA_TABLE, ?h h)]) hs)"
  from assms(2) obtain tx tx1 ps tx2 tx3 bs tx4 tx5 tx6 tx7 hs tx8 h
    where o: "rb_begin_write (redb L) (db_handle db) = Inr tx"
      "rb_open_table (redb L) tx UNDECIDED_PROPOSALS_TABLE = Inr tx1"
      "remove_keys L tx1 (map (\<lambda>k. (UNDECIDED_PROPOSALS_TABLE, ?u k)) ps) = Inr tx2"
      "rb_open_table (redb L) tx2 UNDECIDED_BLOCK_DATA_TABLE = Inr tx3"
      "remove_keys L tx3 (map (\<lambda>k. (UNDECIDED_BLOCK_DATA_TABLE, ?u k)) bs) = Inr tx4"
      "rb_open_table (redb L) tx4 DECIDED_VALUES_TABLE = Inr tx5"
      "rb_open_table (redb L) tx5 CERTIFICATES_TABLE = Inr tx6"
      "rb_open_table (redb L) tx6 DECIDED_BLOCK_DATA_TABLE = Inr tx7"
      "remove_keys L tx7 (?rm hs) = Inr tx8" "rb_commit (redb L) tx8 = Inr h" "db_handle db' = h"
    unfolding Db_prune_def and_then_Inr_iff res_conv_Inr by fastforce
  have b: "\<beta> tx1 = \<alpha> (db_handle db)" "\<beta> tx3 = \<beta> tx2" "\<beta> tx7 = \<beta> tx4" "\<alpha> h = \<beta> tx8"
    using o redb_begin_write [OF B] redb_open_table [OF B] redb_commit [OF B] by metis+
  let ?ks = "(\<lambda>k. (UNDECIDED_PROPOSALS_TABLE, ?u k)) ` set ps \<union> (\<lambda>k. (UNDECIDED_BLOCK_DATA_TABLE, ?u k)) ` set bs"
  have "\<alpha> h (t, k) = (if (t, k) \<in> ?ks \<or> (\<exists>h \<in> set hs. k = ?h h \<and>
      t \<in> {DECIDED_VALUES_TABLE, CERTIFICATES_TABLE, DECIDED_BLOCK_DATA_TABLE})
      then None else \<alpha> (db_handle db) (t, k))" for t k
    unfolding b(4) rm [OF o(9)] b(3) rm [OF o(5)] b(2) rm [OF o(3)] b(1) by auto
  then show ?thesis
    by (intro exI [of _ ?ks] exI [of _ hs]) (auto simp: o(11))
qed

lemma store_sound_restrict:
  assumes "store_sound L c" and "\<And>x. d x \<noteq> None \<Longrightarrow> d x = c x"
    and "\<And>h. by_height L d DECIDED_VALUES_TABLE h = None \<longleftrightarrow> by_height L d CERTIFICATES_TABLE h = None"
  shows "store_sound L d"
proof -
  have "undecided_sound L d hr" for hr
  proof -
    have "undecided_sound L c hr" using assms(1) by (rule store_soundD)
    then show ?thesis
      using assms(2) [of "(UNDECIDED_PROPOSALS_TABLE, undecided_key (rounds L) (rkeys L) hr)"]
      by (auto simp: undecided_sound_def by_round_def)
  qed
  moreover have "decided_sound L d h" for h
  proof -
    have "decided_sound L c h" using assms(1) by (simp add: store_sound_def)
    then show ?thesis
      using assms(3) [of h] assms(2) [of "(DECIDED_VALUES_TABLE, height_key (rkeys L) h)"]
        assms(2) [of "(CERTIFICATES_TABLE, height_key (rkeys L) h)"]
      by (auto simp: decided_sound_def by_height_def split: option.splits)
  qed
  ultimately show ?thesis
    using assms(1) well_keyed_restrict [of L c d] assms(2) by (auto simp: store_sound_def)
qed

lemma decided_sound_cong:
  "by_height L c DECIDED_VALUES_TABLE h = by_height L d DECIDED_VALUES_TABLE h \<Longrightarrow>
   by_height L c CERTIFICATES_TABLE h = by_height L d CERTIFICATES_TABLE h \<Longrightarrow>
   decided_sound L c h = decided_sound L d h"
  by (simp add: decided_sound_def)

lemma undecided_sound_cong:
  "by_round L c UNDECIDED_PROPOSALS_TABLE hr = by_round L d UNDECIDED_PROPOSALS_TABLE hr \<Longrightarrow>
   undecided_sound L c hr = undecided_sound L d hr"
  by (simp add: undecided_sound_def)

lemma insert_if_absent_other:
  assumes "store_laws L \<alpha> \<beta>" and "insert_if_absent L db t k v = Inr h" and "t' \<noteq> t"
  shows "by_height L (\<alpha> h) t' x = by_height L (\<alpha> (db_handle db)) t' x"
    "by_round L (\<alpha> h) t' y = by_round L (\<alpha> (db_handle db)) t' y"
  using assms(3) by (simp_all add: insert_if_absent_contents [OF assms(1,2)] by_height_def by_round_def)

lemma store_sound_other_tables:
  assumes "store_sound L c" and "well_keyed L d"
    and "\<And>h. by_height L d DECIDED_VALUES_TABLE h = by_height L c DECIDED_VALUES_TABLE h"
    and "\<And>h. by_height L d CERTIFICATES_TABLE h = by_height L c CERTIFICATES_TABLE h"
    and "\<And>hr. by_round L d UNDECIDED_PROPOSALS_TABLE hr = by_round L c UNDECIDED_PROPOSALS_TABLE hr"
  shows "store_sound L d"
  unfolding store_sound_def
  using assms store_soundD [OF assms(1)] decided_sound_cong [of L d _ c] undecided_sound_cong [of L d _ c]
  by blast

lemma store_sound_empty: "store_sound L (\<lambda>_. None)"
  by (simp add: store_sound_def well_keyed_empty undecided_sound_def decided_sound_def by_round_def
      by_height_def)

lemma store_step_sound:
  assumes "store_laws L \<alpha> \<beta>"
  shows "store_step L s s' \<Longrightarrow> store_sound L (\<alpha> (db_handle s)) \<Longrightarrow> store_sound L (\<alpha> (db_handle s'))"
proof (induction rule: store_step.induct)
  case (put_proposal s p u s')
  note K = store_lawsD(4,3) [OF assms]
  from put_proposal(1) have run: "Db_insert_undecided_proposal L s p = Inr (u, s')"
    by (simp add: store_undecided_proposal_def)
  from Db_insert_undecided_proposal_Inr [OF run] obtain b where b: "ProposedValue_encode L p = Inr b"
    and ins: "insert_if_absent L s UNDECIDED_PROPOSALS_TABLE
      (undecided_key (rounds L) (rkeys L) (prv_height p, prv_round p)) b = Inr (db_handle s')"
    by blast
  have dec: "ProposedValue_decode L b = Inr p"
    using ProposedValue_encode_Inr [OF store_lawsD(2) [OF assms] b] by simp
  show ?case
    unfolding store_sound_def
  proof (intro conjI allI)
    show "well_keyed L (\<alpha> (db_handle s'))"
      using put_proposal(2) writes_well_keyed(1) [OF assms _ run] by (simp add: store_sound_def)
    fix hr show "undecided_sound L (\<alpha> (db_handle s')) hr"
      using store_soundD(2) [OF put_proposal(2), of hr] insert_if_absent_contents [OF assms ins] dec
      by (auto simp: undecided_sound_def by_round_def undecided_key_inject K)
  next
    fix h show "decided_sound L (\<alpha> (db_handle s')) h"
      using store_soundD(3) [OF put_proposal(2), of h]
        decided_sound_cong [OF insert_if_absent_other(1,1) [OF assms ins]] by simp
  qed
next
  case (put_block s h r d u s')
  then have run: "Db_insert_undecided_block_data L s h r d = Inr (u, s')"
    by (simp add: store_undecided_block_data_def)
  then have ins: "insert_if_absent L s UNDECIDED_BLOCK_DATA_TABLE
      (undecided_key (rounds L) (rkeys L) (h, r)) d = Inr (db_handle s')"
    by (auto simp: Db_insert_undecided_block_data_def Let_def)
  show ?case
    using writes_well_keyed(2) [OF assms store_soundD(1) [OF put_block(2)] run]
    by (rule store_sound_other_tables [OF put_block(2)]) (simp_all add: insert_if_absent_other [OF assms ins])
next
  case (put_decided_block s h d u s')
  then have run: "Db_insert_decided_block_data L s h d = Inr (u, s')"
    by (simp add: store_decided_block_data_def)
  then have ins: "insert_if_absent L s DECIDED_BLOCK_DATA_TABLE (height_key (rkeys L) h) d
      = Inr (db_handle s')"
    by (auto simp: Db_insert_decided_block_data_def Let_def)
  show ?case
    using writes_well_keyed(3) [OF assms store_soundD(1) [OF put_decided_block(2)] run]
    by (rule store_sound_other_tables [OF put_decided_block(2)]) (simp_all add: insert_if_absent_other [OF assms ins])
next
  case (put_decided s c v u s')
  note K = store_lawsD(4) [OF assms]
  let ?dv = "\<lparr>dv_value = v, dv_certificate = c\<rparr>"
  from put_decided(1) have run: "Db_insert_decided_value L s ?dv = Inr (u, s')"
    by (simp add: store_decided_value_def)
  from Db_insert_decided_value_contents [OF assms run] obtain vb cb
    where v: "value_to_bytes (protobuf L) v = Inr vb" and c: "store_encode_certificate L c = Inr cb"
    and \<alpha>: "\<alpha> (db_handle s') = (\<alpha> (db_handle s))
      ((DECIDED_VALUES_TABLE, height_key (rkeys L) (cert_height c)) \<mapsto> vb,
       (CERTIFICATES_TABLE, height_key (rkeys L) (cert_height c)) \<mapsto> cb)"
    by auto
  have "value_from_bytes (protobuf L) vb = Inr v"
    using value_bytes_roundtrip [OF store_lawsD(1) [OF assms], of v] v by auto
  moreover have "cert_round c \<noteq> RNil"
  proof
    assume "cert_round c = RNil"
    with c store_lawsD(3) [OF assms] show False
      by (simp add: store_encode_certificate_def encode_certificate_def law_simps)
  qed
  then have "store_decode_certificate L cb = Inr c"
    using certificate_codec.decodes [OF store_lawsD(2) [OF assms] _ c] by simp
  ultimately have "decided_sound L (\<alpha> (db_handle s')) (cert_height c)"
    by (simp add: decided_sound_def by_height_def \<alpha>)
  moreover have "decided_sound L (\<alpha> (db_handle s')) h" if "h \<noteq> cert_height c" for h
    using store_soundD(3) [OF put_decided(2), of h] that
      decided_sound_cong [of L "\<alpha> (db_handle s')" h "\<alpha> (db_handle s)"]
    by (simp add: \<alpha> by_height_def height_key_inject K)
  ultimately have "decided_sound L (\<alpha> (db_handle s')) h" for h by (cases "h = cert_height c") auto
  moreover have "undecided_sound L (\<alpha> (db_handle s')) hr" for hr
    using store_soundD(2) [OF put_decided(2)] by (simp add: undecided_sound_def by_round_def \<alpha>)
  ultimately show ?case
    using writes_well_keyed(4) [OF assms store_soundD(1) [OF put_decided(2)] run]
    unfolding store_sound_def by blast
next
  case (prune s h x s')
  then have run: "Db_prune L s h = Inr (x, s')" by (simp add: Store_prune_def)
  from Db_prune_contents [OF assms run] obtain ks hs
    where \<alpha>: "\<alpha> (db_handle s') = (\<lambda>(t, k). if (t, k) \<in> ks \<or> (\<exists>h \<in> set hs. k = height_key (rkeys L) h \<and>
        t \<in> {DECIDED_VALUES_TABLE, CERTIFICATES_TABLE, DECIDED_BLOCK_DATA_TABLE})
      then None else \<alpha> (db_handle s) (t, k))"
    and ks: "fst ` ks \<subseteq> {UNDECIDED_PROPOSALS_TABLE, UNDECIDED_BLOCK_DATA_TABLE}"
    by blast
  have nk: "(DECIDED_VALUES_TABLE, k) \<notin> ks" "(CERTIFICATES_TABLE, k) \<notin> ks" for k
    using ks by force+
  show ?case
  proof (rule store_sound_restrict [OF prune(2)])
    fix k have "decided_sound L (\<alpha> (db_handle s)) k" using prune(2) by (simp add: store_sound_def)
    then show "by_height L (\<alpha> (db_handle s')) DECIDED_VALUES_TABLE k = None \<longleftrightarrow>
        by_height L (\<alpha> (db_handle s')) CERTIFICATES_TABLE k = None"
      by (auto simp: \<alpha> nk by_height_def decided_sound_def split: option.splits)
  qed (auto simp: \<alpha> split: if_splits)
qed (simp_all add: Store_get_decided_value_def Store_get_undecided_proposal_def Store_get_block_data_def
    reads_keep_handle)

section \<open>Properties\<close>

text \<open>Whatever methods of the store run, in any order, the tables stay sound: their keys are well
  formed, every undecided proposal decodes to a proposal of the height and round it is stored under,
  and a height has a decided value exactly when it has a certificate for that height, both decodable.\<close>

theorem store_stays_sound:
  assumes "store_laws L \<alpha> \<beta>" and "(store_step L)\<^sup>*\<^sup>* s s'" and "store_sound L (\<alpha> (db_handle s))"
  shows "store_sound L (\<alpha> (db_handle s'))"
  using assms(2,3) by (induction rule: rtranclp_induct) (auto dest: store_step_sound [OF assms(1)])

lemma each_store_undecided_proposal:
  "each (store_undecided_proposal L) s ps = Inr s' \<longleftrightarrow> each (Db_insert_undecided_proposal L) s ps = Inr s'"
  by (induction ps arbitrary: s) (auto simp: store_undecided_proposal_def and_then_Inr_iff)

lemma store_undecided_proposal_ok:
  assumes "store_laws L \<alpha> \<beta>" and "redb_reliable (redb L)" and "prv_round p \<noteq> RNil"
  shows "\<exists>s'. store_undecided_proposal L s p = Inr ((), s')"
proof -
  obtain b where b: "ProposedValue_encode L p = Inr b"
    using proposed_value_codec.encodes [OF store_lawsD(2) [OF assms(1)] assms(3)] by blast
  obtain h where "insert_if_absent L s UNDECIDED_PROPOSALS_TABLE
      (undecided_key (rounds L) (rkeys L) (prv_height p, prv_round p)) b = Inr h"
    using insert_if_absent_ok [OF assms(2)] by blast
  with b show ?thesis by (simp add: store_undecided_proposal_def Db_insert_undecided_proposal_def)
qed

text \<open>For a database that does not fail, storing any proposals whose rounds are not nil succeeds,
  and reading a height and round that had no proposal before gives the first proposal stored for
  them: later proposals for the same height and round never replace it.\<close>

theorem first_proposal_wins:
  assumes "store_laws L \<alpha> \<beta>" and "redb_reliable (redb L)" and "\<forall>p \<in> set ps. prv_round p \<noteq> RNil"
    and "by_round L (\<alpha> (db_handle s)) UNDECIDED_PROPOSALS_TABLE (h, r) = None"
  shows "\<exists>s' s''. each (store_undecided_proposal L) s ps = Inr s' \<and>
    Store_get_undecided_proposal L s' h r =
      Inr (find (\<lambda>p. (prv_height p, prv_round p) = (h, r)) ps, s'')"
proof -
  obtain s' where run: "each (store_undecided_proposal L) s ps = Inr s'"
    using each_ok [of ps "store_undecided_proposal L" s] assms(3)
      store_undecided_proposal_ok [OF assms(1,2)] by auto
  let ?f = "find (\<lambda>p. (prv_height p, prv_round p) = (h, r)) ps"
  from undecided_proposals.first_wins [OF assms(1), of s ps s' "(h, r)"] run assms(4)
  have e: "by_round L (\<alpha> (db_handle s')) UNDECIDED_PROPOSALS_TABLE (h, r)
      = Option.bind ?f (\<lambda>p. ok_opt (ProposedValue_encode L p))"
    by (simp add: each_store_undecided_proposal)
  have "\<exists>s''. Db_get_undecided_proposal L s' h r = Inr (?f, s'')"
  proof (cases ?f)
    case None
    with Db_get_undecided_proposal_reliable [OF assms(1,2) e] show ?thesis by auto
  next
    case (Some p)
    then have "p \<in> set ps" by (auto simp: find_Some_iff)
    with assms(3) obtain b where "ProposedValue_encode L p = Inr b" "ProposedValue_decode L b = Inr p"
      using proposed_value_codec.to_from [OF store_lawsD(2) [OF assms(1)]] by blast
    with Db_get_undecided_proposal_reliable [OF assms(1,2) e] Some show ?thesis by auto
  qed
  with run show ?thesis by (auto simp: Store_get_undecided_proposal_def)
qed

text \<open>Storing a decided value with its certificate and reading its height gives both back,
  whatever the height held before (a decision replaces an earlier one).\<close>

theorem decided_value_roundtrip:
  assumes "store_laws L \<alpha> \<beta>" and "redb_reliable (redb L)" and "cert_round c \<noteq> RNil"
  shows "\<exists>s' s''. store_decided_value L s c v = Inr ((), s') \<and>
    Store_get_decided_value L s' (cert_height c) =
      Inr (Some \<lparr>dv_value = v, dv_certificate = c\<rparr>, s'')"
proof -
  let ?dv = "\<lparr>dv_value = v, dv_certificate = c\<rparr>"
  obtain s' where run: "Db_insert_decided_value L s ?dv = Inr ((), s')"
    using Db_insert_decided_value_reliable [OF assms(1,2), of ?dv] assms(3) by auto
  from Db_insert_decided_value_contents [OF assms(1) run] obtain vb cb
    where e: "value_to_bytes (protobuf L) v = Inr vb" "store_encode_certificate L c = Inr cb"
    and \<alpha>: "\<alpha> (db_handle s') = (\<alpha> (db_handle s))
      ((DECIDED_VALUES_TABLE, height_key (rkeys L) (cert_height c)) \<mapsto> vb,
       (CERTIFICATES_TABLE, height_key (rkeys L) (cert_height c)) \<mapsto> cb)"
    by auto
  have "value_from_bytes (protobuf L) vb = Inr v"
    using value_bytes_roundtrip [OF store_lawsD(1) [OF assms(1)], of v] e(1) by auto
  moreover have "store_decode_certificate L cb = Inr c"
    using certificate_codec.decodes [OF store_lawsD(2) [OF assms(1)] assms(3) e(2)] .
  moreover have "by_height L (\<alpha> (db_handle s')) DECIDED_VALUES_TABLE (cert_height c) = map_option fst (Some (vb, cb))"
    "by_height L (\<alpha> (db_handle s')) CERTIFICATES_TABLE (cert_height c) = map_option snd (Some (vb, cb))"
    by (simp_all add: by_height_def \<alpha>)
  ultimately have "\<exists>m. Db_get_decided_value L s' (cert_height c) = Inr (Some ?dv, s'\<lparr>db_metrics := m\<rparr>)"
    using Db_get_decided_value_reliable [OF assms(1,2), of s' "cert_height c" "Some (vb, cb)" v c] by simp
  with run show ?thesis by (auto simp: store_decided_value_def Store_get_decided_value_def)
qed

text \<open>On a well-keyed store that does not fail, pruning removes exactly the undecided proposals and
  block data of heights below the bound, whatever their round, and the value, certificate and block
  data of the decided heights below it; everything else is kept, and the heights reported are the
  decided ones that were removed. (Block data of a height that was never decided stays.)\<close>

theorem prune_exact:
  assumes "store_laws L \<alpha> \<beta>" and "redb_reliable (redb L)" and "well_keyed L (\<alpha> (db_handle s))"
  shows "\<exists>pruned s'. Store_prune L s retain = Inr (pruned, s') \<and>
    set pruned = {h. by_height L (\<alpha> (db_handle s)) DECIDED_VALUES_TABLE h \<noteq> None \<and> h < retain} \<and>
    pruned_contents L (\<alpha> (db_handle s)) retain (\<alpha> (db_handle s'))"
  using Db_prune_reliable [OF assms, of retain] by (auto simp: Store_prune_def)

text \<open>On a well-keyed store that does not fail, the earliest height reported is the least height
  with a decided value, and none is reported exactly when there is no decided value.\<close>

theorem min_decided_height:
  assumes "store_laws L \<alpha> \<beta>" and "redb_reliable (redb L)" and "well_keyed L (\<alpha> (db_handle s))"
  shows "case fst (Store_min_decided_value_height L s) of
      None \<Rightarrow> \<forall>h. by_height L (\<alpha> (db_handle s)) DECIDED_VALUES_TABLE h = None
    | Some h \<Rightarrow> by_height L (\<alpha> (db_handle s)) DECIDED_VALUES_TABLE h \<noteq> None \<and>
        (\<forall>k. by_height L (\<alpha> (db_handle s)) DECIDED_VALUES_TABLE k \<noteq> None \<longrightarrow> h \<le> k)"
proof -
  from Db_min_decided_value_height_reliable [OF assms] obtain x m
    where "Db_min_decided_value_height L s = Inr (x, s\<lparr>db_metrics := m\<rparr>)"
      and "case x of None \<Rightarrow> {h. by_height L (\<alpha> (db_handle s)) DECIDED_VALUES_TABLE h \<noteq> None} = {}
        | Some h \<Rightarrow> h \<in> {h. by_height L (\<alpha> (db_handle s)) DECIDED_VALUES_TABLE h \<noteq> None} \<and>
          (\<forall>k \<in> {h. by_height L (\<alpha> (db_handle s)) DECIDED_VALUES_TABLE h \<noteq> None}. h \<le> k)"
    by blast
  then show ?thesis by (cases x) (auto simp: Store_min_decided_value_height_def)
qed

section \<open>Witnesses\<close>

definition empty_store :: "mem Db" where
  "empty_store = \<lparr>db_handle = [], db_metrics = DbMetrics_new\<rparr>"

lemma empty_store_contents [simp]: "map_of (db_handle empty_store) = Map.empty"
  by (simp add: empty_store_def)

definition sample_proposal :: "u8 \<Rightarrow> ProposedValue" where
  "sample_proposal b = \<lparr>prv_height = Height 3, prv_round = RSome 1, prv_valid_round = RNil,
     prv_proposer = Address 7, prv_value = Value_new mem_lib [b], prv_validity = Valid\<rparr>"

definition sample_certificate :: CommitCertificate where
  "sample_certificate = \<lparr>cert_height = Height 3, cert_round = RSome 1, cert_value_id = ValueId 5,
     cert_aggregated_signature = \<lparr>agg_signatures = []\<rparr>\<rparr>"

theorem first_proposal_wins_witness:
  "\<exists>s' s''. each (store_undecided_proposal mem_lib) empty_store [sample_proposal 1, sample_proposal 2] = Inr s' \<and>
    Store_get_undecided_proposal mem_lib s' (Height 3) (RSome 1) = Inr (Some (sample_proposal 1), s'')"
  using first_proposal_wins [OF mem_store_laws, of "[sample_proposal 1, sample_proposal 2]" empty_store
      "Height 3" "RSome 1"]
  by (simp add: mem_redb_reliable by_round_def sample_proposal_def)

theorem decided_value_roundtrip_witness:
  "\<exists>s' s''. store_decided_value mem_lib empty_store sample_certificate (Value_new mem_lib [1]) = Inr ((), s') \<and>
    Store_get_decided_value mem_lib s' (Height 3) =
      Inr (Some \<lparr>dv_value = Value_new mem_lib [1], dv_certificate = sample_certificate\<rparr>, s'')"
  using decided_value_roundtrip [OF mem_store_laws, of sample_certificate empty_store "Value_new mem_lib [1]"]
  by (simp add: mem_redb_reliable sample_certificate_def)

lemma decided_store:
  "\<exists>s. store_step mem_lib empty_store s \<and> well_keyed mem_lib (map_of (db_handle s)) \<and>
    (\<forall>h. by_height mem_lib (map_of (db_handle s)) DECIDED_VALUES_TABLE h \<noteq> None \<longleftrightarrow> h = Height 3)"
proof -
  let ?dv = "\<lparr>dv_value = Value_new mem_lib [1], dv_certificate = sample_certificate\<rparr>"
  obtain s where run: "Db_insert_decided_value mem_lib empty_store ?dv = Inr ((), s)"
    using Db_insert_decided_value_reliable [OF mem_store_laws, of ?dv empty_store]
    by (auto simp: mem_redb_reliable sample_certificate_def)
  from Db_insert_decided_value_contents [OF mem_store_laws run]
  have "\<forall>h. by_height mem_lib (map_of (db_handle s)) DECIDED_VALUES_TABLE h \<noteq> None \<longleftrightarrow> h = Height 3"
    by (auto simp: by_height_def height_key_inject mem_redb_key_laws sample_certificate_def split: if_splits)
  moreover have "well_keyed mem_lib (map_of (db_handle s))"
    by (rule writes_well_keyed(4) [OF mem_store_laws _ run]) (simp add: well_keyed_empty)
  moreover have "store_step mem_lib empty_store s"
    using run by (intro put_decided) (simp add: store_decided_value_def)
  ultimately show ?thesis by blast
qed

theorem store_stays_sound_witness:
  "\<exists>s. (store_step mem_lib)\<^sup>*\<^sup>* empty_store s \<and> store_sound mem_lib (map_of (db_handle s)) \<and>
    by_height mem_lib (map_of (db_handle s)) DECIDED_VALUES_TABLE (Height 3) \<noteq> None"
proof -
  obtain s where s: "store_step mem_lib empty_store s"
    "by_height mem_lib (map_of (db_handle s)) DECIDED_VALUES_TABLE (Height 3) \<noteq> None"
    using decided_store by blast
  with store_stays_sound [OF mem_store_laws r_into_rtranclp [of "store_step mem_lib", OF s(1)]]
  show ?thesis by (auto simp: store_sound_empty)
qed

theorem prune_exact_witness:
  "\<exists>s pruned s'. Store_prune mem_lib s (Height 4) = Inr (pruned, s') \<and> set pruned = {Height 3}"
proof -
  obtain s :: "mem Db" where wk: "well_keyed mem_lib (map_of (db_handle s))"
    and d: "\<forall>h. by_height mem_lib (map_of (db_handle s)) DECIDED_VALUES_TABLE h \<noteq> None \<longleftrightarrow> h = Height 3"
    using decided_store by blast
  have "{h. by_height mem_lib (map_of (db_handle s)) DECIDED_VALUES_TABLE h \<noteq> None \<and> h < Height 4}
      = {Height 3}"
    using d by (auto simp: less_Height_def)
  with prune_exact [OF mem_store_laws mem_redb_reliable [folded mem_lib_sel(7)] wk, of "Height 4"]
  show ?thesis by (simp only:) blast
qed

theorem min_decided_height_witness:
  "\<exists>s. fst (Store_min_decided_value_height mem_lib s) = Some (Height 3)"
proof -
  obtain s :: "mem Db" where "well_keyed mem_lib (map_of (db_handle s))"
    and d: "\<forall>h. by_height mem_lib (map_of (db_handle s)) DECIDED_VALUES_TABLE h \<noteq> None \<longleftrightarrow> h = Height 3"
    using decided_store by blast
  then have "fst (Store_min_decided_value_height mem_lib s) = Some (Height 3)"
    using min_decided_height [OF mem_store_laws, of s] mem_redb_reliable
    by (cases "fst (Store_min_decided_value_height mem_lib s)") auto
  then show ?thesis ..
qed

end
