(* ===== verification/Engine.thy ===== *)
theory Engine
  imports Store
begin

text \<open>
  The engine crate: \<open>engine/src/engine.rs\<close>, \<open>engine_rpc.rs\<close>, \<open>ethereum_rpc.rs\<close>, \<open>auth.rs\<close> and
  \<open>json_structures.rs\<close>, the client of the execution layer. The execution layer itself, HTTP, JSON
  and JWT are parameters; the payload types are those of alloy.
\<close>

section \<open>Errors\<close>

text \<open>\<open>eyre::Report\<close>: a message, or the error of a library or of the store it was made from.\<close>

datatype Report = Eyre string | LibError string | FromStoreError StoreError

section \<open>Types of alloy and of the types crate\<close>

type_synonym B256 = "256 word"
type_synonym BlockHash = B256
type_synonym BlockNumber = u64
type_synonym BlockTimestamp = u64
type_synonym U256 = "256 word"
type_synonym PayloadId = "64 word"
type_synonym Withdrawal = bytes

record ExecutionPayloadV1 =
  v1_parent_hash :: B256
  v1_fee_recipient :: Address
  v1_state_root :: B256
  v1_receipts_root :: B256
  v1_logs_bloom :: bytes
  v1_prev_randao :: B256
  v1_block_number :: u64
  v1_gas_limit :: u64
  v1_gas_used :: u64
  v1_timestamp :: u64
  v1_extra_data :: bytes
  v1_base_fee_per_gas :: U256
  v1_block_hash :: B256
  v1_transactions :: "bytes list"

record ExecutionPayloadV2 =
  v2_payload_inner :: ExecutionPayloadV1
  v2_withdrawals :: "Withdrawal list"

record ExecutionPayloadV3 =
  v3_payload_inner :: ExecutionPayloadV2
  v3_blob_gas_used :: u64
  v3_excess_blob_gas :: u64

record ExecutionPayloadEnvelopeV3 = execution_payload :: ExecutionPayloadV3

datatype PayloadStatusEnum = PS_Valid | PS_Invalid string | PS_Syncing | PS_Accepted

record PayloadStatus =
  status :: PayloadStatusEnum
  latest_valid_hash :: "BlockHash option"

record ForkchoiceUpdated =
  payload_status :: PayloadStatus
  payload_id :: "PayloadId option"

record ForkchoiceState =
  head_block_hash :: BlockHash
  safe_block_hash :: BlockHash
  finalized_block_hash :: BlockHash

record PayloadAttributes =
  pa_timestamp :: u64
  pa_prev_randao :: B256
  pa_suggested_fee_recipient :: Address
  pa_withdrawals :: "Withdrawal list option"
  pa_parent_beacon_block_root :: "BlockHash option"

section \<open>\<open>json_structures.rs\<close>\<close>

record 'j JsonRequestBody =
  rq_jsonrpc :: string
  rq_method :: string
  rq_params :: 'j
  rq_id :: 'j

record JsonError =
  je_code :: i64
  je_message :: string

record 'j JsonResponseBody =
  rs_jsonrpc :: string
  rs_error :: "JsonError option"
  rs_result :: 'j
  rs_id :: 'j

record JsonExecutionPayloadV3 =
  jp_parent_hash :: B256
  jp_fee_recipient :: Address
  jp_state_root :: B256
  jp_receipts_root :: B256
  jp_logs_bloom :: bytes
  jp_prev_randao :: B256
  jp_block_number :: BlockNumber
  jp_gas_limit :: u64
  jp_gas_used :: u64
  jp_timestamp :: BlockTimestamp
  jp_extra_data :: bytes
  jp_base_fee_per_gas :: U256
  jp_block_hash :: B256
  jp_transactions :: "bytes list"
  jp_withdrawals :: "Withdrawal list"
  jp_blob_gas_used :: u64
  jp_excess_blob_gas :: u64

definition JsonExecutionPayloadV3_from :: "ExecutionPayloadV3 \<Rightarrow> JsonExecutionPayloadV3" where
  "JsonExecutionPayloadV3_from payload =
     (let v2 = v3_payload_inner payload; v1 = v2_payload_inner v2 in
      \<lparr>jp_parent_hash = v1_parent_hash v1,
       jp_fee_recipient = v1_fee_recipient v1,
       jp_state_root = v1_state_root v1,
       jp_receipts_root = v1_receipts_root v1,
       jp_logs_bloom = v1_logs_bloom v1,
       jp_prev_randao = v1_prev_randao v1,
       jp_block_number = v1_block_number v1,
       jp_gas_limit = v1_gas_limit v1,
       jp_gas_used = v1_gas_used v1,
       jp_timestamp = v1_timestamp v1,
       jp_extra_data = v1_extra_data v1,
       jp_base_fee_per_gas = v1_base_fee_per_gas v1,
       jp_block_hash = v1_block_hash v1,
       jp_transactions = v1_transactions v1,
       jp_withdrawals = v2_withdrawals v2,
       jp_blob_gas_used = v3_blob_gas_used payload,
       jp_excess_blob_gas = v3_excess_blob_gas payload\<rparr>)"

record ExecutionBlock =
  eb_block_hash :: BlockHash
  eb_block_number :: BlockNumber
  eb_parent_hash :: BlockHash
  eb_timestamp :: BlockTimestamp
  eb_prev_randao :: B256

section \<open>The outside world\<close>

text \<open>
  \<open>'el\<close> is the state of the execution layer and of the clock, \<open>'j\<close> a \<open>serde_json::Value\<close>.
  \<open>http_post\<close> sends a body to a URL with a bearer token, if any, and gives the response body or
  the error of sending, of the HTTP status or of reading it.
\<close>

record ('j, 'el) engine_lib =
  http_post :: "string \<Rightarrow> nat \<Rightarrow> string option \<Rightarrow> 'j JsonRequestBody \<Rightarrow> 'el \<Rightarrow>
    (string + 'j JsonResponseBody) \<times> 'el"
  current_timestamp :: "'el \<Rightarrow> u64"
  jwt_encode :: "bytes \<Rightarrow> u64 \<Rightarrow> string + string"
  json_one :: 'j
  json_empty :: 'j
  json_capabilities :: "string list \<Rightarrow> 'j"
  json_forkchoice :: "ForkchoiceState \<Rightarrow> PayloadAttributes option \<Rightarrow> 'j"
  json_payload_id :: "PayloadId \<Rightarrow> 'j"
  json_new_payload :: "JsonExecutionPayloadV3 \<Rightarrow> B256 list \<Rightarrow> BlockHash \<Rightarrow> 'j"
  json_block_by_number :: "string \<Rightarrow> bool \<Rightarrow> 'j"
  from_capabilities :: "'j \<Rightarrow> string + string set"
  from_forkchoice_updated :: "'j \<Rightarrow> string + ForkchoiceUpdated"
  from_envelope :: "'j \<Rightarrow> string + ExecutionPayloadEnvelopeV3"
  from_payload_status :: "'j \<Rightarrow> string + PayloadStatus"
  from_block :: "'j \<Rightarrow> string + ExecutionBlock option"
  from_string :: "'j \<Rightarrow> string + string"
  show_hash :: "BlockHash \<Rightarrow> string"
  show_status :: "PayloadStatusEnum \<Rightarrow> string"
  show_i64 :: "i64 \<Rightarrow> string"

section \<open>\<open>auth.rs\<close>\<close>

record Auth = auth_key :: bytes

record Claims =
  claims_iat :: u64
  claims_exp :: "u64 option"

definition generate_claims_at_timestamp :: "('j, 'el) engine_lib \<Rightarrow> 'el \<Rightarrow> Claims" where
  "generate_claims_at_timestamp E el = \<lparr>claims_iat = current_timestamp E el, claims_exp = None\<rparr>"

definition generate_token_with_claims ::
  "('j, 'el) engine_lib \<Rightarrow> Auth \<Rightarrow> Claims \<Rightarrow> (Report, string) result" where
  "generate_token_with_claims E a claims = lift_lib LibError (jwt_encode E (auth_key a) (claims_iat claims))"

definition generate_token :: "('j, 'el) engine_lib \<Rightarrow> Auth \<Rightarrow> 'el \<Rightarrow> (Report, string) result" where
  "generate_token E a el = generate_token_with_claims E a (generate_claims_at_timestamp E el)"

section \<open>\<open>engine_rpc.rs\<close>\<close>

definition ENGINE_NEW_PAYLOAD_V1 :: string where "ENGINE_NEW_PAYLOAD_V1 = ''engine_newPayloadV1''"
definition ENGINE_NEW_PAYLOAD_V2 :: string where "ENGINE_NEW_PAYLOAD_V2 = ''engine_newPayloadV2''"
definition ENGINE_NEW_PAYLOAD_V3 :: string where "ENGINE_NEW_PAYLOAD_V3 = ''engine_newPayloadV3''"
definition ENGINE_NEW_PAYLOAD_V4 :: string where "ENGINE_NEW_PAYLOAD_V4 = ''engine_newPayloadV4''"
definition ENGINE_GET_PAYLOAD_V1 :: string where "ENGINE_GET_PAYLOAD_V1 = ''engine_getPayloadV1''"
definition ENGINE_GET_PAYLOAD_V2 :: string where "ENGINE_GET_PAYLOAD_V2 = ''engine_getPayloadV2''"
definition ENGINE_GET_PAYLOAD_V3 :: string where "ENGINE_GET_PAYLOAD_V3 = ''engine_getPayloadV3''"
definition ENGINE_GET_PAYLOAD_V4 :: string where "ENGINE_GET_PAYLOAD_V4 = ''engine_getPayloadV4''"
definition ENGINE_FORKCHOICE_UPDATED_V1 :: string where
  "ENGINE_FORKCHOICE_UPDATED_V1 = ''engine_forkchoiceUpdatedV1''"
definition ENGINE_FORKCHOICE_UPDATED_V2 :: string where
  "ENGINE_FORKCHOICE_UPDATED_V2 = ''engine_forkchoiceUpdatedV2''"
definition ENGINE_FORKCHOICE_UPDATED_V3 :: string where
  "ENGINE_FORKCHOICE_UPDATED_V3 = ''engine_forkchoiceUpdatedV3''"
definition ENGINE_GET_PAYLOAD_BODIES_BY_HASH_V1 :: string where
  "ENGINE_GET_PAYLOAD_BODIES_BY_HASH_V1 = ''engine_getPayloadBodiesByHashV1''"
definition ENGINE_GET_PAYLOAD_BODIES_BY_RANGE_V1 :: string where
  "ENGINE_GET_PAYLOAD_BODIES_BY_RANGE_V1 = ''engine_getPayloadBodiesByRangeV1''"
definition ENGINE_EXCHANGE_CAPABILITIES :: string where
  "ENGINE_EXCHANGE_CAPABILITIES = ''engine_exchangeCapabilities''"
definition ENGINE_GET_CLIENT_VERSION_V1 :: string where
  "ENGINE_GET_CLIENT_VERSION_V1 = ''engine_getClientVersionV1''"
definition ENGINE_GET_BLOBS_V1 :: string where "ENGINE_GET_BLOBS_V1 = ''engine_getBlobsV1''"

definition NODE_CAPABILITIES :: "string list" where
  "NODE_CAPABILITIES = [ENGINE_NEW_PAYLOAD_V3, ENGINE_GET_PAYLOAD_V3, ENGINE_FORKCHOICE_UPDATED_V3]"

record EngineCapabilities =
  new_payload_v1 :: bool
  new_payload_v2 :: bool
  new_payload_v3 :: bool
  new_payload_v4 :: bool
  forkchoice_updated_v1 :: bool
  forkchoice_updated_v2 :: bool
  forkchoice_updated_v3 :: bool
  get_payload_bodies_by_hash_v1 :: bool
  get_payload_bodies_by_range_v1 :: bool
  get_payload_v1 :: bool
  get_payload_v2 :: bool
  get_payload_v3 :: bool
  get_payload_v4 :: bool
  get_client_version_v1 :: bool
  get_blobs_v1 :: bool

record EngineRPC =
  er_url :: string
  er_auth :: Auth

definition server_message :: "('j, 'el) engine_lib \<Rightarrow> JsonError \<Rightarrow> Report" where
  "server_message E e =
     Eyre (''Server Message: code: '' @ show_i64 E (je_code e) @ '', message: '' @ je_message e)"

definition post_json ::
  "('j, 'el) engine_lib \<Rightarrow> string \<Rightarrow> nat \<Rightarrow> string option \<Rightarrow> 'j JsonRequestBody \<Rightarrow>
    ('el, Report, 'j JsonResponseBody) io" where
  "post_json E url timeout token body =
     (\<lambda>el. case http_post E url timeout token body el of (r, el') \<Rightarrow> (lift_lib LibError r, el'))"

definition EngineRPC_rpc_request ::
  "('j, 'el) engine_lib \<Rightarrow> EngineRPC \<Rightarrow> string \<Rightarrow> 'j \<Rightarrow> nat \<Rightarrow> ('j \<Rightarrow> string + 'd) \<Rightarrow>
    ('el, Report, 'd) io" where
  "EngineRPC_rpc_request E api method params timeout from_value =
     bind_io get_io (\<lambda>el.
     bind_io (lift_io (generate_token E (er_auth api) el)) (\<lambda>token.
     bind_io (post_json E (er_url api) timeout (Some token)
         \<lparr>rq_jsonrpc = ''2.0'', rq_method = method, rq_params = params, rq_id = json_one E\<rparr>) (\<lambda>body.
       (case rs_error body of
          Some error \<Rightarrow> lift_io (fail (server_message E error))
        | None \<Rightarrow> lift_io (lift_lib LibError (from_value (rs_result body)))))))"

definition exchange_capabilities ::
  "('j, 'el) engine_lib \<Rightarrow> EngineRPC \<Rightarrow> ('el, Report, EngineCapabilities) io" where
  "exchange_capabilities E api =
     bind_io (EngineRPC_rpc_request E api ENGINE_EXCHANGE_CAPABILITIES
         (json_capabilities E NODE_CAPABILITIES) 1 (from_capabilities E)) (\<lambda>c.
       return_io \<lparr>
         new_payload_v1 = ENGINE_NEW_PAYLOAD_V1 \<in> c,
         new_payload_v2 = ENGINE_NEW_PAYLOAD_V2 \<in> c,
         new_payload_v3 = ENGINE_NEW_PAYLOAD_V3 \<in> c,
         new_payload_v4 = ENGINE_NEW_PAYLOAD_V4 \<in> c,
         forkchoice_updated_v1 = ENGINE_FORKCHOICE_UPDATED_V1 \<in> c,
         forkchoice_updated_v2 = ENGINE_FORKCHOICE_UPDATED_V2 \<in> c,
         forkchoice_updated_v3 = ENGINE_FORKCHOICE_UPDATED_V3 \<in> c,
         get_payload_bodies_by_hash_v1 = ENGINE_GET_PAYLOAD_BODIES_BY_HASH_V1 \<in> c,
         get_payload_bodies_by_range_v1 = ENGINE_GET_PAYLOAD_BODIES_BY_RANGE_V1 \<in> c,
         get_payload_v1 = ENGINE_GET_PAYLOAD_V1 \<in> c,
         get_payload_v2 = ENGINE_GET_PAYLOAD_V2 \<in> c,
         get_payload_v3 = ENGINE_GET_PAYLOAD_V3 \<in> c,
         get_payload_v4 = ENGINE_GET_PAYLOAD_V4 \<in> c,
         get_client_version_v1 = ENGINE_GET_CLIENT_VERSION_V1 \<in> c,
         get_blobs_v1 = ENGINE_GET_BLOBS_V1 \<in> c\<rparr>)"

definition forkchoice_updated ::
  "('j, 'el) engine_lib \<Rightarrow> EngineRPC \<Rightarrow> BlockHash \<Rightarrow> PayloadAttributes option \<Rightarrow>
    ('el, Report, ForkchoiceUpdated) io" where
  "forkchoice_updated E api head maybe_payload_attributes =
     EngineRPC_rpc_request E api ENGINE_FORKCHOICE_UPDATED_V3
       (json_forkchoice E \<lparr>head_block_hash = head, safe_block_hash = head, finalized_block_hash = head\<rparr>
          maybe_payload_attributes) 8 (from_forkchoice_updated E)"

definition get_payload ::
  "('j, 'el) engine_lib \<Rightarrow> EngineRPC \<Rightarrow> PayloadId \<Rightarrow> ('el, Report, ExecutionPayloadV3) io" where
  "get_payload E api pid =
     bind_io (EngineRPC_rpc_request E api ENGINE_GET_PAYLOAD_V3 (json_payload_id E pid) 2 (from_envelope E))
       (\<lambda>response. return_io (execution_payload response))"

definition new_payload ::
  "('j, 'el) engine_lib \<Rightarrow> EngineRPC \<Rightarrow> ExecutionPayloadV3 \<Rightarrow> B256 list \<Rightarrow> BlockHash \<Rightarrow>
    ('el, Report, PayloadStatus) io" where
  "new_payload E api payload versioned_hashes parent_block_hash =
     EngineRPC_rpc_request E api ENGINE_NEW_PAYLOAD_V3
       (json_new_payload E (JsonExecutionPayloadV3_from payload) versioned_hashes parent_block_hash) 8
       (from_payload_status E)"

section \<open>\<open>ethereum_rpc.rs\<close>\<close>

record EthereumRPC = eth_url :: string

definition EthereumRPC_rpc_request ::
  "('j, 'el) engine_lib \<Rightarrow> EthereumRPC \<Rightarrow> string \<Rightarrow> 'j \<Rightarrow> nat \<Rightarrow> ('j \<Rightarrow> string + 'd) \<Rightarrow>
    ('el, Report, 'd) io" where
  "EthereumRPC_rpc_request E eth method params timeout from_value =
     bind_io (post_json E (eth_url eth) timeout None
         \<lparr>rq_jsonrpc = ''2.0'', rq_method = method, rq_params = params, rq_id = json_one E\<rparr>) (\<lambda>body.
       (case (rs_result body, rs_error body) of
          (result, None) \<Rightarrow> lift_io (lift_lib LibError (from_value result))
        | (_, Some error) \<Rightarrow> lift_io (fail (server_message E error))))"

definition get_chain_id :: "('j, 'el) engine_lib \<Rightarrow> EthereumRPC \<Rightarrow> ('el, Report, string) io" where
  "get_chain_id E eth = EthereumRPC_rpc_request E eth ''eth_chainId'' (json_empty E) 1 (from_string E)"

definition get_block_by_number ::
  "('j, 'el) engine_lib \<Rightarrow> EthereumRPC \<Rightarrow> string \<Rightarrow> ('el, Report, ExecutionBlock option) io" where
  "get_block_by_number E eth block_number =
     EthereumRPC_rpc_request E eth ''eth_getBlockByNumber''
       (json_block_by_number E block_number False) 1 (from_block E)"

text \<open>The answers of the transaction pool methods are types of alloy, read by the caller's decoder.\<close>

definition txpool_status ::
  "('j, 'el) engine_lib \<Rightarrow> EthereumRPC \<Rightarrow> ('j \<Rightarrow> string + 'd) \<Rightarrow> ('el, Report, 'd) io" where
  "txpool_status E eth from_value = EthereumRPC_rpc_request E eth ''txpool_status'' (json_empty E) 1 from_value"

definition txpool_inspect ::
  "('j, 'el) engine_lib \<Rightarrow> EthereumRPC \<Rightarrow> ('j \<Rightarrow> string + 'd) \<Rightarrow> ('el, Report, 'd) io" where
  "txpool_inspect E eth from_value = EthereumRPC_rpc_request E eth ''txpool_inspect'' (json_empty E) 1 from_value"

section \<open>\<open>engine.rs\<close>\<close>

record Engine =
  eng_api :: EngineRPC
  eng_eth :: EthereumRPC

definition check_capabilities :: "('j, 'el) engine_lib \<Rightarrow> Engine \<Rightarrow> ('el, Report, unit) io" where
  "check_capabilities E en =
     bind_io (exchange_capabilities E (eng_api en)) (\<lambda>cap.
       if \<not> forkchoice_updated_v3 cap \<or> \<not> get_payload_v3 cap \<or> \<not> new_payload_v3 cap
       then lift_io (fail (Eyre ''Engine does not support required methods''))
       else return_io ())"

definition set_latest_forkchoice_state ::
  "('j, 'el) engine_lib \<Rightarrow> Engine \<Rightarrow> BlockHash \<Rightarrow> ('el, Report, BlockHash) io" where
  "set_latest_forkchoice_state E en head =
     bind_io (forkchoice_updated E (eng_api en) head None) (\<lambda>fcu.
     bind_io (lift_io (assert_that ''Payload ID should be None!'' (payload_id fcu = None))) (\<lambda>_.
       (case status (payload_status fcu) of
          PS_Valid \<Rightarrow> lift_io (expect ''called `Option::unwrap()` on a `None` value''
            (latest_valid_hash (payload_status fcu)))
        | st \<Rightarrow> if st = PS_Syncing \<and> latest_valid_hash (payload_status fcu) = None
            then lift_io (fail (Eyre (''headBlockHash='' @ show_hash E head @
              '' references an unknown payload or a payload that can't be validated'')))
            else lift_io (fail (Eyre (''Invalid payload status: '' @ show_status E st))))))"

definition fee_recipient :: Address where
  "fee_recipient = Address_repeat_byte 42"

definition generate_block ::
  "('j, 'el) engine_lib \<Rightarrow> Engine \<Rightarrow> ExecutionBlock \<Rightarrow> ('el, Report, ExecutionPayloadV3) io" where
  "generate_block E en latest_block =
     (let block_hash = eb_block_hash latest_block in
      bind_io (lift_io (add_chk (eb_timestamp latest_block) 1)) (\<lambda>timestamp.
      let payload_attributes = \<lparr>pa_timestamp = timestamp, pa_prev_randao = eb_prev_randao latest_block,
        pa_suggested_fee_recipient = fee_recipient, pa_withdrawals = Some [],
        pa_parent_beacon_block_root = Some block_hash\<rparr> in
      bind_io (forkchoice_updated E (eng_api en) block_hash (Some payload_attributes)) (\<lambda>fcu.
      bind_io (lift_io (assert_that ''assertion `left == right` failed''
          (latest_valid_hash (payload_status fcu) = Some block_hash))) (\<lambda>_.
        (case status (payload_status fcu) of
           PS_Valid \<Rightarrow>
             bind_io (lift_io (assert_that ''Payload ID should be Some!'' (payload_id fcu \<noteq> None))) (\<lambda>_.
             bind_io (lift_io (expect ''called `Option::unwrap()` on a `None` value'' (payload_id fcu)))
               (get_payload E (eng_api en)))
         | st \<Rightarrow> lift_io (fail (Eyre (''Invalid payload status: '' @ show_status E st))))))))"

definition notify_new_block ::
  "('j, 'el) engine_lib \<Rightarrow> Engine \<Rightarrow> ExecutionPayloadV3 \<Rightarrow> B256 list \<Rightarrow> ('el, Report, PayloadStatus) io" where
  "notify_new_block E en payload versioned_hashes =
     new_payload E (eng_api en) payload versioned_hashes
       (v1_parent_hash (v2_payload_inner (v3_payload_inner payload)))"

end
