(* ===== verification/State.thy ===== *)
theory State
  imports Engine Store_Correct
begin

text \<open>
  \<open>app/src/state.rs\<close> (and \<open>Genesis\<close> of \<open>types/src/genesis.rs\<close>): the state of a node and what it
  does with proposals, their parts and commits. A method that changes the state keeps the changes
  it made before it failed. The start time (used for a log line) and the random generator are not
  kept: of the generator only its seed is, since the one method that draws from it is dead code.
\<close>

section \<open>The state\<close>

record Genesis = validator_set :: ValidatorSet

record 'db State =
  genesis :: Genesis
  signing_provider :: Ed25519Provider
  address :: Address
  store :: "'db Db"
  stream_nonce :: u32
  streams_map :: PartStreamsMap
  rng_seed :: u64
  current_height :: Height
  current_round :: Round
  current_proposer :: "Address option"
  peers :: "PeerId set"
  latest_block :: "ExecutionBlock option"
  txs_count :: u64
  chain_bytes :: u64

datatype SignatureVerificationError = MissingFinPart | ProposerNotFound | InvalidProposalSignature

record LocallyProposedValue =
  lpv_height :: Height
  lpv_round :: Round
  lpv_value :: Value

definition CHUNK_SIZE :: nat where
  "CHUNK_SIZE = 128 * 1024"

text \<open>\<open>wrapping_shl(8)\<close> and \<open>wrapping_add\<close> are the operations of the word.\<close>

definition seed_from_address :: "Address \<Rightarrow> u64" where
  "seed_from_address a =
     foldl (\<lambda>acc chunk. acc + foldl (\<lambda>acc x. push_bit 8 acc + ucast x) 0 chunk) 0
       (chunks 8 (Address_into_inner a))"

definition State_new ::
  "Genesis \<Rightarrow> Ed25519Provider \<Rightarrow> Address \<Rightarrow> Height \<Rightarrow> 'db Db \<Rightarrow> 'z lib_scheme \<Rightarrow> 'db State" where
  "State_new g provider addr height st L =
     \<lparr>genesis = g, signing_provider = provider, address = addr, store = st, stream_nonce = 0,
      streams_map = PartStreamsMap_new, rng_seed = seed_from_address addr,
      current_height = height, current_round = round_new (rounds L) 0, current_proposer = None,
      peers = {}, latest_block = None, txs_count = 0, chain_bytes = 0\<rparr>"

definition get_validator_set :: "'db State \<Rightarrow> ValidatorSet" where
  "get_validator_set st = validator_set (genesis st)"

section \<open>The store of a node\<close>

text \<open>A call of a method of \<open>Store\<close>, its error converted by \<open>?\<close>.\<close>

definition on_store ::
  "('db Db \<Rightarrow> ('a, 'db) db_result) \<Rightarrow> ('db State, Report, 'a) io" where
  "on_store f = (\<lambda>st. case f (store st) of
     Inl e \<Rightarrow> (map_err FromStoreError (Inl e), st)
   | Inr (x, s) \<Rightarrow> (Inr x, st\<lparr>store := s\<rparr>))"

definition get_earliest_height ::
  "('db, 'tx, 'z) store_lib_scheme \<Rightarrow> 'db State \<Rightarrow> Height \<times> 'db State" where
  "get_earliest_height L st =
     (case Store_min_decided_value_height L (store st) of (h, s) \<Rightarrow>
        ((case h of Some x \<Rightarrow> x | None \<Rightarrow> Height_default), st\<lparr>store := s\<rparr>))"

definition State_get_decided_value ::
  "('db, 'tx, 'z) store_lib_scheme \<Rightarrow> Height \<Rightarrow> 'db State \<Rightarrow> DecidedValue option \<times> 'db State" where
  "State_get_decided_value L height st =
     (case Store_get_decided_value L (store st) height of
        Inl _ \<Rightarrow> (None, st) | Inr (x, s) \<Rightarrow> (x, st\<lparr>store := s\<rparr>))"

definition State_get_block_data ::
  "('db, 'tx, 'z) store_lib_scheme \<Rightarrow> Height \<Rightarrow> Round \<Rightarrow> 'db State \<Rightarrow> bytes option \<times> 'db State" where
  "State_get_block_data L height round st =
     (case Store_get_block_data L (store st) height round of
        Inl _ \<Rightarrow> (None, st) | Inr (x, s) \<Rightarrow> (x, st\<lparr>store := s\<rparr>))"

definition store_undecided_proposal_data ::
  "('db, 'tx, 'z) store_lib_scheme \<Rightarrow> bytes \<Rightarrow> ('db State, Report, unit) io" where
  "store_undecided_proposal_data L data = bind_io get_io (\<lambda>st.
     on_store (\<lambda>s. store_undecided_block_data L s (current_height st) (current_round st) data))"

section \<open>Making proposals\<close>

definition propose_value ::
  "('db, 'tx, 'z) store_lib_scheme \<Rightarrow> Height \<Rightarrow> Round \<Rightarrow> bytes \<Rightarrow> ('db State, Report, LocallyProposedValue) io" where
  "propose_value L height round data =
     bind_io get_io (\<lambda>st.
     bind_io (lift_io (assert_that ''assertion `left == right` failed'' (height = current_height st))) (\<lambda>_.
     bind_io (lift_io (assert_that ''assertion `left == right` failed'' (round = current_round st))) (\<lambda>_.
     let value = Value_new L data;
         proposal = \<lparr>prv_height = height, prv_round = round, prv_valid_round = RNil,
           prv_proposer = address st, prv_value = value, prv_validity = Valid\<rparr> in
     bind_io (on_store (\<lambda>s. store_undecided_proposal L s proposal)) (\<lambda>_.
       return_io \<lparr>lpv_height = prv_height proposal, lpv_round = prv_round proposal,
         lpv_value = prv_value proposal\<rparr>))))"

definition stream_id :: "'z lib_scheme \<Rightarrow> ('db State, Report, StreamId) io" where
  "stream_id L =
     bind_io get_io (\<lambda>st.
     bind_io (lift_io (expect ''called `Option::unwrap()` on a `None` value''
         (round_as_u32 (rounds L) (current_round st)))) (\<lambda>round.
     let bytes = to_be_bytes (as_u64 (current_height st)) @ to_be_bytes round @ to_be_bytes (stream_nonce st) in
     bind_io (lift_io (add_chk (stream_nonce st) 1)) (\<lambda>nonce.
     bind_io (modify_io (\<lambda>st. st\<lparr>stream_nonce := nonce\<rparr>)) (\<lambda>_.
       return_io (sid_new (ids L) bytes)))))"

definition make_proposal_parts ::
  "'z lib_scheme \<Rightarrow> 'db State \<Rightarrow> LocallyProposedValue \<Rightarrow> bytes \<Rightarrow> ProposalPart list" where
  "make_proposal_parts L st value data =
     (let init = PartInit (ProposalInit_new (lpv_height value) (lpv_round value) (address st));
          hasher = to_be_bytes (as_u64 (lpv_height value)) @
            to_be_bytes (round_as_i64 (rounds L) (lpv_round value));
          data_parts = map (\<lambda>chunk. PartData (ProposalData_new chunk)) (chunks CHUNK_SIZE data);
          hasher = hasher @ concat (chunks CHUNK_SIZE data);
          hash = to_be_bytes (keccak256 (crypto L) hasher);
          signature = provider_sign L (signing_provider st) hash in
      [init] @ data_parts @ [PartFin (ProposalFin_new signature)])"

fun number_parts ::
  "StreamId \<Rightarrow> u64 \<Rightarrow> ProposalPart list \<Rightarrow> (Report, ProposalPart StreamMessage list) result" where
  "number_parts sid n [] = Inr [\<lparr>sm_stream_id = sid, sm_sequence = n, sm_content = SFin\<rparr>]"
| "number_parts sid n (p # ps) =
     and_then (add_chk n 1) (\<lambda>n'. and_then (number_parts sid n' ps) (\<lambda>msgs.
       Inr (\<lparr>sm_stream_id = sid, sm_sequence = n, sm_content = SData p\<rparr> # msgs)))"

definition stream_proposal ::
  "'z lib_scheme \<Rightarrow> LocallyProposedValue \<Rightarrow> bytes \<Rightarrow> ('db State, Report, ProposalPart StreamMessage list) io" where
  "stream_proposal L value data =
     bind_io get_io (\<lambda>st.
     let parts = make_proposal_parts L st value data in
     bind_io (stream_id L) (\<lambda>sid. lift_io (number_parts sid 0 parts)))"

section \<open>Receiving proposals\<close>

text \<open>The traversal of the parts: what is hashed, and the signature of the last final part.\<close>

fun hash_parts :: "'z lib_scheme \<Rightarrow> bytes \<Rightarrow> Signature option \<Rightarrow> ProposalPart list \<Rightarrow> bytes \<times> Signature option" where
  "hash_parts L hasher s [] = (hasher, s)"
| "hash_parts L hasher s (PartInit i # ps) =
     hash_parts L (hasher @ to_be_bytes (as_u64 (init_height i)) @
       to_be_bytes (round_as_i64 (rounds L) (init_round i))) s ps"
| "hash_parts L hasher s (PartData d # ps) = hash_parts L (hasher @ data_bytes d) s ps"
| "hash_parts L hasher s (PartFin f # ps) = hash_parts L hasher (Some (fin_signature f)) ps"

definition verify_proposal_signature ::
  "'z lib_scheme \<Rightarrow> 'db State \<Rightarrow> ProposalParts \<Rightarrow> (SignatureVerificationError, unit) result" where
  "verify_proposal_signature L st parts =
     (case hash_parts L [] None (parts_parts parts) of (hasher, signature) \<Rightarrow>
      let hash = to_be_bytes (keccak256 (crypto L) hasher) in
      and_then (ok_or MissingFinPart signature) (\<lambda>signature.
      let public_key = map_option validator_public_key
        (get_by_address (get_validator_set st) (parts_proposer parts)) in
      and_then (ok_or ProposerNotFound public_key) (\<lambda>public_key.
        if \<not> provider_verify L (signing_provider st) hash signature public_key
        then fail InvalidProposalSignature else Inr ())))"

definition assemble_value_from_parts :: "'z lib_scheme \<Rightarrow> ProposalParts \<Rightarrow> ProposedValue \<times> bytes" where
  "assemble_value_from_parts L parts =
     (let data = concat (map data_bytes (List.map_filter as_data (parts_parts parts))) in
      (\<lparr>prv_height = parts_height parts, prv_round = parts_round parts, prv_valid_round = RNil,
        prv_proposer = parts_proposer parts, prv_value = Value_new L data, prv_validity = Valid\<rparr>,
       data))"

definition insert_part ::
  "'z stream_msg_lib_scheme \<Rightarrow> PeerId \<Rightarrow> ProposalPart StreamMessage \<Rightarrow> ('db State, Report, ProposalParts option) io" where
  "insert_part L from part = (\<lambda>st. case PartStreamsMap_insert L (streams_map st) from part of
     Inl e \<Rightarrow> (Inl e, st) | Inr (x, m) \<Rightarrow> (Inr x, st\<lparr>streams_map := m\<rparr>))"

definition received_proposal_part ::
  "('db, 'tx, 'z) store_lib_scheme \<Rightarrow> PeerId \<Rightarrow> ProposalPart StreamMessage \<Rightarrow>
    ('db State, Report, ProposedValue option) io" where
  "received_proposal_part L from part =
     bind_io (insert_part L from part) (\<lambda>complete.
       (case complete of
          None \<Rightarrow> return_io None
        | Some parts \<Rightarrow>
     bind_io get_io (\<lambda>st.
       if parts_height parts < current_height st then return_io None
       else (case verify_proposal_signature L st parts of
          Inl (Err e) \<Rightarrow> return_io None
        | Inl (Panic p) \<Rightarrow> lift_io (panic p)
        | Inr _ \<Rightarrow>
          (let (value, data) = assemble_value_from_parts L parts in
           bind_io (on_store (\<lambda>s. store_undecided_proposal L s value)) (\<lambda>_.
           bind_io (store_undecided_proposal_data L data) (\<lambda>_.
             return_io (Some value))))))))"

section \<open>Committing\<close>

definition commit :: "('db, 'tx, 'z) store_lib_scheme \<Rightarrow> CommitCertificate \<Rightarrow> ('db State, Report, unit) io" where
  "commit L certificate =
     bind_io (on_store (\<lambda>s. Store_get_undecided_proposal L s (cert_height certificate) (cert_round certificate)))
       (\<lambda>proposal. (case proposal of
          None \<Rightarrow> return_io ()
        | Some proposal \<Rightarrow>
     bind_io (on_store (\<lambda>s. store_decided_value L s certificate (prv_value proposal))) (\<lambda>_.
     bind_io (on_store (\<lambda>s. Store_get_block_data L s (cert_height certificate) (cert_round certificate)))
       (\<lambda>block_data.
     bind_io (case block_data of
         None \<Rightarrow> return_io ()
       | Some data \<Rightarrow> on_store (\<lambda>s. store_decided_block_data L s (cert_height certificate) data)) (\<lambda>_.
     let retain_height = Height_new (saturating_sub (as_u64 (cert_height certificate)) 5) in
     bind_io (on_store (\<lambda>s. Store_prune L s retain_height)) (\<lambda>_.
     bind_io get_io (\<lambda>st.
     bind_io (lift_io (Height_increment (current_height st))) (\<lambda>h.
       modify_io (\<lambda>st. st\<lparr>current_height := h, current_round := round_new (rounds L) 0\<rparr>)))))))))"

definition decode_value :: "'z msg_lib_scheme \<Rightarrow> bytes \<Rightarrow> ('e, Value) result" where
  "decode_value L b = unwrap ''called `Result::unwrap()` on an `Err` value'' (Value_decode L b)"

end
