(* ===== verification/Dissemination.thy ===== *)
theory Dissemination
  imports State
begin

text \<open>
  How a proposal travels: what \<open>stream_proposal\<close> sends, what \<open>received_proposal_part\<close> accepts and
  stores, and that a proposal sent by one node is reassembled, verified and accepted by another.
\<close>

definition node_laws ::
  "('db, 'tx, 'z) store_lib_scheme \<Rightarrow> ('db \<Rightarrow> contents) \<Rightarrow> ('tx \<Rightarrow> contents) \<Rightarrow> bool" where
  "node_laws L \<alpha> \<beta> \<longleftrightarrow> store_laws L \<alpha> \<beta> \<and> stream_laws (stream L)"

lemma node_lawsD:
  assumes "node_laws L \<alpha> \<beta>"
  shows "store_laws L \<alpha> \<beta>" "stream_laws (stream L)" "msg_laws L" "crypto_laws (crypto L)"
    "round_laws (rounds L)" "id_laws (ids L)"
  using assms by (simp_all add: node_laws_def store_laws_def msg_laws_def lib_laws_def)

section \<open>What is sent\<close>

lemma number_parts_ok:
  "unat n + length ps < 2 ^ 64 - 1 \<Longrightarrow> \<exists>ms. number_parts sid n ps = Inr ms \<and>
    map sm_sequence ms = map (\<lambda>k. n + of_nat k) [0..<Suc (length ps)] \<and>
    map sm_content ms = map SData ps @ [SFin] \<and> (\<forall>m \<in> set ms. sm_stream_id m = sid)"
proof (induction ps arbitrary: n)
  case Nil
  then show ?case by simp
next
  case (Cons p ps)
  then have lt: "unat n + 1 < 2 ^ 64" and u: "unat (n + 1) = unat n + 1"
    by (simp_all add: unat_word_ariths)
  from Cons.prems u have "unat (n + 1) + length ps < 2 ^ 64 - 1" by simp
  from Cons.IH [OF this] obtain ms where ms: "number_parts sid (n + 1) ps = Inr ms"
    "map sm_sequence ms = map (\<lambda>k. n + 1 + of_nat k) [0..<Suc (length ps)]"
    "map sm_content ms = map SData ps @ [SFin]" "\<forall>m \<in> set ms. sm_stream_id m = sid"
    by blast
  have "map (\<lambda>k. n + of_nat k) [0..<Suc (Suc (length ps))]
      = n # map (\<lambda>k. n + 1 + of_nat k) [0..<Suc (length ps)]"
    by (simp only: upt_conv_Cons [of 0] zero_less_Suc map_Suc_upt [symmetric] list.map map_map)
      (simp add: comp_def add.assoc)
  with ms lt show ?case
    by (simp add: add_chk_def del: upt_Suc)
qed

lemma number_parts_complete:
  assumes "number_parts sid 0 (PartInit i # ps) = Inr ms" and "length ps < 2 ^ 64 - 3"
  shows "complete_stream sid i ms \<and> parts_of ms = PartInit i # ps"
proof -
  let ?ps = "PartInit i # ps"
  have "unat (0 :: u64) + length ?ps < 2 ^ 64 - 1" using assms(2) by simp
  from number_parts_ok [OF this, of sid] assms(1) obtain ms'
    where "ms' = ms" "map sm_sequence ms' = map (\<lambda>k. 0 + of_nat k) [0..<Suc (length ?ps)]"
      "map sm_content ms' = map SData ?ps @ [SFin]" "\<forall>m \<in> set ms'. sm_stream_id m = sid"
    by (metis Inr_inject)
  then have seq: "map sm_sequence ms = map of_nat [0..<Suc (length ?ps)]"
    and con: "map sm_content ms = map SData ?ps @ [SFin]" and sid: "\<forall>m \<in> set ms. sm_stream_id m = sid"
    by simp_all
  have len: "length ms = Suc (length ?ps)" using arg_cong [OF con, of length] by simp
  have nth: "sm_content (ms ! k) = SFin \<longleftrightarrow> k = length ?ps" if "k < length ms" for k
  proof -
    have "sm_content (ms ! k) = (map SData ?ps @ [SFin]) ! k" using con that by (metis nth_map)
    then show ?thesis using that len by (auto simp: nth_append nth_Cons split: nat.splits)
  qed
  have last: "last ms = ms ! length ?ps" using len by (metis diff_Suc_1 last_conv_nth length_0_conv nat.distinct(1))
  have dist: "ms ! j = ms ! k \<longleftrightarrow> j = k" if "j < length ms" "k < length ms" for j k
  proof
    assume "ms ! j = ms ! k"
    then have "(of_nat j :: u64) = of_nat k"
      using that seq len by (metis length_map map_nth nth_map nth_upt add_0)
    then have "unat (of_nat j :: u64) = unat (of_nat k :: u64)" by (rule arg_cong)
    then show "j = k" using that len assms(2) by (simp add: unat_of_nat)
  qed simp
  have "sm_content m = SFin \<longleftrightarrow> m = last ms" if "m \<in> set ms" for m
    using that nth dist last len by (metis in_set_conv_nth lessI)
  moreover have "sm_content (hd ms) = SData (PartInit i)" using con by (cases ms) auto
  ultimately have "complete_stream sid i ms"
    unfolding complete_stream_def using seq len sid assms(2) by auto
  moreover have "parts_of ms = List.map_filter (\<lambda>c. case c of SData p \<Rightarrow> Some p | SFin \<Rightarrow> None) (map sm_content ms)"
    unfolding parts_of_def
    by (induction ms) (simp_all add: List.map_filter_simps split: StreamContent.split)
  moreover have "List.map_filter (\<lambda>c. case c of SData p \<Rightarrow> Some p | SFin \<Rightarrow> None) (map SData qs @ [SFin]) = qs" for qs
    by (induction qs) (simp_all add: List.map_filter_simps)
  ultimately show ?thesis unfolding con by simp
qed

definition data_part_list :: "bytes \<Rightarrow> ProposalPart list" where
  "data_part_list data = map (\<lambda>chunk. PartData (ProposalData_new chunk)) (chunks CHUNK_SIZE data)"

text \<open>What a proposer signs: the hash of the height, the round and the data.\<close>

definition signed_hash :: "'z lib_scheme \<Rightarrow> Height \<Rightarrow> Round \<Rightarrow> bytes \<Rightarrow> bytes" where
  "signed_hash L h r data = to_be_bytes (keccak256 (crypto L)
     (to_be_bytes (as_u64 h) @ to_be_bytes (round_as_i64 (rounds L) r) @ data))"

lemma chunk_size_pos: "0 < CHUNK_SIZE" by (simp add: CHUNK_SIZE_def)

lemma make_proposal_parts_eq:
  "make_proposal_parts L st value data =
    PartInit \<lparr>init_height = lpv_height value, init_round = lpv_round value, init_proposer = address st\<rparr>
    # data_part_list data @
    [PartFin \<lparr>fin_signature = sk_sign (crypto L) (private_key (signing_provider st))
        (signed_hash L (lpv_height value) (lpv_round value) data)\<rparr>]"
  by (simp add: make_proposal_parts_def Let_def data_part_list_def ProposalInit_new_def ProposalFin_new_def
      provider_sign_def signed_hash_def concat_chunks [OF chunk_size_pos])

lemma length_data_part_list: "length (data_part_list data) \<le> length data"
proof -
  have "(length data + CHUNK_SIZE - 1) div CHUNK_SIZE \<le> length data"
  proof (cases data)
    case (Cons a as)
    have "(length data + CHUNK_SIZE - 1) div CHUNK_SIZE \<le> (length data * CHUNK_SIZE) div CHUNK_SIZE"
      by (rule div_le_mono) (simp add: Cons CHUNK_SIZE_def)
    then show ?thesis by (simp add: CHUNK_SIZE_def)
  qed (simp add: CHUNK_SIZE_def)
  then show ?thesis by (simp add: data_part_list_def length_chunks [OF chunk_size_pos])
qed

lemma hash_parts_data:
  "hash_parts L h s (map (\<lambda>c. PartData (ProposalData_new c)) cs @ ps) = hash_parts L (h @ concat cs) s ps"
  by (induction cs arbitrary: h) (simp_all add: ProposalData_new_def)

lemma hash_parts_sent:
  "hash_parts L [] None (PartInit i # data_part_list data @ [PartFin f]) =
    (to_be_bytes (as_u64 (init_height i)) @ to_be_bytes (round_as_i64 (rounds L) (init_round i)) @ data,
     Some (fin_signature f))"
  by (simp add: data_part_list_def hash_parts_data concat_chunks [OF chunk_size_pos])

lemma as_data_sent:
  "concat (map data_bytes (List.map_filter as_data (data_part_list data @ [PartFin f]))) = data"
proof -
  have "concat (map data_bytes (List.map_filter as_data (map (\<lambda>c. PartData (ProposalData_new c)) cs @ [PartFin f])))
      = concat cs" for cs
    by (induction cs) (simp_all add: List.map_filter_simps ProposalData_new_def)
  then show ?thesis
    by (simp add: List.map_filter_simps data_part_list_def concat_chunks [OF chunk_size_pos])
qed

lemma stream_proposal_Inr:
  assumes "stream_proposal L value data st = (Inr ms, st')" and "length data < 2 ^ 63"
  shows "\<exists>i f. i = \<lparr>init_height = lpv_height value, init_round = lpv_round value, init_proposer = address st\<rparr> \<and>
    f = \<lparr>fin_signature = sk_sign (crypto L) (private_key (signing_provider st))
        (signed_hash L (lpv_height value) (lpv_round value) data)\<rparr> \<and>
    complete_stream (sm_stream_id (hd ms)) i ms \<and>
    parts_of ms = PartInit i # data_part_list data @ [PartFin f]"
proof -
  from assms(1) obtain sid where n: "number_parts sid 0 (make_proposal_parts L st value data) = Inr ms"
    by (auto simp: stream_proposal_def bind_io_Inr Let_def)
  have "length (data_part_list data @ [PartFin f]) < 2 ^ 64 - 3" for f
    using length_data_part_list [of data] assms(2) by simp
  from number_parts_complete [OF n [unfolded make_proposal_parts_eq] this]
  have c: "complete_stream sid \<lparr>init_height = lpv_height value, init_round = lpv_round value,
      init_proposer = address st\<rparr> ms"
    and p: "parts_of ms = PartInit \<lparr>init_height = lpv_height value, init_round = lpv_round value,
      init_proposer = address st\<rparr> # data_part_list data @
      [PartFin \<lparr>fin_signature = sk_sign (crypto L) (private_key (signing_provider st))
        (signed_hash L (lpv_height value) (lpv_round value) data)\<rparr>]"
    by blast+
  from c have "sm_stream_id (hd ms) = sid"
    using complete_stream_hd(1) [OF c] by (simp add: complete_stream_def)
  with c p show ?thesis by blast
qed

section \<open>What is accepted\<close>

text \<open>The checks on a complete proposal: it is not outdated and its signature verifies.\<close>

definition accepts :: "'z lib_scheme \<Rightarrow> 'db State \<Rightarrow> ProposalParts \<Rightarrow> bool" where
  "accepts L st pp \<longleftrightarrow> \<not> parts_height pp < current_height st \<and> verify_proposal_signature L st pp = Inr ()"

definition same_node :: "'db State \<Rightarrow> 'db State \<Rightarrow> bool" where
  "same_node st st' \<longleftrightarrow> st' = st\<lparr>streams_map := streams_map st', store := store st'\<rparr>"

lemma same_nodeD:
  assumes "same_node st st'"
  shows "current_height st' = current_height st" "current_round st' = current_round st"
    "genesis st' = genesis st" "signing_provider st' = signing_provider st"
proof -
  from assms have e: "st' = st\<lparr>streams_map := streams_map st', store := store st'\<rparr>"
    by (simp add: same_node_def)
  show "current_height st' = current_height st" "current_round st' = current_round st"
    "genesis st' = genesis st" "signing_provider st' = signing_provider st"
    by (subst e, simp)+
qed

lemma same_node_refl: "same_node st st"
  by (simp add: same_node_def)

lemma same_node_trans: "same_node a b \<Longrightarrow> same_node b c \<Longrightarrow> same_node a c"
  by (cases a; cases b; cases c) (simp add: same_node_def)

lemma verify_same_node:
  "genesis st' = genesis st \<Longrightarrow> signing_provider st' = signing_provider st \<Longrightarrow>
    verify_proposal_signature L st' pp = verify_proposal_signature L st pp"
  by (simp add: verify_proposal_signature_def get_validator_set_def)

lemma accepts_same_node: "same_node st st' \<Longrightarrow> accepts L st' pp = accepts L st pp"
  using same_nodeD [of st st'] verify_same_node [of st' st L] by (simp add: accepts_def)

lemma verify_no_panic: "\<not> panics (verify_proposal_signature L st pp)"
  by (auto simp: verify_proposal_signature_def panics_and_then Let_def ok_or_def
      split: prod.split option.split)

text \<open>The effect of one message, given what it completes.\<close>

lemma received_rejected:
  assumes "PartStreamsMap_insert L (streams_map st) p m = (Inr (out, sm) :: (Report, _) result)"
    and "\<forall>pp. out = Some pp \<longrightarrow> \<not> accepts L (st\<lparr>streams_map := sm\<rparr>) pp"
  shows "received_proposal_part L p m st = (Inr None, st\<lparr>streams_map := sm\<rparr>)"
proof -
  have i: "insert_part L p m st = (Inr out, st\<lparr>streams_map := sm\<rparr>)"
    using assms(1) by (simp add: insert_part_def)
  show ?thesis
  proof (cases out)
    case None
    with i show ?thesis by (simp add: received_proposal_part_def)
  next
    case (Some pp)
    with assms(2) verify_no_panic [of L "st\<lparr>streams_map := sm\<rparr>" pp] i show ?thesis
      by (auto simp: received_proposal_part_def accepts_def split: sum.split fault.split)
  qed
qed

lemma received_accepted:
  assumes "PartStreamsMap_insert L (streams_map st) p m = (Inr (Some pp, sm) :: (Report, _) result)"
    and "accepts L (st\<lparr>streams_map := sm\<rparr>) pp" and "assemble_value_from_parts L pp = (v, data)"
  shows "received_proposal_part L p m st =
    bind_io (on_store (\<lambda>s. store_undecided_proposal L s v)) (\<lambda>_.
    bind_io (store_undecided_proposal_data L data) (\<lambda>_. return_io (Some v))) (st\<lparr>streams_map := sm\<rparr>)"
proof -
  have i: "insert_part L p m st = (Inr (Some pp), st\<lparr>streams_map := sm\<rparr>)"
    using assms(1) by (simp add: insert_part_def)
  show ?thesis using assms(2,3) by (simp add: received_proposal_part_def i accepts_def)
qed

lemma store_undecided_block_data_ok:
  assumes "redb_reliable (redb L)"
  shows "\<exists>s'. store_undecided_block_data L s h r d = Inr ((), s')"
proof -
  obtain x where "insert_if_absent L s UNDECIDED_BLOCK_DATA_TABLE
      (undecided_key (rounds L) (rkeys L) (h, r)) d = Inr x"
    using insert_if_absent_ok [OF assms] by blast
  then show ?thesis by (simp add: store_undecided_block_data_def Db_insert_undecided_block_data_def Let_def)
qed

lemma received_stored:
  assumes "store_laws L \<alpha> \<beta>" and "redb_reliable (redb L)"
    and "PartStreamsMap_insert L (streams_map st) p m = (Inr (Some pp, sm) :: (Report, _) result)"
    and "accepts L (st\<lparr>streams_map := sm\<rparr>) pp" and "parts_round pp \<noteq> RNil"
  shows "\<exists>s. received_proposal_part L p m st =
    (Inr (Some (fst (assemble_value_from_parts L pp))), st\<lparr>streams_map := sm, store := s\<rparr>)"
proof -
  obtain v data where v: "assemble_value_from_parts L pp = (v, data)" by fastforce
  then have "prv_round v \<noteq> RNil" using assms(5) by (auto simp: assemble_value_from_parts_def Let_def)
  from store_undecided_proposal_ok [OF assms(1,2) this, of "store st"] obtain s1
    where "store_undecided_proposal L (store st) v = Inr ((), s1)" by blast
  moreover obtain s2 where "store_undecided_block_data L s1 (current_height st) (current_round st) data = Inr ((), s2)"
    using store_undecided_block_data_ok [OF assms(2)] by blast
  ultimately show ?thesis
    by (intro exI [of _ s2])
      (simp add: received_accepted [OF assms(3,4) v] on_store_def store_undecided_proposal_data_def v
        bind_io_def get_io_def return_io_def)
qed

text \<open>A sequence of messages received, with the proposals accepted and their streams.\<close>

fun receive_all ::
  "('db, 'tx, 'z) store_lib_scheme \<Rightarrow> (PeerId \<times> ProposalPart StreamMessage) list \<Rightarrow>
    ('db State, Report, (stream_key \<times> ProposedValue) list) io" where
  "receive_all L [] = return_io []"
| "receive_all L ((p, m) # ds) =
     bind_io (received_proposal_part L p m) (\<lambda>out.
     bind_io (receive_all L ds) (\<lambda>outs.
       return_io (case out of None \<Rightarrow> outs | Some v \<Rightarrow> ((p, sm_stream_id m), v) # outs)))"

lemma receive_all_feed:
  assumes L: "store_laws L \<alpha> \<beta>" "redb_reliable (redb L)"
  shows "feed L (streams_map st) ds = (Inr (outs, sm) :: (Report, _) result) \<Longrightarrow>
    \<forall>(k, pp) \<in> set outs. parts_round pp \<noteq> RNil \<Longrightarrow>
    \<exists>st'. receive_all L ds st =
        (Inr (map (\<lambda>(k, pp). (k, fst (assemble_value_from_parts L pp))) (filter (\<lambda>(k, pp). accepts L st pp) outs)), st') \<and>
      same_node st st' \<and> streams_map st' = sm"
proof (induction ds arbitrary: st outs)
  case Nil
  then show ?case by (simp add: same_node_refl)
next
  case (Cons d ds)
  obtain p m where d: "d = (p, m)" by (cases d)
  from Cons.prems(1) obtain out sm1 outs1
    where run: "PartStreamsMap_insert L (streams_map st) p m = (Inr (out, sm1) :: (Report, _) result)"
      and rest: "feed L sm1 ds = (Inr (outs1, sm) :: (Report, _) result)"
      and outs: "outs = (case out of None \<Rightarrow> outs1 | Some x \<Rightarrow> ((p, sm_stream_id m), x) # outs1)"
    by (auto simp: d and_then_Inr_iff)
  have nn: "\<forall>(k, pp) \<in> set outs1. parts_round pp \<noteq> RNil"
    using Cons.prems(2) outs by (auto split: option.splits)
  let ?acc = "\<exists>pp. out = Some pp \<and> accepts L st pp"
  have acc: "accepts L (st\<lparr>streams_map := sm1\<rparr>) pp = accepts L st pp" for pp
    by (rule accepts_same_node) (simp add: same_node_def)
  obtain s1 where step: "received_proposal_part L p m st =
      (Inr (if ?acc then Some (fst (assemble_value_from_parts L (the out))) else None),
       st\<lparr>streams_map := sm1, store := s1\<rparr>)"
  proof (cases ?acc)
    case True
    then obtain pp where pp: "out = Some pp" "accepts L st pp" by blast
    with Cons.prems(2) outs have "parts_round pp \<noteq> RNil" by simp
    with received_stored [OF L run [unfolded pp]] pp acc that show ?thesis by auto
  next
    case False
    with received_rejected [OF run] acc have "received_proposal_part L p m st = (Inr None, st\<lparr>streams_map := sm1\<rparr>)"
      by auto
    with False that [of "store st"] show ?thesis by simp
  qed
  let ?st1 = "st\<lparr>streams_map := sm1, store := s1\<rparr>"
  have same: "same_node st ?st1" by (simp add: same_node_def)
  from Cons.IH [of ?st1 outs1] rest nn obtain st' where
    IH: "receive_all L ds ?st1 = (Inr (map (\<lambda>(k, pp). (k, fst (assemble_value_from_parts L pp)))
        (filter (\<lambda>(k, pp). accepts L ?st1 pp) outs1)), st')" "same_node ?st1 st'" "streams_map st' = sm"
    by auto
  have "accepts L ?st1 pp = accepts L st pp" for pp by (rule accepts_same_node [OF same])
  with IH step outs same_node_trans [OF same IH(2)] show ?case
    by (auto simp: d bind_io_def return_io_def split: option.split)
qed

section \<open>From sender to receiver\<close>

text \<open>The streams of a node all of whose messages came through the codec.\<close>

definition streams_ok :: "PartStreamsMap \<Rightarrow> bool" where
  "streams_ok sm \<longleftrightarrow> (\<exists>D. map_inv D sm \<and> (\<forall>k. \<forall>m \<in> D k. content_ok (sm_content m)))"

lemma streams_ok_new: "streams_ok PartStreamsMap_new"
  unfolding streams_ok_def using map_inv_new [of "\<lambda>_. {}"] by blast

lemma genuine_round:
  assumes "genuine M pp" and "\<forall>m \<in> M. content_ok (sm_content m)"
  shows "parts_round pp \<noteq> RNil"
proof -
  from assms(1) obtain i xs where x: "pp = assembled i xs" "set xs \<subseteq> M" "xs \<noteq> []"
    "sm_content (hd xs) = SData (PartInit i)"
    by (auto simp: genuine_def)
  then have "content_ok (sm_content (hd xs))" using assms(2) by (meson hd_in_set subsetD)
  with x show ?thesis by (simp add: assembled_def)
qed

lemma feed_rounds:
  assumes "stream_laws (stream L)" and "feed L sm ds = (Inr (outs, sm') :: (Report, _) result)"
    and "streams_ok sm" and "\<forall>(p, m) \<in> set ds. content_ok (sm_content m)"
  shows "\<forall>(k, pp) \<in> set outs. parts_round pp \<noteq> RNil"
proof -
  from assms(3) obtain D where D: "map_inv D sm" "\<And>m k. m \<in> D k \<Longrightarrow> content_ok (sm_content m)"
    unfolding streams_ok_def by blast
  have "parts_round pp \<noteq> RNil" if "(k, pp) \<in> set outs" for k pp
  proof -
    have "pp \<in> set (emitted k outs)" using that by (force simp: emitted_def)
    with feed_inv [OF assms(1,2) D(1), of k] have "genuine (D k \<union> set (delivered k ds)) pp" by blast
    moreover have "\<forall>m \<in> D k \<union> set (delivered k ds). content_ok (sm_content m)"
      using D(2) [of _ k] assms(4) by (auto simp: delivered_def)
    ultimately show ?thesis by (rule genuine_round)
  qed
  then show ?thesis by blast
qed

text \<open>The receiver knows the sender: its validator set gives, for the sender's address, a validator
  with the public half of the sender's key.\<close>

definition knows :: "'z lib_scheme \<Rightarrow> 'db State \<Rightarrow> 'db2 State \<Rightarrow> bool" where
  "knows L rcv sender \<longleftrightarrow> (\<exists>v. get_by_address (get_validator_set rcv) (address sender) = Some v \<and>
     validator_public_key v = sk_public_key (crypto L) (private_key (signing_provider sender)))"

lemma verify_sent:
  assumes "crypto_laws (crypto L)" and "knows L rcv sender"
    and "parts_parts pp = PartInit i # data_part_list data @
      [PartFin \<lparr>fin_signature = sk_sign (crypto L) (private_key (signing_provider sender))
        (signed_hash L (init_height i) (init_round i) data)\<rparr>]"
    and "parts_proposer pp = address sender"
  shows "verify_proposal_signature L rcv pp = Inr ()"
proof -
  from assms(2) obtain v where "get_by_address (get_validator_set rcv) (address sender) = Some v"
    "validator_public_key v = sk_public_key (crypto L) (private_key (signing_provider sender))"
    by (auto simp: knows_def)
  moreover have "hash_parts L [] None (parts_parts pp) =
      (to_be_bytes (as_u64 (init_height i)) @ to_be_bytes (round_as_i64 (rounds L) (init_round i)) @ data,
       Some (sk_sign (crypto L) (private_key (signing_provider sender))
         (signed_hash L (init_height i) (init_round i) data)))"
    unfolding assms(3) hash_parts_sent by simp
  ultimately show ?thesis
    using assms(1,4)
    by (simp add: verify_proposal_signature_def signed_hash_def provider_verify_def crypto_lawsD(1))
qed

lemma emitted_map:
  "map snd (filter (\<lambda>(k', _). k' = k) (map (\<lambda>(k, pp). (k, f pp)) (filter (\<lambda>(k, pp). P pp) outs)))
    = map f (filter P (emitted k outs))"
  by (induction outs) (auto simp: emitted_def)

text \<open>What the receiver has accepted after the messages of a proposal; none has a nil round.\<close>

lemma proposal_delivered:
  fixes L :: "('db, 'tx, 'z) store_lib_scheme" and sender :: "'db2 State"
  assumes laws: "node_laws L \<alpha> \<beta>" "redb_reliable (redb L)"
    and sent: "stream_proposal L value data sender = (Inr msgs, sender')" "length data < 2 ^ 63"
    and known: "knows L rcv sender" "current_height rcv \<le> lpv_height value"
    and fresh: "streams_ok (streams_map rcv)"
      "streams (streams_map rcv) (peer, sm_stream_id (hd msgs)) = None"
    and ds: "no_overflow ds" "\<forall>(p, m) \<in> set ds. content_ok (sm_content m)"
      "set (delivered (peer, sm_stream_id (hd msgs)) ds) = set msgs"
  shows "\<exists>outs rcv'. receive_all L ds rcv = (Inr outs, rcv') \<and>
    map snd (filter (\<lambda>(k, _). k = (peer, sm_stream_id (hd msgs))) outs) =
      [\<lparr>prv_height = lpv_height value, prv_round = lpv_round value, prv_valid_round = RNil,
        prv_proposer = address sender, prv_value = Value_new L data, prv_validity = Valid\<rparr>] \<and>
    (\<forall>(k, v) \<in> set outs. prv_round v \<noteq> RNil)"
proof -
  note S = node_lawsD(1,2) [OF laws(1)]
  let ?k = "(peer, sm_stream_id (hd msgs))"
  from stream_proposal_Inr [OF sent] obtain i f
    where i: "i = \<lparr>init_height = lpv_height value, init_round = lpv_round value, init_proposer = address sender\<rparr>"
      and f: "f = \<lparr>fin_signature = sk_sign (crypto L) (private_key (signing_provider sender))
        (signed_hash L (lpv_height value) (lpv_round value) data)\<rparr>"
      and c: "complete_stream (sm_stream_id (hd msgs)) i msgs"
      and p: "parts_of msgs = PartInit i # data_part_list data @ [PartFin f]"
    by blast
  have "\<exists>outs sm. feed L (streams_map rcv) ds = (Inr (outs, sm) :: (Report, _) result) \<and>
      emitted ?k outs = (if set (delivered ?k ds) = set msgs then [assembled i msgs] else [])"
    by (rule reassembly [OF S(2) c ds(1) fresh(2)]) (simp add: ds(3))
  then obtain outs sm where run: "feed L (streams_map rcv) ds = (Inr (outs, sm) :: (Report, _) result)"
    and em: "emitted ?k outs = [assembled i msgs]"
    using ds(3) by auto
  note rounds = feed_rounds [OF S(2) run fresh(1) ds(2)]
  from receive_all_feed [OF S(1) laws(2) run rounds]
  obtain rcv' where rcv': "receive_all L ds rcv = (Inr (map (\<lambda>(k, pp). (k, fst (assemble_value_from_parts L pp)))
      (filter (\<lambda>(k, pp). accepts L rcv pp) outs)), rcv')"
    by blast
  have "verify_proposal_signature L rcv (assembled i msgs) = Inr ()"
    by (rule verify_sent [OF node_lawsD(4) [OF laws(1)] known(1), where data = data and i = i])
      (simp_all add: assembled_def p f i)
  then have acc: "accepts L rcv (assembled i msgs)"
    using known(2) by (simp add: accepts_def assembled_def i)
  have val: "fst (assemble_value_from_parts L (assembled i msgs)) =
      \<lparr>prv_height = lpv_height value, prv_round = lpv_round value, prv_valid_round = RNil,
        prv_proposer = address sender, prv_value = Value_new L data, prv_validity = Valid\<rparr>"
    by (simp add: assemble_value_from_parts_def assembled_def p as_data_sent i Let_def)
  have "map snd (filter (\<lambda>(k, _). k = ?k) (map (\<lambda>(k, pp). (k, fst (assemble_value_from_parts L pp)))
      (filter (\<lambda>(k, pp). accepts L rcv pp) outs))) = [fst (assemble_value_from_parts L (assembled i msgs))]"
    unfolding emitted_map [of ?k "\<lambda>pp. fst (assemble_value_from_parts L pp)" "accepts L rcv" outs] em
    using acc by simp
  moreover have "prv_round (fst (assemble_value_from_parts L pp)) = parts_round pp" for pp
    by (simp add: assemble_value_from_parts_def Let_def)
  ultimately show ?thesis using rcv' val rounds by fastforce
qed

text \<open>C1: a proposal sent by a proposer whom the receiver's validator set knows, for a height the
  receiver has not passed, is reassembled, verified and accepted by the receiver exactly once,
  whatever the order of its messages, with repetitions and other streams interleaved: the value
  delivered to consensus is the proposer's, with its height, round, address and data.\<close>

theorem proposal_dissemination:
  fixes L :: "('db, 'tx, 'z) store_lib_scheme" and sender :: "'db2 State"
  assumes laws: "node_laws L \<alpha> \<beta>" "redb_reliable (redb L)"
    and sent: "stream_proposal L value data sender = (Inr msgs, sender')" "length data < 2 ^ 63"
    and known: "knows L rcv sender" "current_height rcv \<le> lpv_height value"
    and fresh: "streams_ok (streams_map rcv)"
      "streams (streams_map rcv) (peer, sm_stream_id (hd msgs)) = None"
    and ds: "no_overflow ds" "\<forall>(p, m) \<in> set ds. content_ok (sm_content m)"
      "set (delivered (peer, sm_stream_id (hd msgs)) ds) = set msgs"
  shows "\<exists>outs rcv'. receive_all L ds rcv = (Inr outs, rcv') \<and>
    map snd (filter (\<lambda>(k, _). k = (peer, sm_stream_id (hd msgs))) outs) =
      [\<lparr>prv_height = lpv_height value, prv_round = lpv_round value, prv_valid_round = RNil,
        prv_proposer = address sender, prv_value = Value_new L data, prv_validity = Valid\<rparr>]"
  using proposal_delivered [OF assms] by (elim exE conjE) (intro exI conjI)

section \<open>What acceptance means\<close>

lemma received_cases:
  assumes "received_proposal_part L p m st = (r, st')"
  obtains (fault) e where "r = Inl e"
  | (ignored) sm where "r = Inr None" "st' = st\<lparr>streams_map := sm\<rparr>"
  | (accepted) pp sm where "PartStreamsMap_insert L (streams_map st) p m = (Inr (Some pp, sm) :: (Report, _) result)"
      "accepts L (st\<lparr>streams_map := sm\<rparr>) pp" "r = Inr (Some (fst (assemble_value_from_parts L pp)))"
proof (cases "PartStreamsMap_insert L (streams_map st) p m :: (Report, _) result")
  case (Inl e)
  with assms have "r = Inl e" by (simp add: received_proposal_part_def insert_part_def bind_io_def)
  then show thesis by (rule fault)
next
  case (Inr x)
  obtain out sm where x: "x = (out, sm)" by (cases x)
  show thesis
  proof (cases "\<exists>pp. out = Some pp \<and> accepts L (st\<lparr>streams_map := sm\<rparr>) pp")
    case True
    then obtain pp where pp: "out = Some pp" "accepts L (st\<lparr>streams_map := sm\<rparr>) pp" by blast
    obtain v data where v: "assemble_value_from_parts L pp = (v, data)" by fastforce
    from received_accepted [OF _ pp(2) v] Inr x pp(1) assms
    have "bind_io (on_store (\<lambda>s. store_undecided_proposal L s v)) (\<lambda>_.
        bind_io (store_undecided_proposal_data L data) (\<lambda>_. return_io (Some v))) (st\<lparr>streams_map := sm\<rparr>) = (r, st')"
      by simp
    then show thesis
    proof (cases r)
      case (Inr y)
      with \<open>bind_io _ _ _ = (r, st')\<close> have "y = Some v" by (auto simp: bind_io_Inr)
      then show thesis using accepted [of pp sm] Inr \<open>PartStreamsMap_insert L _ p m = Inr x\<close> x pp v by simp
    qed (rule fault)
  next
    case False
    with received_rejected [of L st p m out sm] Inr x assms
    have "r = Inr None" "st' = st\<lparr>streams_map := sm\<rparr>" by auto
    then show thesis by (rule ignored)
  qed
qed

lemma verify_proposal_signature_Inr:
  "verify_proposal_signature L st pp = Inr () \<longleftrightarrow> (\<exists>hasher s v.
     hash_parts L [] None (parts_parts pp) = (hasher, Some s) \<and>
     get_by_address (get_validator_set st) (parts_proposer pp) = Some v \<and>
     pk_verify (crypto L) (validator_public_key v) (to_be_bytes (keccak256 (crypto L) hasher)) s)"
  by (auto simp: verify_proposal_signature_def Let_def provider_verify_def split: prod.splits if_splits)

text \<open>C10: a proposal the node hands to consensus is not older than its current height, comes from a
  member of its validator set, and carries a signature by that member's key over the hash of what
  its parts carry.\<close>

theorem accepted_proposal_signed:
  assumes "received_proposal_part L from part st = (Inr (Some value), st')"
  shows "\<exists>pp v hasher s. value = fst (assemble_value_from_parts L pp) \<and>
    current_height st \<le> prv_height value \<and>
    v \<in> set (validators (get_validator_set st)) \<and> validator_address v = prv_proposer value \<and>
    hash_parts L [] None (parts_parts pp) = (hasher, Some s) \<and>
    pk_verify (crypto L) (validator_public_key v) (to_be_bytes (keccak256 (crypto L) hasher)) s"
  using assms
proof (cases rule: received_cases)
  case (accepted pp sm)
  then obtain hasher s v where v: "hash_parts L [] None (parts_parts pp) = (hasher, Some s)"
    "get_by_address (get_validator_set st) (parts_proposer pp) = Some v"
    "pk_verify (crypto L) (validator_public_key v) (to_be_bytes (keccak256 (crypto L) hasher)) s"
    by (auto simp: accepts_def verify_proposal_signature_Inr get_validator_set_def)
  have "prv_proposer value = parts_proposer pp" "prv_height value = parts_height pp"
    using accepted(3) by (simp_all add: assemble_value_from_parts_def Let_def)
  with v accepted get_by_address_Some [OF v(2)] show ?thesis
    by (intro exI [of _ pp] exI [of _ v] exI [of _ hasher] exI [of _ s]) (simp add: accepts_def not_less)
qed simp_all

text \<open>C24: a complete proposal that is older than the node's current height, or whose signature is
  missing, by an unknown proposer or wrong, is dropped: the node reports nothing to consensus, and
  nothing but its streams changes.\<close>

theorem bad_proposal_dropped:
  assumes "PartStreamsMap_insert L (streams_map st) from part = (Inr (Some pp, sm) :: (Report, _) result)"
    and "parts_height pp < current_height st \<or> verify_proposal_signature L st pp \<noteq> Inr ()"
  shows "received_proposal_part L from part st = (Inr None, st\<lparr>streams_map := sm\<rparr>)"
proof -
  have "\<not> accepts L (st\<lparr>streams_map := sm\<rparr>) pp"
    using assms(2) verify_same_node [of "st\<lparr>streams_map := sm\<rparr>" st L pp] by (auto simp: accepts_def)
  with received_rejected [OF assms(1)] show ?thesis by simp
qed

text \<open>C27: the signature does not fix how the bytes are split into parts. Where the signed data contain
  the bytes of a height and a round, carrying those bytes as a second init part leaves the verdict
  of the signature check unchanged, while the value assembled from the parts loses them.\<close>

theorem signature_malleable:
  assumes "parts_parts pp = [PartInit i, PartData \<lparr>data_bytes = d1 @ to_be_bytes (as_u64 h) @
      to_be_bytes (round_as_i64 (rounds L) r) @ d2\<rparr>, PartFin f]"
  shows "let forged = pp\<lparr>parts_parts := [PartInit i, PartData \<lparr>data_bytes = d1\<rparr>,
      PartInit \<lparr>init_height = h, init_round = r, init_proposer = a\<rparr>, PartData \<lparr>data_bytes = d2\<rparr>, PartFin f]\<rparr> in
    verify_proposal_signature L st forged = verify_proposal_signature L st pp \<and>
    prv_value (fst (assemble_value_from_parts L forged)) \<noteq> prv_value (fst (assemble_value_from_parts L pp))"
proof -
  have "d1 @ d2 \<noteq> d1 @ to_be_bytes (as_u64 h) @ to_be_bytes (round_as_i64 (rounds L) r) @ d2"
    by (auto dest: arg_cong [where f = length])
  then show ?thesis
    using assms by (simp add: verify_proposal_signature_def assemble_value_from_parts_def Let_def Value_new_inject)
qed

text \<open>C28: the block data of an accepted proposal, the bytes of its value, are put under the node's current
  height and round, where an entry that exists is kept, and nothing else changes in their table. So for a
  proposal of another height or round the entry of its own height and round is what it was before, none
  where there was none.\<close>

theorem block_data_stored_under_current_round:
  assumes "store_laws L \<alpha> \<beta>" and "received_proposal_part L from part st = (Inr (Some value), st')"
  shows "let blocks = \<lambda>s. by_round L (\<alpha> (db_handle (store s))) UNDECIDED_BLOCK_DATA_TABLE;
        here = (current_height st, current_round st) in
      blocks st' = (if blocks st here = None then (blocks st)(here \<mapsto> val_extensions (prv_value value)) else blocks st) \<and>
      ((prv_height value, prv_round value) \<noteq> here \<longrightarrow>
        blocks st' (prv_height value, prv_round value) = blocks st (prv_height value, prv_round value))"
  using assms(2)
proof (cases rule: received_cases)
  case (accepted pp sm)
  obtain v data where v: "assemble_value_from_parts L pp = (v, data)" by fastforce
  with accepted(3) have [simp]: "value = v" by simp
  from assms(2) have "bind_io (on_store (\<lambda>s. store_undecided_proposal L s v)) (\<lambda>_.
      bind_io (store_undecided_proposal_data L data) (\<lambda>_. return_io (Some v))) (st\<lparr>streams_map := sm\<rparr>)
      = (Inr (Some v), st')"
    by (simp add: received_accepted [OF accepted(1,2) v])
  then obtain s1 s2 where 1: "Db_insert_undecided_proposal L (store st) v = Inr ((), s1)"
    and 2: "Db_insert_undecided_block_data L s1 (current_height st) (current_round st) data = Inr ((), s2)"
    and st': "store st' = s2"
    by (auto simp: bind_io_Inr on_store_def store_undecided_proposal_data_def store_undecided_proposal_def
        store_undecided_block_data_def map_err_def bind_io_def split: sum.splits fault.splits prod.splits)
  from Db_insert_undecided_proposal_Inr [OF 1] obtain b where
    "insert_if_absent L (store st) UNDECIDED_PROPOSALS_TABLE
      (undecided_key (rounds L) (rkeys L) (prv_height v, prv_round v)) b = Inr (db_handle s1)" by blast
  note other = insert_if_absent_other(2) [OF assms(1) this, of UNDECIDED_BLOCK_DATA_TABLE]
  let ?s = "\<lambda>s k. by_round L (\<alpha> (db_handle s)) UNDECIDED_BLOCK_DATA_TABLE k"
  let ?c = "(current_height st, current_round st)"
  have p: "?s s2 k = (if k = ?c \<and> ?s s1 k = None then Some data else ?s s1 k)" for k
    using undecided_block_data.put_stored [OF assms(1), of s1 "(current_height st, current_round st, data)" "()" s2 k] 2
    by (simp cong: if_cong)
  have ext: "val_extensions (prv_value value) = data"
    using v by (auto simp: assemble_value_from_parts_def Let_def Value_new_def)
  have "?s s1 k = ?s (store st) k" for k by (rule other) simp
  then have "?s s1 = ?s (store st)" by (simp add: fun_eq_iff)
  with p have "?s s2 = (if ?s (store st) ?c = None then (?s (store st))(?c \<mapsto> data) else ?s (store st))"
    by (auto simp: fun_eq_iff)
  then show ?thesis by (simp only: st' ext Let_def) auto
qed simp_all

end
