(* ===== verification/Dissemination_Examples.thy ===== *)
theory Dissemination_Examples
  imports Dissemination Reference_Db
begin

text \<open>
  A node on the in-memory database that is its own only validator, and a proposal it sends: the
  concrete inputs at which the properties of \<open>Dissemination\<close> are applied.
\<close>

definition sample_node :: "mem State" where
  "sample_node = State_new \<lparr>validator_set = \<lparr>validators =
      [\<lparr>validator_address = Address 7, validator_public_key = PublicKey [9], validator_voting_power = 1\<rparr>]\<rparr>\<rparr>
    \<lparr>private_key = PrivateKey [9]\<rparr> (Address 7) (Height 1) empty_store mem_lib"

definition sample_lpv :: LocallyProposedValue where
  "sample_lpv = \<lparr>lpv_height = Height 3, lpv_round = RSome 0, lpv_value = Value_new mem_lib [5, 6]\<rparr>"

definition sample_fin :: ProposalFin where
  "sample_fin = \<lparr>fin_signature = sk_sign std_crypto (PrivateKey [9]) (signed_hash mem_lib (Height 3) (RSome 0) [5, 6])\<rparr>"

definition sample_sid :: StreamId where
  "sample_sid = StreamId (to_be_bytes (1 :: u64) @ to_be_bytes (0 :: u32) @ to_be_bytes (0 :: u32))"

definition sample_msgs :: "ProposalPart StreamMessage list" where
  "sample_msgs = map (\<lambda>(n, c). \<lparr>sm_stream_id = sample_sid, sm_sequence = n, sm_content = c\<rparr>)
     [(0, SData (PartInit \<lparr>init_height = Height 3, init_round = RSome 0, init_proposer = Address 7\<rparr>)),
      (1, SData (PartData \<lparr>data_bytes = [5, 6]\<rparr>)), (2, SData (PartFin sample_fin)), (3, SFin)]"

lemma sample_node_sel [simp]:
  "current_height sample_node = Height 1" "current_round sample_node = RSome 0"
  "address sample_node = Address 7" "stream_nonce sample_node = 0"
  "signing_provider sample_node = \<lparr>private_key = PrivateKey [9]\<rparr>"
  "streams_map sample_node = PartStreamsMap_new" "store sample_node = empty_store"
  "validators (get_validator_set sample_node) =
    [\<lparr>validator_address = Address 7, validator_public_key = PublicKey [9], validator_voting_power = 1\<rparr>]"
  by (simp_all add: sample_node_def State_new_def get_validator_set_def std_rounds_def)

lemma sample_sent:
  "stream_proposal mem_lib sample_lpv [5, 6] sample_node =
    (Inr sample_msgs, sample_node\<lparr>stream_nonce := 1\<rparr>)"
proof -
  have "chunks CHUNK_SIZE [5, 6 :: u8] = [[5, 6]]"
    by (simp add: CHUNK_SIZE_def chunks.simps [of "131072"])
  then have "make_proposal_parts mem_lib sample_node sample_lpv [5, 6] =
      [PartInit \<lparr>init_height = Height 3, init_round = RSome 0, init_proposer = Address 7\<rparr>,
       PartData \<lparr>data_bytes = [5, 6]\<rparr>, PartFin sample_fin]"
    by (simp add: make_proposal_parts_eq data_part_list_def ProposalData_new_def
        sample_lpv_def sample_fin_def)
  then show ?thesis
    by (simp add: stream_proposal_def stream_id_def bind_io_def get_io_def lift_io_def modify_io_def
        return_io_def add_chk_def std_rounds_def std_ids_def expect_def sample_msgs_def sample_sid_def)
qed

lemma sample_knows: "knows mem_lib sample_node sample_node"
  by (simp add: knows_def get_by_address_def std_crypto_def)

lemma mem_node_laws: "node_laws mem_lib map_of map_of"
  by (simp add: node_laws_def mem_store_laws std_stream_laws)

definition sample_ds :: "(PeerId \<times> ProposalPart StreamMessage) list" where
  "sample_ds = map (Pair (PeerId [4])) (rev sample_msgs @ sample_msgs)"

lemma sample_ds_facts:
  "sm_stream_id (hd sample_msgs) = sample_sid" "no_overflow sample_ds"
  "\<forall>(p, m) \<in> set sample_ds. content_ok (sm_content m)"
  "set (delivered (PeerId [4], sample_sid) sample_ds) = set sample_msgs"
  "streams PartStreamsMap_new k = None"
  by (auto simp: sample_msgs_def sample_ds_def no_overflow_def delivered_def PartStreamsMap_new_def)

theorem proposal_dissemination_witness:
  "\<exists>outs rcv'. receive_all mem_lib sample_ds sample_node = (Inr outs, rcv') \<and>
    map snd (filter (\<lambda>(k, _). k = (PeerId [4], sample_sid)) outs) =
      [\<lparr>prv_height = Height 3, prv_round = RSome 0, prv_valid_round = RNil,
        prv_proposer = Address 7, prv_value = Value_new mem_lib [5, 6], prv_validity = Valid\<rparr>]"
  using proposal_dissemination [OF mem_node_laws _ sample_sent _ sample_knows, of "PeerId [4]" sample_ds]
  by (simp add: mem_redb_reliable streams_ok_new sample_ds_facts sample_lpv_def less_eq_Height_def)

text \<open>Running the messages through the streams alone, and through the node.\<close>

lemma sample_complete_proposal:
  "\<exists>i. complete_stream sample_sid i sample_msgs \<and> i = \<lparr>init_height = Height 3, init_round = RSome 0, init_proposer = Address 7\<rparr>"
  using stream_proposal_Inr [OF sample_sent] by (simp add: sample_lpv_def sample_ds_facts)

lemma sample_feed:
  "\<exists>outs sm i. feed mem_lib PartStreamsMap_new sample_ds = (Inr (outs, sm) :: (Report, _) result) \<and>
    i = \<lparr>init_height = Height 3, init_round = RSome 0, init_proposer = Address 7\<rparr> \<and>
    emitted (PeerId [4], sample_sid) outs = [assembled i sample_msgs]"
proof -
  obtain i where i: "complete_stream sample_sid i sample_msgs"
    "i = \<lparr>init_height = Height 3, init_round = RSome 0, init_proposer = Address 7\<rparr>"
    using sample_complete_proposal by blast
  have "stream_laws (stream mem_lib)" by (simp add: std_stream_laws)
  from reassembly [OF this i(1) sample_ds_facts(2), of PartStreamsMap_new "PeerId [4]"] i(2)
  show ?thesis by (auto simp: sample_ds_facts)
qed

lemma feed_step:
  "feed L sm ds = (Inr (outs, sm') :: (Report, _) result) \<Longrightarrow> (k, pp) \<in> set outs \<Longrightarrow>
    \<exists>p m sm1 sm2. PartStreamsMap_insert L sm1 p m = (Inr (Some pp, sm2) :: (Report, _) result)"
proof (induction ds arbitrary: sm outs)
  case (Cons d ds)
  obtain p m where d: "d = (p, m)" by (cases d)
  with Cons.prems(1) obtain out sm1 outs1
    where "PartStreamsMap_insert L sm p m = (Inr (out, sm1) :: (Report, _) result)"
      "feed L sm1 ds = (Inr (outs1, sm') :: (Report, _) result)"
      "outs = (case out of None \<Rightarrow> outs1 | Some x \<Rightarrow> ((p, sm_stream_id m), x) # outs1)"
    by (auto simp: and_then_Inr_iff)
  with Cons.IH [of sm1 outs1] Cons.prems(2) show ?case by (auto split: option.splits)
qed simp

lemma emitted_mem: "pp \<in> set (emitted k outs) \<Longrightarrow> (k, pp) \<in> set outs"
  by (auto simp: emitted_def)

theorem bad_proposal_dropped_witness:
  "\<exists>p m sm sm'. received_proposal_part mem_lib p m (sample_node\<lparr>current_height := Height 5, streams_map := sm\<rparr>)
    = (Inr None, sample_node\<lparr>current_height := Height 5, streams_map := sm'\<rparr>)"
proof -
  let ?st = "\<lambda>sm. sample_node\<lparr>current_height := Height 5, streams_map := sm\<rparr>"
  obtain outs sm i where run: "feed mem_lib PartStreamsMap_new sample_ds = (Inr (outs, sm) :: (Report, _) result)"
    and i: "i = \<lparr>init_height = Height 3, init_round = RSome 0, init_proposer = Address 7\<rparr>"
    and em: "emitted (PeerId [4], sample_sid) outs = [assembled i sample_msgs]"
    using sample_feed by blast
  from em have "((PeerId [4], sample_sid), assembled i sample_msgs) \<in> set outs"
    by (intro emitted_mem) simp
  from feed_step [OF run this] obtain p m sm1 sm2
    where "PartStreamsMap_insert mem_lib sm1 p m = (Inr (Some (assembled i sample_msgs), sm2) :: (Report, _) result)"
    by blast
  with i bad_proposal_dropped [of mem_lib "?st sm1" p m "assembled i sample_msgs" sm2]
  show ?thesis by (intro exI [of _ p] exI [of _ m] exI [of _ sm1] exI [of _ sm2])
      (simp add: assembled_def less_Height_def)
qed

lemma received_same_node:
  assumes "received_proposal_part L p m st = (r, st')"
  shows "same_node st st'"
  using assms
  by (auto simp: received_proposal_part_def insert_part_def on_store_def store_undecided_proposal_data_def
      bind_io_def get_io_def return_io_def lift_io_def same_node_def
      split: sum.splits fault.splits option.splits prod.splits if_splits)

lemma receive_all_step:
  "receive_all L ds st = (Inr outs, st') \<Longrightarrow> (k, v) \<in> set outs \<Longrightarrow>
    \<exists>p m s s'. received_proposal_part L p m s = (Inr (Some v), s') \<and> same_node st s"
proof (induction ds arbitrary: st outs)
  case (Cons d ds)
  obtain p m where d: "d = (p, m)" by (cases d)
  with Cons.prems(1) obtain out s1 outs1
    where 1: "received_proposal_part L p m st = (Inr out, s1)" "receive_all L ds s1 = (Inr outs1, st')"
      "outs = (case out of None \<Rightarrow> outs1 | Some v \<Rightarrow> ((p, sm_stream_id m), v) # outs1)"
    by (auto simp: bind_io_Inr)
  show ?case
  proof (cases "(k, v) \<in> set outs1")
    case True
    from Cons.IH [OF 1(2) this] same_node_trans [OF received_same_node [OF 1(1)]] show ?thesis by blast
  next
    case False
    with Cons.prems(2) 1(3) have "out = Some v" by (auto split: option.splits)
    with 1(1) same_node_refl show ?thesis by blast
  qed
qed (simp add: return_io_def)

lemma sample_received:
  "\<exists>p m s s' v. received_proposal_part mem_lib p m s = (Inr (Some v), s') \<and> prv_height v = Height 3 \<and>
    prv_round v = RSome 0 \<and> current_height s = Height 1"
proof -
  obtain outs sm i where run: "feed mem_lib (streams_map sample_node) sample_ds = (Inr (outs, sm) :: (Report, _) result)"
    and i: "i = \<lparr>init_height = Height 3, init_round = RSome 0, init_proposer = Address 7\<rparr>"
    and em: "emitted (PeerId [4], sample_sid) outs = [assembled i sample_msgs]"
    using sample_feed by auto
  have rounds: "\<forall>(k, pp) \<in> set outs. parts_round pp \<noteq> RNil"
    by (rule feed_rounds [OF _ run]) (simp_all add: std_stream_laws streams_ok_new sample_ds_facts)
  let ?val = "\<lambda>pp. fst (assemble_value_from_parts mem_lib pp)"
  have redb: "redb_reliable (redb mem_lib)" by (simp add: mem_redb_reliable)
  from receive_all_feed [OF mem_store_laws redb run rounds] obtain st' where
    all: "receive_all mem_lib sample_ds sample_node = (Inr (map (\<lambda>(k, pp). (k, ?val pp))
        (filter (\<lambda>(k, pp). accepts mem_lib sample_node pp) outs)), st')"
    by blast
  have p: "parts_of sample_msgs = PartInit i # data_part_list [5, 6] @ [PartFin sample_fin]"
    by (simp add: parts_of_def sample_msgs_def List.map_filter_simps i data_part_list_def
        CHUNK_SIZE_def chunks.simps [of "131072"] ProposalData_new_def)
  have "verify_proposal_signature mem_lib sample_node (assembled i sample_msgs) = Inr ()"
    by (rule verify_sent [OF _ sample_knows, where i = i and data = "[5, 6]"])
      (simp_all add: assembled_def p i sample_fin_def std_crypto_laws)
  then have "accepts mem_lib sample_node (assembled i sample_msgs)"
    by (simp add: accepts_def assembled_def i less_Height_def)
  moreover have "((PeerId [4], sample_sid), assembled i sample_msgs) \<in> set outs"
    by (rule emitted_mem) (simp add: em)
  ultimately have "((PeerId [4], sample_sid), ?val (assembled i sample_msgs)) \<in>
      set (map (\<lambda>(k, pp). (k, ?val pp)) (filter (\<lambda>(k, pp). accepts mem_lib sample_node pp) outs))"
    by force
  from receive_all_step [OF all this] obtain p m s s'
    where "received_proposal_part mem_lib p m s = (Inr (Some (?val (assembled i sample_msgs))), s')"
      and same: "same_node sample_node s" by blast
  then show ?thesis using same_nodeD(1) [OF same]
    by (intro exI [of _ p] exI [of _ m] exI [of _ s] exI [of _ s'] exI [of _ "?val (assembled i sample_msgs)"])
      (simp add: assemble_value_from_parts_def assembled_def i Let_def)
qed

theorem accepted_proposal_signed_witness:
  "\<exists>p m s s' value v. received_proposal_part mem_lib p m s = (Inr (Some value), s') \<and>
    v \<in> set (validators (get_validator_set s)) \<and> validator_address v = prv_proposer value"
proof -
  obtain p m s s' v where run: "received_proposal_part mem_lib p m s = (Inr (Some v), s')"
    using sample_received by blast
  from accepted_proposal_signed [OF run] obtain va
    where "va \<in> set (validators (get_validator_set s))" "validator_address va = prv_proposer v" by blast
  with run show ?thesis by blast
qed

theorem block_data_stored_under_current_round_witness:
  "\<exists>p m (s :: mem State) s' v. received_proposal_part mem_lib p m s = (Inr (Some v), s') \<and>
    (let blocks = \<lambda>s. by_round mem_lib (map_of (db_handle (store s))) UNDECIDED_BLOCK_DATA_TABLE;
         here = (current_height s, current_round s) in
      blocks s' here = (if blocks s here = None then Some (val_extensions (prv_value v)) else blocks s here) \<and>
      blocks s' (prv_height v, prv_round v) = blocks s (prv_height v, prv_round v))"
proof -
  obtain p m s s' v where run: "received_proposal_part mem_lib p m s = (Inr (Some v), s')"
    and h: "prv_height v = Height 3" "current_height s = Height 1"
    using sample_received by blast
  then have "(prv_height v, prv_round v) \<noteq> (current_height s, current_round s)" by simp
  with block_data_stored_under_current_round [OF mem_store_laws run] show ?thesis
    unfolding Let_def
    by (rule_tac x = p in exI, rule_tac x = m in exI, rule_tac x = s in exI, rule_tac x = s' in exI,
        rule_tac x = v in exI) (simp add: run)
qed

definition sample_pp :: ProposalParts where
  "sample_pp = \<lparr>parts_height = Height 3, parts_round = RSome 0, parts_proposer = Address 7,
     parts_parts = [PartInit \<lparr>init_height = Height 3, init_round = RSome 0, init_proposer = Address 7\<rparr>,
       PartData \<lparr>data_bytes = [1] @ to_be_bytes (as_u64 (Height 3)) @
         to_be_bytes (round_as_i64 (rounds mem_lib) (RSome 0)) @ [2]\<rparr>, PartFin sample_fin]\<rparr>"

theorem signature_malleable_witness:
  "\<exists>forged. verify_proposal_signature mem_lib sample_node forged =
      verify_proposal_signature mem_lib sample_node sample_pp \<and>
    prv_value (fst (assemble_value_from_parts mem_lib forged)) \<noteq>
      prv_value (fst (assemble_value_from_parts mem_lib sample_pp))"
  using signature_malleable [of sample_pp _ "[1]" "Height 3" mem_lib "RSome 0" "[2]" _ "Address 7" sample_node]
  unfolding Let_def sample_pp_def ProposalParts.select_convs by blast

end
