(* ===== verification/Types_Correct.thy ===== *)
theory Types_Correct
  imports Codec Signing Validators Reference_Libs
begin

text \<open>
  The properties of the crate \<open>types\<close>: round trips of the network codec, signatures, the checks of
  a commit certificate, proposer selection, voting power and heights. The lemmas are those of the
  locales \<open>wire_format\<close>, \<open>signed_message_scheme\<close> and \<open>proposer_rotation\<close>, through their
  interpretations on the definitions of the crate.
\<close>

section \<open>The network codec\<close>

text \<open>C21: what a node encodes for the network, its peers decode: stream messages, proposed values,
  status messages and requests unchanged, consensus messages and responses without the vote
  extensions, which have no place in the protobuf form. The only condition is that a round that the
  format stores as a number is not nil.\<close>

theorem network_roundtrip:
  assumes "msg_laws L"
  shows "(content_ok (sm_content m) \<longrightarrow> and_then (StreamMessage_encode L m) (StreamMessage_decode L) = Inr m) \<and>
    (prv_round p \<noteq> RNil \<longrightarrow> and_then (ProposedValue_encode L p) (ProposedValue_decode L) = Inr p) \<and>
    and_then (Status_encode L s) (Status_decode L) = Inr s \<and>
    (request_ok q \<longrightarrow> and_then (Request_encode L q) (Request_decode L) = Inr q) \<and>
    (response_ok r \<longrightarrow> and_then (Response_encode L r) (Response_decode L) = Inr (response_carried r)) \<and>
    (consensus_msg_ok c \<longrightarrow>
      and_then (SignedConsensusMsg_encode L c) (SignedConsensusMsg_decode L) = Inr (consensus_msg_carried c))"
proof -
  have L: "lib_laws L" using assms by (simp add: msg_laws_def)
  show ?thesis
    using stream_codec.roundtrip [OF assms] proposed_value_codec.roundtrip [OF L]
      status_codec.roundtrip [OF L TrueI] request_codec.roundtrip [OF L]
      response_codec.roundtrip [OF L] consensus_msg_codec.roundtrip [OF L]
    by blast
qed

section \<open>Signatures\<close>

text \<open>C22: a vote, a proposal and a proposal part signed with a private key verify under its public
  key, whichever node verifies; attaching an extension to a signed vote does not invalidate it.\<close>

theorem signed_messages_verify:
  fixes L :: "'z msg_lib_scheme"
  assumes "msg_laws L" and "vote_round v \<noteq> RNil" and "prop_round p \<noteq> RNil" and "part_round_ok t"
  shows "(\<exists>s. sign_vote L k v = (Inr \<lparr>signed_message = v, signed_signature = s\<rparr> :: (unit, _) result) \<and>
      (\<forall>e. verify_signed_vote L q (v\<lparr>vote_extension := e\<rparr>) s (sk_public_key (crypto L) (private_key k))
        = (Inr True :: (unit, _) result))) \<and>
    (\<exists>s. sign_proposal L k p = (Inr \<lparr>signed_message = p, signed_signature = s\<rparr> :: (unit, _) result) \<and>
      verify_signed_proposal L q p s (sk_public_key (crypto L) (private_key k)) = (Inr True :: (unit, _) result)) \<and>
    (\<exists>s. sign_proposal_part L k t = (Inr \<lparr>signed_message = t, signed_signature = s\<rparr> :: (unit, _) result) \<and>
      verify_signed_proposal_part L q t s (sk_public_key (crypto L) (private_key k)) = (Inr True :: (unit, _) result))"
proof -
  from vote_signing.sign_verifies [OF assms(1,2), of k q] obtain s
    where s: "sign_vote L k v = (Inr \<lparr>signed_message = v, signed_signature = s\<rparr> :: (unit, _) result)" by blast
  have "verify_signed_vote L q (v\<lparr>vote_extension := e\<rparr>) s (sk_public_key (crypto L) (private_key k))
      = (Inr True :: (unit, _) result)" for e
    using vote_signing.signature_shared [OF assms(1,2) Vote_to_bytes_extension [OF assms(1)] s] by simp
  with s proposal_signing.sign_verifies [OF assms(1,3), of k q] part_signing.sign_verifies [OF assms(1,4), of k q]
  show ?thesis by blast
qed

text \<open>C23: the signature of a commit certificate by a validator counts with its voting power if it is a
  signature by the validator's key of the precommit for the certificate's value, height and round;
  the verdict of any other signature is the verification of that very vote, and a failure names the
  signature.\<close>

theorem commit_signature_checked:
  fixes L :: "'z msg_lib_scheme"
  assumes "msg_laws L" and "cert_round c \<noteq> RNil"
  shows "(validator_public_key w = sk_public_key (crypto L) (private_key k) \<longrightarrow>
      (\<exists>s. sign_vote L k (Vote_new_precommit (cert_height c) (cert_round c) (Val (cert_value_id c)) (validator_address w))
          = (Inr s :: (unit, _) result) \<and>
        verify_commit_signature L q c \<lparr>cs_address = a, cs_signature = signed_signature s\<rparr> w
          = Inr (validator_voting_power w))) \<and>
    verify_commit_signature L q c sig w =
      (if verify_signed_vote L q (Vote_new_precommit (cert_height c) (cert_round c)
            (Val (cert_value_id c)) (validator_address w)) (cs_signature sig) (validator_public_key w)
            = (Inr True :: (unit, bool) result)
       then Inr (validator_voting_power w) else fail (InvalidSignature sig))"
proof -
  let ?v = "Vote_new_precommit (cert_height c) (cert_round c) (Val (cert_value_id c)) (validator_address w)"
  note iff = verify_commit_signature_iff [OF assms]
  have "vote_round ?v \<noteq> RNil" using assms(2) by (simp add: Vote_new_precommit_def)
  from vote_signing.sign_verifies [OF assms(1) this, of k q] show ?thesis
    by (auto simp: iff)
qed

section \<open>Proposer selection\<close>

lemma rotation_needed:
  assumes "round_laws (rounds L)" and "length (validators vs) < 2 ^ 64" and "\<not> rotation_ok vs h n"
  shows "panics (select_proposer L vs h (RSome n))" "panics (RotateProposer_select_proposer L h (RSome n) vs)"
proof -
  have un: "unat (ucast n :: u64) = unat n" by (rule unat_ucast_u32)
  have c: "vs_count vs = 0 \<longleftrightarrow> validators vs = []"
    using unat_vs_count [OF assms(2)] by (metis length_0_conv unat_eq_zero)
  from assms(2,3) have no: "validators vs = [] \<or> hval h < 1 \<or> 2 ^ 64 \<le> hval h - 1 + unat n"
    by (auto simp: rotation_ok_def)
  show "panics (select_proposer L vs h (RSome n))" "panics (RotateProposer_select_proposer L h (RSome n) vs)"
    using no c assms(1)
    by (auto simp: select_proposer_def RotateProposer_select_proposer_def Let_def assert_that_def panics_def
        add_chk_def sub_chk_def rem_chk_def un unat_sub_le law_simps vs_count_def [symmetric] word_gt_0)
qed

text \<open>C19: the two rotating selectors are equivalent: for every validator set, height and round, the
  address chosen by RotateProposer is that of the validator chosen by the context, and they panic
  in the same cases: an empty set, a nil round, height 0, or an index beyond 64 bits.\<close>

theorem selectors_equivalent:
  assumes "round_laws (rounds L)" and "length (validators vs) < 2 ^ 64"
  shows "(\<forall>v. select_proposer L vs h r = (Inr v :: (unit, _) result) \<longrightarrow>
      RotateProposer_select_proposer L h r vs = (Inr (validator_address v) :: (unit, _) result)) \<and>
    panics (select_proposer L vs h r :: (unit, _) result) =
      panics (RotateProposer_select_proposer L h r vs :: (unit, _) result) \<and>
    panics (select_proposer L vs h r :: (unit, _) result) =
      (\<forall>n. r = RSome n \<longrightarrow> \<not> rotation_ok vs h n)"
proof (cases r)
  case RNil
  then show ?thesis
    by (auto simp: select_proposer_def RotateProposer_select_proposer_def assert_that_def panics_def)
next
  case (RSome n)
  show ?thesis
  proof (cases "rotation_ok vs h n")
    case True
    from test_context.rotates [OF assms(1) True] rotate_proposer.rotates [OF assms(1) True]
    show ?thesis using True RSome by (simp add: panics_def)
  next
    case False
    from rotation_needed [OF assms False] show ?thesis
      using False RSome by (auto simp: panics_def)
  qed
qed

text \<open>C20: rotation is fair: in any run of as many consecutive rounds of a height as
  there are validators, each validator is proposer
  in exactly one of them.\<close>

theorem rotation_fair:
  assumes "round_laws (rounds L)" and "distinct (validators vs)" and "v \<in> set (validators vs)"
    and "\<And>i. i < length (validators vs) \<Longrightarrow> rotation_ok vs h (n + of_nat i)"
    and "unat n + length (validators vs) \<le> 2 ^ 32"
  shows "\<exists>!i. i < length (validators vs) \<and>
    select_proposer L vs h (RSome (n + of_nat i)) = (Inr v :: (unit, _) result)"
proof -
  from assms(3) obtain j where j: "j < length (validators vs)" "v = validators vs ! j"
    by (metis in_set_conv_nth)
  have sel: "select_proposer L vs h (RSome (n + of_nat i)) = (Inr v :: (unit, _) result) \<longleftrightarrow>
      rotation_index vs h (n + of_nat i) = j" if "i < length (validators vs)" for i
    using test_context.rotates [OF assms(1) assms(4) [OF that]] j assms(2)
      rotation_index_less [OF assms(4) [OF that]] by (simp add: nth_eq_iff_index_eq)
  have eq: "(\<lambda>i. i < length (validators vs) \<and>
      select_proposer L vs h (RSome (n + of_nat i)) = (Inr v :: (unit, _) result)) =
    (\<lambda>i. i < length (validators vs) \<and> rotation_index vs h (n + of_nat i) = j)"
    by (auto simp: sel)
  show ?thesis unfolding eq by (rule test_context.fair_window(1) [OF assms(1) j(1) assms(4,5)])
qed

section \<open>Voting power and heights\<close>

text \<open>The total voting power is the sum of the validators' powers as long as it fits 64 bits;
  when it does not, the sum panics rather than wrapping.\<close>

theorem total_voting_power_exact:
  "(total_voting_power vs :: ('e, _) result) =
    (let t = sum_list (map (\<lambda>v. unat (validator_voting_power v)) (validators vs)) in
     if t < 2 ^ 64 then Inr (of_nat t) else panic ''attempt to add with overflow'')"
proof (cases "sum_list (map (\<lambda>v. unat (validator_voting_power v)) (validators vs)) < 2 ^ 64")
  case True
  from total_voting_power_ok [OF this] obtain t where "total_voting_power vs = (Inr t :: ('e, _) result)"
    "unat t = sum_list (map (\<lambda>v. unat (validator_voting_power v)) (validators vs))" by blast
  moreover from this(2) have "t = of_nat (sum_list (map (\<lambda>v. unat (validator_voting_power v)) (validators vs)))"
    by (metis of_nat_unat ucast_id)
  ultimately show ?thesis using True by (simp add: Let_def)
next
  case False
  with sum_from_overflow [of "0 :: u64" "map validator_voting_power (validators vs)"] show ?thesis
    by (simp add: total_voting_power_def sum_chk_def comp_def Let_def)
qed

text \<open>Heights never wrap. Stepping up panics at the largest height, stepping up by a number panics
  when the sum does not fit; stepping down gives none at height 0, and stepping down by a number
  always gives a height, 0 when the number is larger.\<close>

theorem height_arithmetic:
  "(Height_increment h = (Inr k :: (unit, _) result) \<longleftrightarrow> hval h + 1 < 2 ^ 64 \<and> hval k = hval h + 1) \<and>
    (Height_increment_by h n = (Inr k :: (unit, _) result) \<longleftrightarrow>
      hval h + unat n < 2 ^ 64 \<and> hval k = hval h + unat n) \<and>
    (Height_decrement h = Some k \<longleftrightarrow> 0 < hval h \<and> hval k = hval h - 1) \<and>
    (Height_decrement_by h n = Some k \<longleftrightarrow> hval k = hval h - unat n)"
proof -
  have "Height_increment_by h n = (Inr k :: (unit, _) result) \<longleftrightarrow>
      hval h + unat n < 2 ^ 64 \<and> hval k = hval h + unat n"
    by (cases k) (auto simp: Height_increment_by_def and_then_Inr_iff add_chk_Inr unat_word_ariths
        word_unat_eq_iff)
  moreover have "Height_decrement h = Some k \<longleftrightarrow> 0 < hval h \<and> hval k = hval h - 1"
  proof (cases "0 < hval h")
    case True
    then have "unat (as_u64 h - 1) = hval h - 1" by (simp add: unat_sub_le)
    then have "as_u64 h - 1 = as_u64 k \<longleftrightarrow> hval k = hval h - 1" by (metis word_unat_eq_iff)
    with True show ?thesis by (cases k) (auto simp: Height_decrement_def checked_sub_def)
  qed (simp add: Height_decrement_def checked_sub_def)
  moreover have "Height_decrement_by h n = Some k \<longleftrightarrow> hval k = hval h - unat n"
    by (cases k) (auto simp: Height_decrement_by_def unat_saturating_sub word_unat_eq_iff)
  ultimately show ?thesis using Height_increment_Inr by blast
qed

section \<open>Witnesses\<close>

definition two_validators :: ValidatorSet where
  "two_validators = \<lparr>validators =
     [\<lparr>validator_address = Address 1, validator_public_key = PublicKey [1], validator_voting_power = 3\<rparr>,
      \<lparr>validator_address = Address 2, validator_public_key = PublicKey [2], validator_voting_power = 4\<rparr>]\<rparr>"

definition sample_vote :: Vote where
  "sample_vote = (Vote_new_precommit (Height 3) (RSome 1) (Val (ValueId 9)) (Address 2))
     \<lparr>vote_extension := Some \<lparr>ext_message = [1], ext_signature = Signature 5\<rparr>\<rparr>"

definition sample_cert :: CommitCertificate where
  "sample_cert = \<lparr>cert_height = Height 3, cert_round = RSome 1, cert_value_id = ValueId 9,
     cert_aggregated_signature = \<lparr>agg_signatures = []\<rparr>\<rparr>"

lemma std_round_laws_lib: "round_laws (rounds std_msg_lib)"
  using std_msg_laws by (simp add: msg_laws_def lib_laws_def)

theorem network_roundtrip_witness:
  "and_then (SignedConsensusMsg_encode std_msg_lib
      (MsgVote \<lparr>signed_message = sample_vote, signed_signature = Signature 8\<rparr>)) (SignedConsensusMsg_decode std_msg_lib)
    = Inr (MsgVote \<lparr>signed_message = sample_vote\<lparr>vote_extension := None\<rparr>, signed_signature = Signature 8\<rparr>)"
  using network_roundtrip [OF std_msg_laws,
      of _ _ _ _ _ "MsgVote \<lparr>signed_message = sample_vote, signed_signature = Signature 8\<rparr>"]
  by (simp add: sample_vote_def Vote_new_precommit_def)

theorem signed_messages_verify_witness:
  "\<exists>s. verify_signed_vote std_msg_lib \<lparr>private_key = PrivateKey [4]\<rparr> sample_vote s (PublicKey [2])
    = (Inr True :: (unit, _) result)"
proof -
  have pk: "sk_public_key std_crypto (PrivateKey [2]) = PublicKey [2]"
    by (simp add: std_crypto_def)
  from signed_messages_verify [OF std_msg_laws, of sample_vote
      "Proposal_new (Height 3) (RSome 1) (Value_new std_msg_lib [7]) RNil (Address 2)"
      "PartData \<lparr>data_bytes = [1]\<rparr>" "\<lparr>private_key = PrivateKey [2]\<rparr>" "\<lparr>private_key = PrivateKey [4]\<rparr>"]
  obtain s where "\<forall>e. verify_signed_vote std_msg_lib \<lparr>private_key = PrivateKey [4]\<rparr>
      (sample_vote\<lparr>vote_extension := e\<rparr>) s (PublicKey [2]) = (Inr True :: (unit, _) result)"
    by (auto simp: pk sample_vote_def Vote_new_precommit_def Proposal_new_def)
  then have "verify_signed_vote std_msg_lib \<lparr>private_key = PrivateKey [4]\<rparr>
      (sample_vote\<lparr>vote_extension := vote_extension sample_vote\<rparr>) s (PublicKey [2]) = (Inr True :: (unit, _) result)"
    by blast
  then show ?thesis by auto
qed

theorem commit_signature_checked_witness:
  "\<exists>s. verify_commit_signature std_msg_lib \<lparr>private_key = PrivateKey [4]\<rparr> sample_cert
    \<lparr>cs_address = Address 2, cs_signature = s\<rparr> (validators two_validators ! 1) = Inr 4"
proof -
  let ?w = "validators two_validators ! 1"
  have c: "cert_round sample_cert \<noteq> RNil" by (simp add: sample_cert_def)
  have "validator_public_key ?w = sk_public_key (crypto std_msg_lib) (private_key \<lparr>private_key = PrivateKey [2]\<rparr>)"
    by (simp add: std_crypto_def two_validators_def)
  from commit_signature_checked [OF std_msg_laws c, THEN conjunct1, THEN mp, OF this,
      of "\<lparr>private_key = PrivateKey [4]\<rparr>" "Address 2"]
  obtain s :: "Vote Signed" where "verify_commit_signature std_msg_lib \<lparr>private_key = PrivateKey [4]\<rparr> sample_cert
      \<lparr>cs_address = Address 2, cs_signature = signed_signature s\<rparr> ?w = Inr (validator_voting_power ?w)"
    by blast
  then show ?thesis by (auto simp: two_validators_def)
qed

theorem selectors_equivalent_witness:
  "panics (RotateProposer_select_proposer std_msg_lib (Height 0) (RSome 1) two_validators :: (unit, _) result)"
proof -
  have "length (validators two_validators) < 2 ^ 64" by (simp add: two_validators_def)
  from selectors_equivalent [OF std_round_laws_lib this, of "Height 0" "RSome 1"] show ?thesis
    unfolding rotation_ok_def by (metis Height.sel not_one_le_zero unsigned_0)
qed

theorem rotation_fair_witness:
  "\<exists>!i. i < 2 \<and> select_proposer std_msg_lib two_validators (Height 5) (RSome (3 + of_nat i))
    = (Inr (validators two_validators ! 1) :: (unit, _) result)"
proof -
  have len: "length (validators two_validators) = 2" by (simp add: two_validators_def)
  have "rotation_ok two_validators (Height 5) (3 + of_nat i)" if "i < length (validators two_validators)" for i
  proof -
    have "hval (Height 5) - 1 + unat (x :: u32) < 2 ^ 64" for x using unat_u32_less [of x] by simp
    then show ?thesis by (simp add: rotation_ok_def two_validators_def)
  qed
  moreover have "distinct (validators two_validators)" "validators two_validators ! 1 \<in> set (validators two_validators)"
    by (simp_all add: two_validators_def)
  ultimately show ?thesis
    using rotation_fair [OF std_round_laws_lib, of two_validators "validators two_validators ! 1" "Height 5" 3]
    unfolding len by simp
qed

end
