(* ===== verification/Ledger.thy ===== *)
theory Ledger
  imports Store_Correct
begin

text \<open>
  What the store promises its clients: a ledger of decided values, proposals and block data, with
  the effect of each method on it, and that the methods of \<open>Store\<close> implement those effects on every
  sound store whose database does not fail. The state of a node is reasoned about on ledgers.
\<close>

section \<open>The specification\<close>

record ledger =
  lg_decided :: "Height \<Rightarrow> DecidedValue option"
  lg_decided_block :: "Height \<Rightarrow> bytes option"
  lg_proposal :: "Height \<times> Round \<Rightarrow> ProposedValue option"
  lg_block :: "Height \<times> Round \<Rightarrow> bytes option"

definition put_first :: "'k \<Rightarrow> 'v \<Rightarrow> ('k \<Rightarrow> 'v option) \<Rightarrow> 'k \<Rightarrow> 'v option" where
  "put_first k v m = (if m k = None then m(k \<mapsto> v) else m)"

definition ledger_propose :: "ProposedValue \<Rightarrow> ledger \<Rightarrow> ledger" where
  "ledger_propose p g = g\<lparr>lg_proposal := put_first (prv_height p, prv_round p) p (lg_proposal g)\<rparr>"

definition ledger_put_block :: "(Height \<times> Round) \<times> bytes \<Rightarrow> ledger \<Rightarrow> ledger" where
  "ledger_put_block b g = g\<lparr>lg_block := put_first (fst b) (snd b) (lg_block g)\<rparr>"

definition ledger_put_decided_block :: "Height \<times> bytes \<Rightarrow> ledger \<Rightarrow> ledger" where
  "ledger_put_decided_block b g = g\<lparr>lg_decided_block := put_first (fst b) (snd b) (lg_decided_block g)\<rparr>"

definition ledger_decide :: "DecidedValue \<Rightarrow> ledger \<Rightarrow> ledger" where
  "ledger_decide dv g = g\<lparr>lg_decided := (lg_decided g)(cert_height (dv_certificate dv) \<mapsto> dv)\<rparr>"

definition ledger_prune :: "Height \<Rightarrow> ledger \<Rightarrow> ledger" where
  "ledger_prune retain g =
     \<lparr>lg_decided = (\<lambda>h. if h < retain then None else lg_decided g h),
      lg_decided_block = (\<lambda>h. if h < retain \<and> lg_decided g h \<noteq> None then None else lg_decided_block g h),
      lg_proposal = (\<lambda>(h, r). if h < retain then None else lg_proposal g (h, r)),
      lg_block = (\<lambda>(h, r). if h < retain then None else lg_block g (h, r))\<rparr>"

definition ledger_find_block :: "Height \<Rightarrow> Round \<Rightarrow> ledger \<Rightarrow> bytes option" where
  "ledger_find_block h r g = (case lg_block g (h, r) of Some d \<Rightarrow> Some d | None \<Rightarrow> lg_decided_block g h)"

section \<open>The ledger a store holds\<close>

definition decided_view :: "('db, 'tx, 'z) store_lib_scheme \<Rightarrow> contents \<Rightarrow> Height \<Rightarrow> DecidedValue option" where
  "decided_view L c h =
     Option.bind (by_height L c DECIDED_VALUES_TABLE h) (\<lambda>vb.
     Option.bind (by_height L c CERTIFICATES_TABLE h) (\<lambda>cb.
     Option.bind (ok_opt (value_from_bytes (protobuf L) vb)) (\<lambda>v.
     Option.bind (ok_opt (store_decode_certificate L cb)) (\<lambda>cert.
       Some \<lparr>dv_value = v, dv_certificate = cert\<rparr>))))"

definition ledger_of :: "('db, 'tx, 'z) store_lib_scheme \<Rightarrow> contents \<Rightarrow> ledger" where
  "ledger_of L c =
     \<lparr>lg_decided = decided_view L c, lg_decided_block = by_height L c DECIDED_BLOCK_DATA_TABLE,
      lg_proposal = (\<lambda>hr. Option.bind (by_round L c UNDECIDED_PROPOSALS_TABLE hr)
        (\<lambda>b. ok_opt (ProposedValue_decode L b))),
      lg_block = by_round L c UNDECIDED_BLOCK_DATA_TABLE\<rparr>"

lemma ledger_of_sel:
  "lg_decided (ledger_of L c) = decided_view L c"
  "lg_decided_block (ledger_of L c) = by_height L c DECIDED_BLOCK_DATA_TABLE"
  "lg_proposal (ledger_of L c) hr = Option.bind (by_round L c UNDECIDED_PROPOSALS_TABLE hr)
    (\<lambda>b. ok_opt (ProposedValue_decode L b))"
  "lg_block (ledger_of L c) = by_round L c UNDECIDED_BLOCK_DATA_TABLE"
  by (simp_all add: ledger_of_def)

definition store_ready ::
  "('db, 'tx, 'z) store_lib_scheme \<Rightarrow> ('db \<Rightarrow> contents) \<Rightarrow> ('tx \<Rightarrow> contents) \<Rightarrow> 'db Db \<Rightarrow> bool" where
  "store_ready L \<alpha> \<beta> s \<longleftrightarrow> store_laws L \<alpha> \<beta> \<and> redb_reliable (redb L) \<and> store_sound L (\<alpha> (db_handle s))"

abbreviation (input) held :: "('db, 'tx, 'z) store_lib_scheme \<Rightarrow> ('db \<Rightarrow> contents) \<Rightarrow> 'db Db \<Rightarrow> ledger" where
  "held L \<alpha> s \<equiv> ledger_of L (\<alpha> (db_handle s))"

lemma store_readyD:
  assumes "store_ready L \<alpha> \<beta> s"
  shows "store_laws L \<alpha> \<beta>" "redb_reliable (redb L)" "store_sound L (\<alpha> (db_handle s))"
  using assms by (simp_all add: store_ready_def)

lemma store_ready_step: "store_ready L \<alpha> \<beta> s \<Longrightarrow> store_step L s s' \<Longrightarrow> store_ready L \<alpha> \<beta> s'"
  unfolding store_ready_def using store_step_sound by blast

lemma store_ready_read: "store_ready L \<alpha> \<beta> s \<Longrightarrow> store_ready L \<alpha> \<beta> (s\<lparr>db_metrics := m\<rparr>)"
  by (simp add: store_ready_def)

lemma decided_view_sound:
  assumes "store_sound L c"
  shows "decided_view L c h = None \<longleftrightarrow> by_height L c DECIDED_VALUES_TABLE h = None"
  using store_soundD(3) [OF assms, of h]
  by (auto simp: decided_view_def decided_sound_def split: option.splits)

lemma decided_view_cong:
  "by_height L c DECIDED_VALUES_TABLE h = by_height L d DECIDED_VALUES_TABLE h \<Longrightarrow>
   by_height L c CERTIFICATES_TABLE h = by_height L d CERTIFICATES_TABLE h \<Longrightarrow>
   decided_view L c h = decided_view L d h"
  by (simp add: decided_view_def)

text \<open>
  A write of the store refines an effect: on a ready store it succeeds, leaves a ready store and has
  that effect on the ledger. A read returns what the ledger gives, and changes neither.
\<close>

locale ledger_write =
  fixes put :: "'s \<Rightarrow> 'a \<Rightarrow> (StoreError, unit \<times> 's) result"
    and effect :: "'a \<Rightarrow> 'g \<Rightarrow> 'g"
    and valid :: "'a \<Rightarrow> bool"
    and ready :: "'s \<Rightarrow> bool"
    and view :: "'s \<Rightarrow> 'g"
  assumes refines: "ready s \<Longrightarrow> valid x \<Longrightarrow> \<exists>s'. put s x = Inr ((), s') \<and> ready s' \<and> view s' = effect x (view s)"
begin

lemma each_refines:
  "ready s \<Longrightarrow> \<forall>x \<in> set xs. valid x \<Longrightarrow>
    \<exists>s'. each put s xs = Inr s' \<and> ready s' \<and> view s' = fold effect xs (view s)"
proof (induction xs arbitrary: s)
  case (Cons x xs)
  from refines [OF Cons.prems(1)] Cons.prems(2) obtain s1
    where "put s x = Inr ((), s1)" "ready s1" "view s1 = effect x (view s)" by auto
  with Cons.IH [of s1] Cons.prems(2) show ?case by auto
qed simp

end

section \<open>The methods of the store refine it\<close>

lemma by_round_upd:
  assumes "store_laws L \<alpha> \<beta>"
  shows "by_round L (c((t, undecided_key (rounds L) (rkeys L) hr) \<mapsto> b)) t' =
    (if t' = t then (by_round L c t)(hr \<mapsto> b) else by_round L c t')"
  using store_lawsD(3,4) [OF assms] by (auto simp: by_round_def fun_eq_iff undecided_key_inject)

lemma by_height_upd:
  assumes "store_laws L \<alpha> \<beta>"
  shows "by_height L (c((t, height_key (rkeys L) h) \<mapsto> b)) t' =
    (if t' = t then (by_height L c t)(h \<mapsto> b) else by_height L c t')"
  using store_lawsD(4) [OF assms] by (auto simp: by_height_def fun_eq_iff height_key_inject)

lemma by_other_upd:
  "t' \<noteq> t \<Longrightarrow> by_round L (c((t, k) \<mapsto> b)) t' = by_round L c t'"
  "t' \<noteq> t \<Longrightarrow> by_height L (c((t, k) \<mapsto> b)) t' = by_height L c t'"
  by (auto simp: by_round_def by_height_def)

lemma decided_view_other:
  assumes "t \<noteq> DECIDED_VALUES_TABLE" and "t \<noteq> CERTIFICATES_TABLE"
  shows "decided_view L (c((t, k) \<mapsto> b)) = decided_view L c"
  using assms by (intro ext decided_view_cong) (simp_all add: by_other_upd)

lemma bind_upd: "(\<lambda>x. Option.bind (if x = k then Some b else m x) f) = (\<lambda>x. Option.bind (m x) f)(k := f b)"
  by auto

lemmas ledger_upd = ledger_of_def by_other_upd decided_view_other bind_upd

lemma refines_propose:
  assumes "store_ready L \<alpha> \<beta> s" and "prv_round p \<noteq> RNil"
  shows "\<exists>s'. store_undecided_proposal L s p = Inr ((), s') \<and> store_ready L \<alpha> \<beta> s' \<and>
    held L \<alpha> s' = ledger_propose p (held L \<alpha> s)"
proof -
  note R = store_readyD [OF assms(1)]
  obtain s' where run: "store_undecided_proposal L s p = Inr ((), s')"
    using store_undecided_proposal_ok [OF R(1,2) assms(2)] by blast
  then have "Db_insert_undecided_proposal L s p = Inr ((), s')" by (simp add: store_undecided_proposal_def)
  from Db_insert_undecided_proposal_Inr [OF this] obtain b where b: "ProposedValue_encode L p = Inr b"
    and ins: "insert_if_absent L s UNDECIDED_PROPOSALS_TABLE
      (undecided_key (rounds L) (rkeys L) (prv_height p, prv_round p)) b = Inr (db_handle s')"
    by blast
  have dec: "ProposedValue_decode L b = Inr p"
    using ProposedValue_encode_Inr [OF store_lawsD(2) [OF R(1)] b] by simp
  let ?c = "\<alpha> (db_handle s)" and ?hr = "(prv_height p, prv_round p)"
  have free: "by_round L ?c UNDECIDED_PROPOSALS_TABLE ?hr = None \<longleftrightarrow>
      lg_proposal (ledger_of L ?c) ?hr = None"
    using store_soundD(2) [OF R(3), of ?hr]
    by (cases "by_round L ?c UNDECIDED_PROPOSALS_TABLE ?hr") (auto simp: ledger_of_def undecided_sound_def)
  have "held L \<alpha> s' = ledger_propose p (held L \<alpha> s)"
    using free insert_if_absent_contents [OF R(1) ins]
    unfolding by_round_def [symmetric] free
    by (simp add: ledger_propose_def put_first_def ledger_upd by_round_upd [OF R(1)] dec split: if_splits)
  moreover have "store_ready L \<alpha> \<beta> s'"
    by (rule store_ready_step [OF assms(1)]) (rule store_step.put_proposal [OF run])
  ultimately show ?thesis using run by blast
qed

lemma refines_put_block:
  assumes "store_ready L \<alpha> \<beta> s"
  shows "\<exists>s'. store_undecided_block_data L s h r d = Inr ((), s') \<and> store_ready L \<alpha> \<beta> s' \<and>
    held L \<alpha> s' = ledger_put_block ((h, r), d) (held L \<alpha> s)"
proof -
  note R = store_readyD [OF assms(1)]
  obtain hd where ins: "insert_if_absent L s UNDECIDED_BLOCK_DATA_TABLE
      (undecided_key (rounds L) (rkeys L) (h, r)) d = Inr hd"
    using insert_if_absent_ok [OF R(2)] by blast
  then obtain s' where run: "store_undecided_block_data L s h r d = Inr ((), s')" and h: "db_handle s' = hd"
    by (simp add: store_undecided_block_data_def Db_insert_undecided_block_data_def Let_def)
  have "held L \<alpha> s' = ledger_put_block ((h, r), d) (held L \<alpha> s)"
    using insert_if_absent_contents [OF R(1) ins] h
    unfolding by_round_def [symmetric]
    by (simp add: ledger_put_block_def put_first_def ledger_upd by_round_upd [OF R(1)] split: if_splits)
  moreover have "store_ready L \<alpha> \<beta> s'"
    by (rule store_ready_step [OF assms(1)]) (rule store_step.put_block [OF run])
  ultimately show ?thesis using run by blast
qed

lemma refines_put_decided_block:
  assumes "store_ready L \<alpha> \<beta> s"
  shows "\<exists>s'. store_decided_block_data L s h d = Inr ((), s') \<and> store_ready L \<alpha> \<beta> s' \<and>
    held L \<alpha> s' = ledger_put_decided_block (h, d) (held L \<alpha> s)"
proof -
  note R = store_readyD [OF assms(1)]
  obtain hd where ins: "insert_if_absent L s DECIDED_BLOCK_DATA_TABLE (height_key (rkeys L) h) d = Inr hd"
    using insert_if_absent_ok [OF R(2)] by blast
  then obtain s' where run: "store_decided_block_data L s h d = Inr ((), s')" and h: "db_handle s' = hd"
    by (simp add: store_decided_block_data_def Db_insert_decided_block_data_def Let_def)
  have "held L \<alpha> s' = ledger_put_decided_block (h, d) (held L \<alpha> s)"
    using insert_if_absent_contents [OF R(1) ins] h
    unfolding by_height_def [symmetric]
    by (simp add: ledger_put_decided_block_def put_first_def ledger_upd by_height_upd [OF R(1)] split: if_splits)
  moreover have "store_ready L \<alpha> \<beta> s'"
    by (rule store_ready_step [OF assms(1)]) (rule store_step.put_decided_block [OF run])
  ultimately show ?thesis using run by blast
qed

lemma refines_decide:
  assumes "store_ready L \<alpha> \<beta> s" and "cert_round c \<noteq> RNil"
  shows "\<exists>s'. store_decided_value L s c v = Inr ((), s') \<and> store_ready L \<alpha> \<beta> s' \<and>
    held L \<alpha> s' = ledger_decide \<lparr>dv_value = v, dv_certificate = c\<rparr> (held L \<alpha> s)"
proof -
  note R = store_readyD [OF assms(1)]
  let ?dv = "\<lparr>dv_value = v, dv_certificate = c\<rparr>"
  obtain s' where run: "Db_insert_decided_value L s ?dv = Inr ((), s')"
    using Db_insert_decided_value_reliable [OF R(1,2), of ?dv] assms(2) by auto
  from Db_insert_decided_value_contents [OF R(1) run] obtain vb cb
    where e: "value_to_bytes (protobuf L) v = Inr vb" "store_encode_certificate L c = Inr cb"
    and \<alpha>: "\<alpha> (db_handle s') = (\<alpha> (db_handle s))
      ((DECIDED_VALUES_TABLE, height_key (rkeys L) (cert_height c)) \<mapsto> vb,
       (CERTIFICATES_TABLE, height_key (rkeys L) (cert_height c)) \<mapsto> cb)"
    by auto
  have "value_from_bytes (protobuf L) vb = Inr v"
    using value_bytes_roundtrip [OF store_lawsD(1) [OF R(1)], of v] e(1) by auto
  moreover have "store_decode_certificate L cb = Inr c"
    using certificate_codec.decodes [OF store_lawsD(2) [OF R(1)] assms(2) e(2)] .
  ultimately have "held L \<alpha> s' = ledger_decide ?dv (held L \<alpha> s)"
    by (auto simp: ledger_decide_def ledger_of_def \<alpha> by_height_upd [OF R(1)] by_other_upd fun_eq_iff
        decided_view_def)
  moreover have run': "store_decided_value L s c v = Inr ((), s')"
    using run by (simp add: store_decided_value_def)
  moreover have "store_ready L \<alpha> \<beta> s'"
    by (rule store_ready_step [OF assms(1)]) (rule store_step.put_decided [OF run'])
  ultimately show ?thesis by blast
qed

lemma refines_prune:
  assumes "store_ready L \<alpha> \<beta> s"
  shows "\<exists>pruned s'. Store_prune L s retain = Inr (pruned, s') \<and> store_ready L \<alpha> \<beta> s' \<and>
    held L \<alpha> s' = ledger_prune retain (held L \<alpha> s)"
proof -
  note R = store_readyD [OF assms(1)]
  from Db_prune_reliable [OF R(1,2) store_soundD(1) [OF R(3)], of retain] obtain pruned s'
    where run: "Store_prune L s retain = Inr (pruned, s')"
      and p: "pruned_contents L (\<alpha> (db_handle s)) retain (\<alpha> (db_handle s'))"
    by (auto simp: Store_prune_def)
  have ready: "store_ready L \<alpha> \<beta> s'"
    by (rule store_ready_step [OF assms(1)]) (rule store_step.prune [OF run])
  let ?c = "\<alpha> (db_handle s)" and ?d = "\<alpha> (db_handle s')"
  have u: "by_round L ?d t (h, r) = (if h < retain then None else by_round L ?c t (h, r))"
    if "t = UNDECIDED_PROPOSALS_TABLE \<or> t = UNDECIDED_BLOCK_DATA_TABLE" for t h r
    using p that by (auto simp: pruned_contents_def)
  have b: "by_height L ?d t h = (if h < retain \<and> by_height L ?c DECIDED_VALUES_TABLE h \<noteq> None
      then None else by_height L ?c t h)"
    if "t = DECIDED_VALUES_TABLE \<or> t = CERTIFICATES_TABLE \<or> t = DECIDED_BLOCK_DATA_TABLE" for t h
    using p that by (auto simp: pruned_contents_def)
  have d: "decided_view L ?d h = (if h < retain then None else decided_view L ?c h)" for h
    using decided_view_sound [OF R(3), of h] by (auto simp: decided_view_def b)
  have "lg_decided (held L \<alpha> s') = lg_decided (ledger_prune retain (held L \<alpha> s))"
    by (simp add: ledger_of_def ledger_prune_def d fun_eq_iff)
  moreover have "lg_decided_block (held L \<alpha> s') = lg_decided_block (ledger_prune retain (held L \<alpha> s))"
    by (rule ext) (use decided_view_sound [OF R(3)] in \<open>auto simp: ledger_of_def ledger_prune_def b\<close>)
  moreover have "lg_proposal (held L \<alpha> s') = lg_proposal (ledger_prune retain (held L \<alpha> s))"
    "lg_block (held L \<alpha> s') = lg_block (ledger_prune retain (held L \<alpha> s))"
    by (auto simp: ledger_of_def ledger_prune_def u fun_eq_iff)
  ultimately have "held L \<alpha> s' = ledger_prune retain (held L \<alpha> s)" by (intro ledger.equality) simp_all
  with run ready show ?thesis by blast
qed

text \<open>Reads return what the ledger gives and change nothing but the counters.\<close>

lemma reads_proposal:
  assumes "store_ready L \<alpha> \<beta> s"
  shows "\<exists>m. Store_get_undecided_proposal L s h r = Inr (lg_proposal (held L \<alpha> s) (h, r), s\<lparr>db_metrics := m\<rparr>)"
proof -
  note R = store_readyD [OF assms]
  obtain e where e: "by_round L (\<alpha> (db_handle s)) UNDECIDED_PROPOSALS_TABLE (h, r) = e" by blast
  from Db_get_undecided_proposal_reliable [OF R(1,2) e] obtain m where
    m: "Db_get_undecided_proposal L s h r =
      and_then (case e of None \<Rightarrow> Inr None
        | Some b \<Rightarrow> and_then (map_err SE_Protobuf (ProposedValue_decode L b)) (\<lambda>p. Inr (Some p)))
      (\<lambda>x. Inr (x, s\<lparr>db_metrics := m\<rparr>))" by blast
  from store_soundD(2) [OF R(3), of "(h, r)"] e m
  have "Store_get_undecided_proposal L s h r = Inr (lg_proposal (held L \<alpha> s) (h, r), s\<lparr>db_metrics := m\<rparr>)"
    by (cases e) (auto simp: Store_get_undecided_proposal_def ledger_of_sel undecided_sound_def)
  then show ?thesis ..
qed

lemma reads_block:
  assumes "store_ready L \<alpha> \<beta> s"
  shows "\<exists>m. Store_get_block_data L s h r = Inr (ledger_find_block h r (held L \<alpha> s), s\<lparr>db_metrics := m\<rparr>)"
  using Db_get_block_data_reliable [OF store_readyD(1,2) [OF assms], of s h r]
  unfolding Store_get_block_data_def ledger_of_sel ledger_find_block_def by force

lemma reads_decided:
  assumes "store_ready L \<alpha> \<beta> s"
  shows "\<exists>m. Store_get_decided_value L s h = Inr (lg_decided (held L \<alpha> s) h, s\<lparr>db_metrics := m\<rparr>)"
proof -
  note R = store_readyD [OF assms]
  let ?c = "\<alpha> (db_handle s)"
  show ?thesis
  proof (cases "by_height L ?c DECIDED_VALUES_TABLE h")
    case None
    with store_soundD(3) [OF R(3), of h] have "by_height L ?c CERTIFICATES_TABLE h = None"
      by (auto simp: decided_sound_def split: option.splits)
    with None Db_get_decided_value_reliable [OF R(1,2), of s h None] show ?thesis
      by (auto simp: Store_get_decided_value_def ledger_of_def decided_view_def)
  next
    case (Some vb)
    with store_soundD(3) [OF R(3), of h] obtain cb v cert
      where "by_height L ?c CERTIFICATES_TABLE h = Some cb" "value_from_bytes (protobuf L) vb = Inr v"
        "store_decode_certificate L cb = Inr cert"
      by (auto simp: decided_sound_def split: option.splits)
    with Some Db_get_decided_value_reliable [OF R(1,2), of s h "Some (vb, cb)" v cert] show ?thesis
      by (auto simp: Store_get_decided_value_def ledger_of_def decided_view_def)
  qed
qed

text \<open>The writes, as instances of the contract.\<close>

interpretation proposal_write:
  ledger_write "store_undecided_proposal L" ledger_propose "\<lambda>p. prv_round p \<noteq> RNil"
    "store_ready L \<alpha> \<beta>" "held L \<alpha>" for L \<alpha> \<beta>
  by unfold_locales (rule refines_propose)

interpretation block_write:
  ledger_write "\<lambda>s ((h, r), d). store_undecided_block_data L s h r d" ledger_put_block "\<lambda>_. True"
    "store_ready L \<alpha> \<beta>" "held L \<alpha>" for L \<alpha> \<beta>
  by unfold_locales (use refines_put_block in auto)

interpretation decided_block_write:
  ledger_write "\<lambda>s (h, d). store_decided_block_data L s h d" ledger_put_decided_block "\<lambda>_. True"
    "store_ready L \<alpha> \<beta>" "held L \<alpha>" for L \<alpha> \<beta>
  by unfold_locales (use refines_put_decided_block in auto)

interpretation decision_write:
  ledger_write "\<lambda>s dv. store_decided_value L s (dv_certificate dv) (dv_value dv)" ledger_decide
    "\<lambda>dv. cert_round (dv_certificate dv) \<noteq> RNil" "store_ready L \<alpha> \<beta>" "held L \<alpha>" for L \<alpha> \<beta>
proof unfold_locales
  fix s :: "'a Db" and x :: DecidedValue
  assume "store_ready L \<alpha> \<beta> s" and "cert_round (dv_certificate x) \<noteq> RNil"
  from refines_decide [OF this, of "dv_value x"]
  show "\<exists>s'. store_decided_value L s (dv_certificate x) (dv_value x) = Inr ((), s') \<and>
      store_ready L \<alpha> \<beta> s' \<and> held L \<alpha> s' = ledger_decide x (held L \<alpha> s)"
    by (cases x) simp
qed

text \<open>C13: the store refines its specification: on every sound store whose database does not fail, each
  write succeeds, leaves a sound store and has the effect on the ledger that the specification
  gives, and each read returns the ledger's entry.\<close>

theorem store_refines_ledger:
  assumes "store_ready L \<alpha> \<beta> s" and "prv_round p \<noteq> RNil" and "cert_round c \<noteq> RNil"
  shows "(\<exists>s'. store_undecided_proposal L s p = Inr ((), s') \<and> store_ready L \<alpha> \<beta> s' \<and>
      held L \<alpha> s' = ledger_propose p (held L \<alpha> s)) \<and>
    (\<exists>s'. store_undecided_block_data L s h r d = Inr ((), s') \<and> store_ready L \<alpha> \<beta> s' \<and>
      held L \<alpha> s' = ledger_put_block ((h, r), d) (held L \<alpha> s)) \<and>
    (\<exists>s'. store_decided_block_data L s h d = Inr ((), s') \<and> store_ready L \<alpha> \<beta> s' \<and>
      held L \<alpha> s' = ledger_put_decided_block (h, d) (held L \<alpha> s)) \<and>
    (\<exists>s'. store_decided_value L s c v = Inr ((), s') \<and> store_ready L \<alpha> \<beta> s' \<and>
      held L \<alpha> s' = ledger_decide \<lparr>dv_value = v, dv_certificate = c\<rparr> (held L \<alpha> s)) \<and>
    (\<exists>ps s'. Store_prune L s h = Inr (ps, s') \<and> store_ready L \<alpha> \<beta> s' \<and>
      held L \<alpha> s' = ledger_prune h (held L \<alpha> s)) \<and>
    (\<exists>m. Store_get_decided_value L s h = Inr (lg_decided (held L \<alpha> s) h, s\<lparr>db_metrics := m\<rparr>)) \<and>
    (\<exists>m. Store_get_undecided_proposal L s h r = Inr (lg_proposal (held L \<alpha> s) (h, r), s\<lparr>db_metrics := m\<rparr>)) \<and>
    (\<exists>m. Store_get_block_data L s h r = Inr (ledger_find_block h r (held L \<alpha> s), s\<lparr>db_metrics := m\<rparr>))"
  using proposal_write.refines [OF assms(1,2)] refines_put_block [OF assms(1)]
    refines_put_decided_block [OF assms(1)] refines_decide [OF assms(1,3)] refines_prune [OF assms(1)]
    reads_decided [OF assms(1)] reads_proposal [OF assms(1)] reads_block [OF assms(1)]
  by blast

lemma mem_store_ready: "store_ready mem_lib map_of map_of empty_store"
  by (simp add: store_ready_def mem_store_laws mem_redb_reliable store_sound_empty)

theorem store_refines_ledger_witness:
  "\<exists>s'. store_undecided_proposal mem_lib empty_store (sample_proposal 1) = Inr ((), s') \<and>
    lg_proposal (held mem_lib map_of s') (Height 3, RSome 1) = Some (sample_proposal 1)"
proof -
  have "lg_proposal (held mem_lib map_of empty_store) (Height 3, RSome 1) = None"
    by (simp add: ledger_of_sel by_round_def)
  moreover have "prv_round (sample_proposal 1) \<noteq> RNil" "cert_round sample_certificate \<noteq> RNil"
    by (simp_all add: sample_proposal_def sample_certificate_def)
  ultimately show ?thesis
    using store_refines_ledger [OF mem_store_ready, of "sample_proposal 1" sample_certificate]
    by (fastforce simp: ledger_propose_def put_first_def sample_proposal_def)
qed

end
