(* ===== verification/State_Correct.thy ===== *)
theory State_Correct
  imports Dissemination_Examples Ledger
begin

text \<open>
  The properties of \<open>app/src/state.rs\<close> that concern proposing and committing, on the ledger that the
  store of the node holds.
\<close>

section \<open>Committing\<close>

definition ledger_commit :: "CommitCertificate \<Rightarrow> Value \<Rightarrow> ledger \<Rightarrow> ledger" where
  "ledger_commit c v g =
     (let g' = ledger_decide \<lparr>dv_value = v, dv_certificate = c\<rparr> g in
      ledger_prune (Height (saturating_sub (as_u64 (cert_height c)) 5))
        (case ledger_find_block (cert_height c) (cert_round c) g' of
           None \<Rightarrow> g' | Some d \<Rightarrow> ledger_put_decided_block (cert_height c, d) g'))"

lemma retained: "k < Height (saturating_sub (as_u64 h) 5) \<longleftrightarrow> hval k + 5 < hval h"
  by (auto simp: Height_less_hval unat_saturating_sub)

lemma ledger_commit_decided:
  "lg_decided (ledger_commit c v g) k =
    (if hval k + 5 < hval (cert_height c) then None
     else if k = cert_height c then Some \<lparr>dv_value = v, dv_certificate = c\<rparr> else lg_decided g k)"
  by (simp add: ledger_commit_def Let_def ledger_prune_def ledger_decide_def ledger_put_decided_block_def retained
      split: option.split)

lemma ledger_commit_block:
  "lg_decided_block (ledger_commit c v g) (cert_height c) =
    (case lg_decided_block g (cert_height c) of Some d \<Rightarrow> Some d | None \<Rightarrow> lg_block g (cert_height c, cert_round c))"
  by (auto simp: ledger_commit_def Let_def ledger_prune_def ledger_decide_def ledger_put_decided_block_def retained
      put_first_def ledger_find_block_def split: option.split)

lemma commit_refines:
  assumes "store_ready L \<alpha> \<beta> (store st)" and "cert_round c \<noteq> RNil"
    and "lg_proposal (held L \<alpha> (store st)) (cert_height c, cert_round c) = Some p"
    and "hval (current_height st) + 1 < 2 ^ 64"
  shows "\<exists>s'. commit L c st = (Inr (), st\<lparr>store := s',
      current_height := Height (as_u64 (current_height st) + 1), current_round := RSome 0\<rparr>) \<and>
    store_ready L \<alpha> \<beta> s' \<and> held L \<alpha> s' = ledger_commit c (prv_value p) (held L \<alpha> (store st))"
proof -
  let ?h = "cert_height c" and ?r = "cert_round c" and ?s = "store st"
  note R = store_readyD [OF assms(1)]
  obtain m where 1: "Store_get_undecided_proposal L ?s ?h ?r = Inr (Some p, ?s\<lparr>db_metrics := m\<rparr>)"
    using reads_proposal [OF assms(1), of ?h ?r] assms(3) by auto
  let ?s1 = "?s\<lparr>db_metrics := m\<rparr>"
  have "store_ready L \<alpha> \<beta> ?s1" using assms(1) by (rule store_ready_read)
  from refines_decide [OF this assms(2), of "prv_value p"] obtain s2
    where 2: "store_decided_value L ?s1 c (prv_value p) = Inr ((), s2)" and r2: "store_ready L \<alpha> \<beta> s2"
      and g2: "held L \<alpha> s2 = ledger_decide \<lparr>dv_value = prv_value p, dv_certificate = c\<rparr> (held L \<alpha> ?s)"
    by auto
  obtain m3 where 3: "Store_get_block_data L s2 ?h ?r
      = Inr (ledger_find_block ?h ?r (held L \<alpha> s2), s2\<lparr>db_metrics := m3\<rparr>)"
    using reads_block [OF r2] by blast
  let ?s3 = "s2\<lparr>db_metrics := m3\<rparr>" and ?b = "ledger_find_block ?h ?r (held L \<alpha> s2)"
  have r3: "store_ready L \<alpha> \<beta> ?s3" using r2 by (rule store_ready_read)
  obtain s4 where 4: "(case ?b of None \<Rightarrow> return_io ()
        | Some data \<Rightarrow> on_store (\<lambda>s. store_decided_block_data L s ?h data)) (st\<lparr>store := ?s3\<rparr>)
      = (Inr (), st\<lparr>store := s4\<rparr>)" and r4: "store_ready L \<alpha> \<beta> s4"
    and g4: "held L \<alpha> s4 = (case ?b of None \<Rightarrow> held L \<alpha> s2
      | Some d \<Rightarrow> ledger_put_decided_block (?h, d) (held L \<alpha> s2))"
  proof (cases ?b)
    case None
    with that [of ?s3] r3 show thesis by (simp add: return_io_def)
  next
    case (Some d)
    from refines_put_decided_block [OF r3, of ?h d] that Some show thesis
      by (auto simp: on_store_def)
  qed
  from refines_prune [OF r4, of "Height (saturating_sub (as_u64 ?h) 5)"] obtain ps s5
    where 5: "Store_prune L s4 (Height (saturating_sub (as_u64 ?h) 5)) = Inr (ps, s5)"
      and r5: "store_ready L \<alpha> \<beta> s5"
      and g5: "held L \<alpha> s5 = ledger_prune (Height (saturating_sub (as_u64 ?h) 5)) (held L \<alpha> s4)"
    by blast
  have inc: "Height_increment (current_height st) = Inr (Height (as_u64 (current_height st) + 1))"
    using assms(4) by (simp add: Height_increment_def add_chk_def)
  have "commit L c st = (Inr (), st\<lparr>store := s5,
      current_height := Height (as_u64 (current_height st) + 1), current_round := RSome 0\<rparr>)"
    using 4 store_lawsD(3) [OF R(1)]
    by (simp add: commit_def on_store_def [of "\<lambda>s. Store_get_undecided_proposal L s ?h ?r"]
        on_store_def [of "\<lambda>s. store_decided_value L s c (prv_value p)"]
        on_store_def [of "\<lambda>s. Store_get_block_data L s ?h ?r"]
        on_store_def [of "\<lambda>s. Store_prune L s (Height (saturating_sub (as_u64 ?h) 5))"]
        bind_io_def 1 2 3 5 inc get_io_def lift_io_def modify_io_def Height_new_def law_simps)
  moreover have "held L \<alpha> s5 = ledger_commit c (prv_value p) (held L \<alpha> ?s)"
    unfolding g5 g4 g2 ledger_commit_def Let_def by simp
  ultimately show ?thesis using r5 by blast
qed

text \<open>C11: committing a certificate whose proposal the node has decides that proposal's value with the
  certificate at the certificate's height, keeps every other decision from five heights below on and
  drops the earlier ones, decides the block data the node had for that height and round unless it
  had decided some before, and moves the node to its next height, round 0; nothing else of the node
  changes.\<close>

theorem commit_decides:
  assumes "store_ready L \<alpha> \<beta> (store st)" and "cert_round c \<noteq> RNil"
    and "lg_proposal (held L \<alpha> (store st)) (cert_height c, cert_round c) = Some p"
    and "hval (current_height st) + 1 < 2 ^ 64"
  shows "\<exists>s'. commit L c st = (Inr (), st\<lparr>store := s',
      current_height := Height (as_u64 (current_height st) + 1), current_round := RSome 0\<rparr>) \<and>
    store_ready L \<alpha> \<beta> s' \<and>
    (\<forall>k. lg_decided (held L \<alpha> s') k =
      (if hval k + 5 < hval (cert_height c) then None
       else if k = cert_height c then Some \<lparr>dv_value = prv_value p, dv_certificate = c\<rparr>
       else lg_decided (held L \<alpha> (store st)) k)) \<and>
    lg_decided_block (held L \<alpha> s') (cert_height c) =
      (case lg_decided_block (held L \<alpha> (store st)) (cert_height c) of Some d \<Rightarrow> Some d
       | None \<Rightarrow> lg_block (held L \<alpha> (store st)) (cert_height c, cert_round c))"
proof -
  from commit_refines [OF assms] obtain s' where s': "commit L c st = (Inr (), st\<lparr>store := s',
      current_height := Height (as_u64 (current_height st) + 1), current_round := RSome 0\<rparr>)"
    "store_ready L \<alpha> \<beta> s'" "held L \<alpha> s' = ledger_commit c (prv_value p) (held L \<alpha> (store st))"
    by blast
  show ?thesis
    using s'(1,2) by (intro exI [of _ s']) (simp add: s'(3) ledger_commit_decided ledger_commit_block)
qed

text \<open>Committing a certificate for a height and round the node has no proposal for reports success
  and changes nothing: no value is decided and the node stays at its height.\<close>

theorem commit_without_proposal:
  assumes "store_ready L \<alpha> \<beta> (store st)"
    and "lg_proposal (held L \<alpha> (store st)) (cert_height c, cert_round c) = None"
  shows "\<exists>m. commit L c st = (Inr (), st\<lparr>store := (store st)\<lparr>db_metrics := m\<rparr>\<rparr>)"
  using reads_proposal [OF assms(1), of "cert_height c" "cert_round c"] assms(2)
  by (auto simp: commit_def bind_io_def on_store_def return_io_def)

section \<open>Proposing\<close>

lemma propose_value_refines:
  assumes "store_ready L \<alpha> \<beta> (store st)" and "current_round st \<noteq> RNil"
  shows "\<exists>s'. propose_value L (current_height st) (current_round st) data st =
      (Inr \<lparr>lpv_height = current_height st, lpv_round = current_round st, lpv_value = Value_new L data\<rparr>,
       st\<lparr>store := s'\<rparr>) \<and> store_ready L \<alpha> \<beta> s' \<and>
    held L \<alpha> s' = ledger_propose \<lparr>prv_height = current_height st, prv_round = current_round st,
      prv_valid_round = RNil, prv_proposer = address st, prv_value = Value_new L data,
      prv_validity = Valid\<rparr> (held L \<alpha> (store st))"
proof -
  let ?p = "\<lparr>prv_height = current_height st, prv_round = current_round st, prv_valid_round = RNil,
    prv_proposer = address st, prv_value = Value_new L data, prv_validity = Valid\<rparr>"
  have "prv_round ?p \<noteq> RNil" using assms(2) by simp
  from refines_propose [OF assms(1) this] obtain s' where "store_undecided_proposal L (store st) ?p = Inr ((), s')"
    "store_ready L \<alpha> \<beta> s'" "held L \<alpha> s' = ledger_propose ?p (held L \<alpha> (store st))"
    by blast
  then show ?thesis
    by (intro exI [of _ s'])
      (simp add: propose_value_def bind_io_def get_io_def lift_io_def Let_def on_store_def return_io_def)
qed

lemma propose_value_panics:
  "h \<noteq> current_height st \<or> r \<noteq> current_round st \<Longrightarrow>
    propose_value L h r data st = (panic ''assertion `left == right` failed'', st)"
  by (cases "h = current_height st"; cases "r = current_round st")
    (simp_all add: propose_value_def bind_io_def get_io_def lift_io_def)

lemma store_data_refines:
  assumes "store_ready L \<alpha> \<beta> (store st)"
  shows "\<exists>s'. store_undecided_proposal_data L data st = (Inr (), st\<lparr>store := s'\<rparr>) \<and> store_ready L \<alpha> \<beta> s' \<and>
    held L \<alpha> s' = ledger_put_block ((current_height st, current_round st), data) (held L \<alpha> (store st))"
  using refines_put_block [OF assms, of "current_height st" "current_round st" data]
  by (auto simp: store_undecided_proposal_data_def bind_io_def get_io_def on_store_def)

text \<open>C12: what a node proposes is what it decides: after proposing a value and keeping its block data
  in a round that had neither, committing a certificate for that height and round makes the value
  proposed the decided value of the height, with the certificate, and the block data the decided
  block data of the height, in the table of decided block data itself, and the node's queries report both.\<close>

theorem proposed_value_decided:
  assumes "store_ready L \<alpha> \<beta> (store st)" and "current_round st \<noteq> RNil"
    and "hval (current_height st) + 1 < 2 ^ 64"
    and "lg_proposal (held L \<alpha> (store st)) (current_height st, current_round st) = None"
    and "ledger_find_block (current_height st) (current_round st) (held L \<alpha> (store st)) = None"
    and "cert_height c = current_height st" and "cert_round c = current_round st"
  shows "\<exists>st'. bind_io (propose_value L (current_height st) (current_round st) data) (\<lambda>_.
        bind_io (store_undecided_proposal_data L data) (\<lambda>_. commit L c)) st = (Inr (), st') \<and>
    hval (current_height st') = hval (current_height st) + 1 \<and> current_round st' = RSome 0 \<and>
    fst (State_get_decided_value L (current_height st) st') =
      Some \<lparr>dv_value = Value_new L data, dv_certificate = c\<rparr> \<and>
    by_height L (\<alpha> (db_handle (store st'))) DECIDED_BLOCK_DATA_TABLE (current_height st) = Some data \<and>
    fst (State_get_block_data L (current_height st) (current_round st) st') = Some data"
proof -
  let ?h = "current_height st" and ?r = "current_round st" and ?g = "held L \<alpha> (store st)"
  let ?p = "\<lparr>prv_height = ?h, prv_round = ?r, prv_valid_round = RNil, prv_proposer = address st,
    prv_value = Value_new L data, prv_validity = Valid\<rparr>"
  from propose_value_refines [OF assms(1,2), of data] obtain s1 where
    1: "propose_value L ?h ?r data st = (Inr \<lparr>lpv_height = ?h, lpv_round = ?r, lpv_value = Value_new L data\<rparr>,
      st\<lparr>store := s1\<rparr>)" "store_ready L \<alpha> \<beta> s1" "held L \<alpha> s1 = ledger_propose ?p ?g"
    by blast
  from store_data_refines [of L \<alpha> \<beta> "st\<lparr>store := s1\<rparr>" data] 1(2) obtain s2 where
    2: "store_undecided_proposal_data L data (st\<lparr>store := s1\<rparr>) = (Inr (), st\<lparr>store := s2\<rparr>)" "store_ready L \<alpha> \<beta> s2"
      "held L \<alpha> s2 = ledger_put_block ((?h, ?r), data) (held L \<alpha> s1)"
    by auto
  have g2: "lg_proposal (held L \<alpha> s2) (?h, ?r) = Some ?p" "lg_block (held L \<alpha> s2) (?h, ?r) = Some data"
    "lg_decided_block (held L \<alpha> s2) ?h = None"
    using assms(4,5) by (auto simp: 2(3) 1(3) ledger_propose_def ledger_put_block_def put_first_def
        ledger_find_block_def split: option.splits)
  from commit_refines [of L \<alpha> \<beta> "st\<lparr>store := s2\<rparr>" c ?p] 2(2) g2(1) assms(2,3,6,7) obtain s3 where
    3: "commit L c (st\<lparr>store := s2\<rparr>) = (Inr (), st\<lparr>store := s3,
      current_height := Height (as_u64 ?h + 1), current_round := RSome 0\<rparr>)" "store_ready L \<alpha> \<beta> s3"
      "held L \<alpha> s3 = ledger_commit c (Value_new L data) (held L \<alpha> s2)"
    by auto
  let ?st' = "st\<lparr>store := s3, current_height := Height (as_u64 ?h + 1), current_round := RSome 0\<rparr>"
  have "lg_decided (held L \<alpha> s3) ?h = Some \<lparr>dv_value = Value_new L data, dv_certificate = c\<rparr>"
    by (simp add: 3(3) ledger_commit_decided assms(6))
  with reads_decided [OF 3(2), of ?h] have d: "fst (State_get_decided_value L ?h ?st') =
      Some \<lparr>dv_value = Value_new L data, dv_certificate = c\<rparr>"
    by (auto simp: State_get_decided_value_def)
  have "ledger_find_block ?h ?r (held L \<alpha> s3) = Some data"
    using g2(2,3) by (auto simp: 3(3) ledger_commit_def Let_def ledger_find_block_def ledger_prune_def retained
        ledger_decide_def ledger_put_decided_block_def put_first_def assms(6,7))
  with reads_block [OF 3(2), of ?h ?r] have b: "fst (State_get_block_data L ?h ?r ?st') = Some data"
    by (auto simp: State_get_block_data_def)
  have k: "lg_decided_block (held L \<alpha> s3) ?h = Some data"
    using g2(2,3) by (auto simp: 3(3) ledger_commit_def Let_def ledger_prune_def retained ledger_decide_def
        ledger_find_block_def ledger_put_decided_block_def put_first_def assms(6,7))
  have "hval (Height (as_u64 ?h + 1)) = hval ?h + 1" using assms(3) by (simp add: unat_word_ariths)
  have "bind_io (propose_value L ?h ?r data) (\<lambda>_. bind_io (store_undecided_proposal_data L data) (\<lambda>_. commit L c)) st
      = (Inr (), ?st')"
    unfolding bind_io_Inr using 1(1) 2(1) 3(1) by blast
  with \<open>hval (Height (as_u64 ?h + 1)) = hval ?h + 1\<close> d b k show ?thesis
    by (intro exI [of _ ?st']) (simp add: ledger_of_sel)
qed

section \<open>Stream identifiers\<close>

lemma stream_id_run:
  assumes "round_laws (rounds L)"
  shows "stream_id L st = (case current_round st of
      RNil \<Rightarrow> (panic ''called `Option::unwrap()` on a `None` value'', st)
    | RSome r \<Rightarrow> if unat (stream_nonce st) + 1 < 2 ^ 32
        then (Inr (sid_new (ids L) (to_be_bytes (as_u64 (current_height st)) @ to_be_bytes r @
            to_be_bytes (stream_nonce st))), st\<lparr>stream_nonce := stream_nonce st + 1\<rparr>)
        else (panic ''attempt to add with overflow'', st))"
  using assms by (auto simp: stream_id_def bind_io_def get_io_def lift_io_def modify_io_def return_io_def
      law_simps add_chk_def split: Round.split)

text \<open>A node never uses a stream identifier twice: every identifier drawn increments the nonce, and
  two identifiers are equal only if height, round and nonce are; drawing one panics exactly in a nil
  round or when the nonce has reached its largest value.\<close>

theorem stream_ids_unique:
  assumes "round_laws (rounds L)" and "id_laws (ids L)"
  shows "(stream_id L st = (Inr sid, st') \<longrightarrow> unat (stream_nonce st') = unat (stream_nonce st) + 1 \<and>
      (\<forall>st2 st2'. stream_id L st2 = (Inr sid, st2') \<longrightarrow> current_height st2 = current_height st \<and>
        current_round st2 = current_round st \<and> stream_nonce st2 = stream_nonce st)) \<and>
    panics (fst (stream_id L st)) = (current_round st = RNil \<or> unat (stream_nonce st) = 2 ^ 32 - 1)"
proof -
  have inj: "h = h' \<and> r = r' \<and> n = n'" if "sid_new (ids L) (to_be_bytes h @ to_be_bytes r @ to_be_bytes n) =
      sid_new (ids L) (to_be_bytes h' @ to_be_bytes r' @ to_be_bytes n')" for h h' :: u64 and r r' n n' :: u32
  proof -
    have "to_be_bytes h @ to_be_bytes r @ to_be_bytes n = to_be_bytes h' @ to_be_bytes r' @ to_be_bytes n'"
      using that assms(2) by (metis id_laws_def)
    then show ?thesis by (auto dest: to_be_bytes_inject)
  qed
  have max: "unat (n :: u32) < 4294967295 \<longleftrightarrow> unat n \<noteq> 4294967295" for n
    using unat_u32_less [of n] by auto
  show ?thesis
    using inj by (auto simp: stream_id_run [OF assms(1)] max panics_def unat_word_ariths Height.expand
        split: Round.splits if_splits)
qed

section \<open>Witnesses\<close>

lemma sample_node_ready: "store_ready mem_lib map_of map_of (store sample_node)"
  by (simp add: mem_store_ready)

lemma sample_ledger_empty:
  "lg_proposal (held mem_lib map_of (store sample_node)) hr = None"
  "ledger_find_block h r (held mem_lib map_of (store sample_node)) = None"
  by (simp_all add: ledger_of_sel ledger_find_block_def by_round_def by_height_def)

definition first_certificate :: CommitCertificate where
  "first_certificate = \<lparr>cert_height = Height 1, cert_round = RSome 0, cert_value_id = ValueId 5,
     cert_aggregated_signature = \<lparr>agg_signatures = []\<rparr>\<rparr>"

theorem proposed_value_decided_witness:
  "\<exists>st'. bind_io (propose_value mem_lib (Height 1) (RSome 0) [5, 6]) (\<lambda>_.
      bind_io (store_undecided_proposal_data mem_lib [5, 6]) (\<lambda>_. commit mem_lib first_certificate)) sample_node
      = (Inr (), st') \<and>
    fst (State_get_decided_value mem_lib (Height 1) st') =
      Some \<lparr>dv_value = Value_new mem_lib [5, 6], dv_certificate = first_certificate\<rparr> \<and>
    by_height mem_lib (map_of (db_handle (store st'))) DECIDED_BLOCK_DATA_TABLE (Height 1) = Some [5, 6]"
  using proposed_value_decided [OF sample_node_ready _ _ sample_ledger_empty, of first_certificate "[5, 6]"]
  by (auto simp: first_certificate_def)

theorem commit_without_proposal_witness:
  "\<exists>m. commit mem_lib first_certificate sample_node =
    (Inr (), sample_node\<lparr>store := empty_store\<lparr>db_metrics := m\<rparr>\<rparr>)"
  using commit_without_proposal [OF sample_node_ready sample_ledger_empty(1), of first_certificate] by simp

theorem stream_ids_unique_witness:
  "panics (fst (stream_id mem_lib (sample_node\<lparr>stream_nonce := 2 ^ 32 - 1\<rparr>)))"
proof -
  have "round_laws (rounds mem_lib)" "id_laws (ids mem_lib)" by (simp_all add: std_round_laws std_id_laws)
  from stream_ids_unique [OF this, THEN conjunct2, of "sample_node\<lparr>stream_nonce := 2 ^ 32 - 1\<rparr>"]
  have "panics (fst (stream_id mem_lib (sample_node\<lparr>stream_nonce := 2 ^ 32 - 1\<rparr>))) =
      (unat (2 ^ 32 - 1 :: u32) = 2 ^ 32 - 1)" by simp
  then show ?thesis by simp
qed

theorem commit_decides_witness:
  "\<exists>st' s'. commit mem_lib first_certificate st' = (Inr (), s') \<and>
    lg_decided (held mem_lib map_of (store s')) (Height 1) =
      Some \<lparr>dv_value = Value_new mem_lib [7], dv_certificate = first_certificate\<rparr>"
proof -
  let ?p = "\<lparr>prv_height = Height 1, prv_round = RSome 0, prv_valid_round = RNil, prv_proposer = Address 7,
    prv_value = Value_new mem_lib [7], prv_validity = Valid\<rparr>"
  from refines_propose [OF sample_node_ready, of ?p] obtain s where s: "store_ready mem_lib map_of map_of s"
    and "held mem_lib map_of s = ledger_propose ?p (held mem_lib map_of (store sample_node))"
    by auto
  then have "lg_proposal (held mem_lib map_of s) (Height 1, RSome 0) = Some ?p"
    using sample_ledger_empty(1) by (simp add: ledger_propose_def put_first_def)
  with s commit_decides [of mem_lib map_of map_of "sample_node\<lparr>store := s\<rparr>" first_certificate]
  obtain s' where "commit mem_lib first_certificate (sample_node\<lparr>store := s\<rparr>) = (Inr (), sample_node\<lparr>store := s\<rparr>
      \<lparr>store := s', current_height := Height 2, current_round := RSome 0\<rparr>)"
    and "lg_decided (held mem_lib map_of s') (Height 1) =
      Some \<lparr>dv_value = Value_new mem_lib [7], dv_certificate = first_certificate\<rparr>"
    by (auto simp: first_certificate_def)
  then show ?thesis
    by (intro exI [of _ "sample_node\<lparr>store := s\<rparr>"] exI conjI) (assumption, simp)
qed

end
