(* ===== verification/App.thy ===== *)
theory App
  imports State
begin

text \<open>
  \<open>app/src/app.rs\<close>, the loop that serves the consensus engine, and \<open>make_genesis\<close> and the choice of
  ports of \<open>app/src/node.rs\<close>. A world is the state of the node, the execution layer, what the node has
  answered and published so far, and whether the network channel is open. A reply whose receiver is
  gone is only logged, so answering always succeeds; publishing on a closed channel is an error.
\<close>

section \<open>Messages\<close>

datatype AppMsg =
    ConsensusReady
  | StartedRound Height Round Address
  | GetValue Height Round
  | ReceivedProposalPart PeerId "ProposalPart StreamMessage"
  | GetValidatorSet Height
  | Decided CommitCertificate
  | ProcessSyncedValue Height Round Address bytes
  | GetDecidedValue Height
  | GetHistoryMinHeight
  | RestreamProposal
  | ExtendVote
  | VerifyVoteExtension
  | PeerJoined PeerId
  | PeerLeft PeerId

datatype Output =
    StartHeight Height ValidatorSet
  | LocalValue LocallyProposedValue
  | ReceivedValue "ProposedValue option"
  | Validators ValidatorSet
  | SyncedValue ProposedValue
  | RawDecided "RawDecidedValue option"
  | MinHeight Height
  | NoExtension
  | ExtensionVerified
  | Published "ProposalPart StreamMessage"

record ('db, 'el) world =
  node :: "'db State"
  el :: 'el
  network_open :: bool
  outputs :: "Output list"

text \<open>SSZ and the conversion of a payload to a block, which gives the hashes of its blobs, are
  libraries.\<close>

record ('j, 'el) app_lib = "('j, 'el) engine_lib" +
  ssz_encode :: "ExecutionPayloadV3 \<Rightarrow> bytes"
  ssz_decode :: "bytes \<Rightarrow> ExecutionPayloadV3 option"
  block_blob_hashes :: "ExecutionPayloadV3 \<Rightarrow> BlockHash list option"

definition on_node :: "('db State, Report, 'a) io \<Rightarrow> (('db, 'el) world, Report, 'a) io" where
  "on_node f = (\<lambda>w. case f (node w) of (r, n) \<Rightarrow> (r, w\<lparr>node := n\<rparr>))"

definition on_el :: "('el, Report, 'a) io \<Rightarrow> (('db, 'el) world, Report, 'a) io" where
  "on_el f = (\<lambda>w. case f (el w) of (r, e) \<Rightarrow> (r, w\<lparr>el := e\<rparr>))"

definition read_node :: "('db State \<Rightarrow> 'a \<times> 'db State) \<Rightarrow> (('db, 'el) world, Report, 'a) io" where
  "read_node f = on_node (\<lambda>n. case f n of (x, n') \<Rightarrow> (Inr x, n'))"

definition send_reply :: "Output \<Rightarrow> (('db, 'el) world, Report, unit) io" where
  "send_reply x = modify_io (\<lambda>w. w\<lparr>outputs := outputs w @ [x]\<rparr>)"

definition publish :: "ProposalPart StreamMessage \<Rightarrow> (('db, 'el) world, Report, unit) io" where
  "publish m = (\<lambda>w. if network_open w then (Inr (), w\<lparr>outputs := outputs w @ [Published m]\<rparr>)
     else (fail (LibError ''channel closed''), w))"

fun publish_all :: "ProposalPart StreamMessage list \<Rightarrow> (('db, 'el) world, Report, unit) io" where
  "publish_all [] = return_io ()"
| "publish_all (m # ms) = bind_io (publish m) (\<lambda>_. publish_all ms)"

section \<open>The handlers\<close>

definition start_height :: "(('db, 'el) world, Report, unit) io" where
  "start_height = bind_io get_io (\<lambda>w.
     send_reply (StartHeight (current_height (node w)) (get_validator_set (node w))))"

definition consensus_ready :: "('j, 'el) app_lib \<Rightarrow> Engine \<Rightarrow> (('db, 'el) world, Report, unit) io" where
  "consensus_ready E en =
     bind_io (on_el (check_capabilities (engine_lib.truncate E) en)) (\<lambda>_.
     bind_io (on_el (get_block_by_number (engine_lib.truncate E) (eng_eth en) ''latest'')) (\<lambda>block.
     bind_io (lift_io (expect ''called `Option::unwrap()` on a `None` value'' block)) (\<lambda>block.
     bind_io (modify_io (\<lambda>w. w\<lparr>node := (node w)\<lparr>latest_block := Some block\<rparr>\<rparr>)) (\<lambda>_.
       start_height))))"

definition started_round :: "Height \<Rightarrow> Round \<Rightarrow> Address \<Rightarrow> (('db, 'el) world, Report, unit) io" where
  "started_round height round proposer = modify_io (\<lambda>w. w\<lparr>node := (node w)
     \<lparr>current_height := height, current_round := round, current_proposer := Some proposer\<rparr>\<rparr>)"

definition get_value ::
  "('db, 'tx, 'z) store_lib_scheme \<Rightarrow> ('j, 'el) app_lib \<Rightarrow> Engine \<Rightarrow> Height \<Rightarrow> Round \<Rightarrow>
    (('db, 'el) world, Report, unit) io" where
  "get_value L E en height round =
     bind_io get_io (\<lambda>w.
     bind_io (lift_io (expect ''Head block hash is not set'' (latest_block (node w)))) (\<lambda>latest_block.
     bind_io (on_el (generate_block (engine_lib.truncate E) en latest_block)) (\<lambda>execution_payload.
     let bytes = ssz_encode E execution_payload in
     bind_io (on_node (propose_value L height round bytes)) (\<lambda>proposal.
     bind_io (on_node (store_undecided_proposal_data L bytes)) (\<lambda>_.
     bind_io (send_reply (LocalValue proposal)) (\<lambda>_.
     bind_io (on_node (stream_proposal L proposal bytes)) publish_all))))))"

definition received_part ::
  "('db, 'tx, 'z) store_lib_scheme \<Rightarrow> PeerId \<Rightarrow> ProposalPart StreamMessage \<Rightarrow>
    (('db, 'el) world, Report, unit) io" where
  "received_part L from part =
     bind_io (lift_io (case sm_content part of SData p \<Rightarrow> part_size_bytes L p | SFin \<Rightarrow> Inr 0)) (\<lambda>_.
     bind_io (on_node (received_proposal_part L from part)) (\<lambda>proposed_value.
       send_reply (ReceivedValue proposed_value)))"

definition payload_v1 :: "ExecutionPayloadV3 \<Rightarrow> ExecutionPayloadV1" where
  "payload_v1 p = v2_payload_inner (v3_payload_inner p)"

definition count_block :: "ExecutionPayloadV3 \<Rightarrow> bytes \<Rightarrow> (('db, 'el) world, Report, unit) io" where
  "count_block payload block_bytes =
     bind_io get_io (\<lambda>w.
     bind_io (lift_io (add_chk (txs_count (node w)) (of_nat (length (v1_transactions (payload_v1 payload))))))
       (\<lambda>txs.
     bind_io (modify_io (\<lambda>w. w\<lparr>node := (node w)\<lparr>txs_count := txs\<rparr>\<rparr>)) (\<lambda>_.
     bind_io (lift_io (add_chk (chain_bytes (node w)) (of_nat (length block_bytes)))) (\<lambda>bytes.
       modify_io (\<lambda>w. w\<lparr>node := (node w)\<lparr>chain_bytes := bytes\<rparr>\<rparr>)))))"

definition decided ::
  "('db, 'tx, 'z) store_lib_scheme \<Rightarrow> ('j, 'el) app_lib \<Rightarrow> Engine \<Rightarrow> CommitCertificate \<Rightarrow>
    (('db, 'el) world, Report, unit) io" where
  "decided L E en certificate =
     bind_io (read_node (State_get_block_data L (cert_height certificate) (cert_round certificate))) (\<lambda>data.
     bind_io (lift_io (expect ''certificate should have associated block data'' data)) (\<lambda>block_bytes.
     bind_io (lift_io (expect ''called `Result::unwrap()` on an `Err` value'' (ssz_decode E block_bytes)))
       (\<lambda>payload.
     bind_io get_io (\<lambda>w.
     bind_io (lift_io (expect ''called `Option::unwrap()` on a `None` value'' (latest_block (node w)))) (\<lambda>latest.
     bind_io (lift_io (assert_that ''assertion `left == right` failed''
         (eb_block_hash latest = v1_parent_hash (payload_v1 payload)))) (\<lambda>_.
     bind_io (count_block payload block_bytes) (\<lambda>_.
     bind_io (lift_io (expect ''called `Result::unwrap()` on an `Err` value'' (block_blob_hashes E payload)))
       (\<lambda>versioned_hashes.
     bind_io (on_el (notify_new_block (engine_lib.truncate E) en payload versioned_hashes)) (\<lambda>payload_status.
     (case status payload_status of
        PS_Invalid e \<Rightarrow> lift_io (fail (Eyre (''Invalid payload status: '' @ show_status E (PS_Invalid e))))
      | _ \<Rightarrow>
     bind_io (on_el (set_latest_forkchoice_state (engine_lib.truncate E) en
         (v1_block_hash (payload_v1 payload)))) (\<lambda>latest_valid_hash.
     bind_io (on_node (commit L certificate)) (\<lambda>_.
     bind_io (modify_io (\<lambda>w. w\<lparr>node := (node w)\<lparr>latest_block := Some
        \<lparr>eb_block_hash = v1_block_hash (payload_v1 payload),
         eb_block_number = v1_block_number (payload_v1 payload),
         eb_parent_hash = latest_valid_hash,
         eb_timestamp = v1_timestamp (payload_v1 payload),
         eb_prev_randao = v1_prev_randao (payload_v1 payload)\<rparr>\<rparr>\<rparr>)) (\<lambda>_.
       start_height)))))))))))))"

definition process_synced_value ::
  "('db, 'tx, 'z) store_lib_scheme \<Rightarrow> Height \<Rightarrow> Round \<Rightarrow> Address \<Rightarrow> bytes \<Rightarrow>
    (('db, 'el) world, Report, unit) io" where
  "process_synced_value L height round proposer value_bytes =
     bind_io (lift_io (decode_value L value_bytes)) (\<lambda>value.
       send_reply (SyncedValue \<lparr>prv_height = height, prv_round = round, prv_valid_round = RNil,
         prv_proposer = proposer, prv_value = value, prv_validity = Valid\<rparr>))"

definition get_decided_value ::
  "('db, 'tx, 'z) store_lib_scheme \<Rightarrow> Height \<Rightarrow> (('db, 'el) world, Report, unit) io" where
  "get_decided_value L height =
     bind_io (read_node (State_get_decided_value L height)) (\<lambda>decided_value.
     bind_io (lift_io (map_transpose (\<lambda>dv.
         and_then (unwrap ''called `Result::unwrap()` on an `Err` value'' (Value_encode L (dv_value dv)))
           (\<lambda>b. Inr \<lparr>rdv_certificate = dv_certificate dv, rdv_value_bytes = b\<rparr>)) decided_value)) (\<lambda>raw.
       send_reply (RawDecided raw)))"

fun handle ::
  "('db, 'tx, 'z) store_lib_scheme \<Rightarrow> ('j, 'el) app_lib \<Rightarrow> Engine \<Rightarrow> AppMsg \<Rightarrow>
    (('db, 'el) world, Report, unit) io" where
  "handle L E en ConsensusReady = consensus_ready E en"
| "handle L E en (StartedRound height round proposer) = started_round height round proposer"
| "handle L E en (GetValue height round) = get_value L E en height round"
| "handle L E en (ReceivedProposalPart from part) = received_part L from part"
| "handle L E en (GetValidatorSet height) =
     bind_io get_io (\<lambda>w. send_reply (Validators (get_validator_set (node w))))"
| "handle L E en (Decided certificate) = decided L E en certificate"
| "handle L E en (ProcessSyncedValue height round proposer value_bytes) =
     process_synced_value L height round proposer value_bytes"
| "handle L E en (GetDecidedValue height) = get_decided_value L height"
| "handle L E en GetHistoryMinHeight =
     bind_io (read_node (get_earliest_height L)) (\<lambda>h. send_reply (MinHeight h))"
| "handle L E en RestreamProposal = return_io ()"
| "handle L E en ExtendVote = send_reply NoExtension"
| "handle L E en VerifyVoteExtension = send_reply ExtensionVerified"
| "handle L E en (PeerJoined peer_id) = modify_io (\<lambda>w. w\<lparr>node := (node w)\<lparr>peers := insert peer_id (peers (node w))\<rparr>\<rparr>)"
| "handle L E en (PeerLeft peer_id) = modify_io (\<lambda>w. w\<lparr>node := (node w)\<lparr>peers := peers (node w) - {peer_id}\<rparr>\<rparr>)"

text \<open>The loop, on the messages that the channel delivers until it is closed.\<close>

fun run_app ::
  "('db, 'tx, 'z) store_lib_scheme \<Rightarrow> ('j, 'el) app_lib \<Rightarrow> Engine \<Rightarrow> AppMsg list \<Rightarrow>
    (('db, 'el) world, Report, unit) io" where
  "run_app L E en [] = lift_io (fail (Eyre ''Consensus channel closed unexpectedly''))"
| "run_app L E en (m # ms) = bind_io (handle L E en m) (\<lambda>_. run_app L E en ms)"

section \<open>\<open>node.rs\<close>\<close>

definition get_address :: "'z lib_scheme \<Rightarrow> PublicKey \<Rightarrow> Address" where
  "get_address L pk = Address_from_public_key L pk"

definition make_genesis :: "'z lib_scheme \<Rightarrow> (PublicKey \<times> VotingPower) list \<Rightarrow> ('e, Genesis) result" where
  "make_genesis L vals =
     and_then (ValidatorSet_new (map (\<lambda>(pk, vp). Validator_new L pk vp) vals)) (\<lambda>vs.
       Inr \<lparr>validator_set = vs\<rparr>)"

definition engine_port :: "string \<Rightarrow> nat" where
  "engine_port moniker = (if moniker = ''test-0'' then 8551 else if moniker = ''test-1'' then 18551
     else if moniker = ''test-2'' then 28551 else 8551)"

definition eth_port :: "string \<Rightarrow> nat" where
  "eth_port moniker = (if moniker = ''test-0'' then 8545 else if moniker = ''test-1'' then 18545
     else if moniker = ''test-2'' then 28545 else 8545)"

definition engine_url :: "string \<Rightarrow> string" where
  "engine_url moniker = ''http://localhost:'' @ show_nat (engine_port moniker)"

definition eth_endpoint :: "string \<Rightarrow> string" where
  "eth_endpoint moniker = ''http://localhost:'' @ show_nat (eth_port moniker)"

end
