(* ===== verification/Engine_Correct.thy ===== *)
theory Engine_Correct
  imports Engine
begin

text \<open>The properties of the clients of the execution layer, for any execution layer.\<close>

lemma only_valid:
  "(case s of PS_Valid \<Rightarrow> m | PS_Invalid l \<Rightarrow> lift_io (fail (g l)) | PS_Syncing \<Rightarrow> lift_io (fail g1)
      | PS_Accepted \<Rightarrow> lift_io (fail g2)) x = (Inr y, z) \<longleftrightarrow> s = PS_Valid \<and> m x = (Inr y, z)"
  by (cases s) (simp_all add: lift_io_def)

text \<open>A node accepts an execution layer exactly when the capabilities it reports include the three
  methods the node calls, the third version of forkchoiceUpdated, getPayload and newPayload; all the
  others are optional.\<close>

theorem capabilities_required:
  assumes "EngineRPC_rpc_request E (eng_api en) ENGINE_EXCHANGE_CAPABILITIES
    (json_capabilities E NODE_CAPABILITIES) 1 (from_capabilities E) el = (Inr c, el')"
  shows "check_capabilities E en el =
    (if {ENGINE_FORKCHOICE_UPDATED_V3, ENGINE_GET_PAYLOAD_V3, ENGINE_NEW_PAYLOAD_V3} \<subseteq> c then Inr ()
     else fail (Eyre ''Engine does not support required methods''), el')"
  using assms by (simp add: check_capabilities_def exchange_capabilities_def bind_io_def return_io_def lift_io_def)

text \<open>Setting the head of the execution layer succeeds exactly when it answers without a payload id
  and with a valid status that names a latest valid hash, and gives that hash. A payload id, or a
  valid status without a hash, panics the node; every other status is an error, a syncing layer
  without a valid hash being reported as an unknown payload.\<close>

theorem forkchoice_outcome:
  assumes "forkchoice_updated E (eng_api en) head None el = (Inr f, el')"
  defines "st \<equiv> status (payload_status f)" and "lvh \<equiv> latest_valid_hash (payload_status f)"
  shows "set_latest_forkchoice_state E en head el =
    (if payload_id f \<noteq> None then panic ''Payload ID should be None!''
     else if st = PS_Valid then (case lvh of Some h \<Rightarrow> Inr h
       | None \<Rightarrow> panic ''called `Option::unwrap()` on a `None` value'')
     else if st = PS_Syncing \<and> lvh = None then fail (Eyre (''headBlockHash='' @ show_hash E head @
       '' references an unknown payload or a payload that can't be validated''))
     else fail (Eyre (''Invalid payload status: '' @ show_status E st)), el')"
  using assms(1) unfolding st_def lvh_def
  by (cases "status (payload_status f)"; cases "latest_valid_hash (payload_status f)"; cases "payload_id f")
    (simp_all add: set_latest_forkchoice_state_def bind_io_def lift_io_def)

text \<open>A block is built on the node's head one second after it: the execution layer is asked to build
  on the head's hash, with the head's randomness, the fixed fee recipient, no withdrawals and a
  timestamp one larger than the head's, and it must find the head valid and name it as its latest
  valid block; the block returned is the payload of the id it gave. The largest timestamp panics.\<close>

theorem block_built_on_head:
  "generate_block E en b el = (Inr p, el') \<longleftrightarrow>
    unat (eb_timestamp b) + 1 < 2 ^ 64 \<and>
    (\<exists>f e i. forkchoice_updated E (eng_api en) (eb_block_hash b)
        (Some \<lparr>pa_timestamp = eb_timestamp b + 1, pa_prev_randao = eb_prev_randao b,
          pa_suggested_fee_recipient = fee_recipient, pa_withdrawals = Some [],
          pa_parent_beacon_block_root = Some (eb_block_hash b)\<rparr>) el = (Inr f, e) \<and>
      payload_status f = \<lparr>status = PS_Valid, latest_valid_hash = Some (eb_block_hash b)\<rparr> \<and>
      payload_id f = Some i \<and> get_payload E (eng_api en) i e = (Inr p, el'))"
proof -
  have ps: "s = \<lparr>status = PS_Valid, latest_valid_hash = h\<rparr> \<longleftrightarrow> status s = PS_Valid \<and> latest_valid_hash s = h"
    for s :: PayloadStatus and h by (cases s) simp
  show ?thesis
    unfolding generate_block_def Let_def bind_io_Inr lift_io_Inr only_valid add_chk_Inr res_conv_Inr ps
    by auto
qed

text \<open>Nothing of a payload is lost on its way to the execution layer: the JSON form determines the
  payload.\<close>

theorem payload_json_lossless:
  "JsonExecutionPayloadV3_from p = JsonExecutionPayloadV3_from q \<longleftrightarrow> p = q"
proof
  assume "JsonExecutionPayloadV3_from p = JsonExecutionPayloadV3_from q"
  then show "p = q"
    by (cases p; cases q; cases "v3_payload_inner p"; cases "v3_payload_inner q";
        cases "v2_payload_inner (v3_payload_inner p)"; cases "v2_payload_inner (v3_payload_inner q)")
      (simp add: JsonExecutionPayloadV3_from_def Let_def)
qed simp

end
