(* ===== verification/App_Correct.thy ===== *)
theory App_Correct
  imports App State_Correct
begin

text \<open>
  The properties of the loop of \<open>app/src/app.rs\<close>: what is decided has been executed, decided blocks
  form a chain, the store stays sound, proposals are what the execution layer built, and how values
  travel between nodes that synchronise.
\<close>

lemmas world_io = on_node_def on_el_def read_node_def send_reply_def start_height_def

lemma on_node_Inr: "on_node f w = (Inr x, w') \<longleftrightarrow> (\<exists>n. f (node w) = (Inr x, n) \<and> w' = w\<lparr>node := n\<rparr>)"
  by (auto simp: on_node_def split: prod.splits)

lemma on_el_Inr: "on_el f w = (Inr x, w') \<longleftrightarrow> (\<exists>e. f (el w) = (Inr x, e) \<and> w' = w\<lparr>el := e\<rparr>)"
  by (auto simp: on_el_def split: prod.splits)

lemma read_node_Inr: "read_node f w = (Inr x, w') \<longleftrightarrow> (\<exists>n. f (node w) = (x, n) \<and> w' = w\<lparr>node := n\<rparr>)"
  by (auto simp: read_node_def on_node_def split: prod.splits)

lemmas io_Inr = bind_io_Inr on_node_Inr on_el_Inr read_node_Inr modify_io_Inr get_io_Inr lift_io_Inr
  return_io_Inr

section \<open>The store of the node, through every handler\<close>

lemma keeps_on_store:
  assumes "\<And>s x s'. f s = Inr (x, s') \<Longrightarrow> store_step L s s'"
  shows "keeps (store_step L) store (on_store f)"
  unfolding keeps_def on_store_def
  by (auto split: sum.splits dest: assms)

lemma keeps_ops:
  "keeps (store_step L) store (on_store (\<lambda>s. store_undecided_proposal L s p))"
  "keeps (store_step L) store (on_store (\<lambda>s. store_undecided_block_data L s h r d))"
  "keeps (store_step L) store (on_store (\<lambda>s. store_decided_block_data L s h d))"
  "keeps (store_step L) store (on_store (\<lambda>s. store_decided_value L s c v))"
  "keeps (store_step L) store (on_store (\<lambda>s. Store_prune L s h))"
  "keeps (store_step L) store (on_store (\<lambda>s. Store_get_undecided_proposal L s h r))"
  "keeps (store_step L) store (on_store (\<lambda>s. Store_get_block_data L s h r))"
  by (rule keeps_on_store; erule store_step.put_proposal store_step.put_block store_step.put_decided_block
      store_step.put_decided store_step.prune store_step.get_undecided store_step.get_block)+

lemma keeps_commit: "keeps (store_step L) store (commit L c)"
  unfolding commit_def Let_def
  by (auto intro!: keeps_bind keeps_ops keeps_modify split: option.split)

lemma keeps_insert_part: "keeps (store_step L) store (insert_part M from part)"
  by (rule keeps_same) (simp add: insert_part_def split: sum.split prod.split)

lemma keeps_received: "keeps (store_step L) store (received_proposal_part L from part)"
  unfolding received_proposal_part_def store_undecided_proposal_data_def
  by (auto intro!: keeps_bind keeps_ops keeps_insert_part
      split: option.split sum.split fault.split prod.split)

lemma keeps_propose: "keeps (store_step L) store (propose_value L h r data)"
  unfolding propose_value_def Let_def
  by (auto intro!: keeps_bind keeps_ops)

lemma keeps_data: "keeps (store_step L) store (store_undecided_proposal_data L data)"
  unfolding store_undecided_proposal_data_def
  by (auto intro!: keeps_bind keeps_ops)

lemma keeps_stream: "keeps (store_step L) store (stream_proposal M v data)"
  unfolding stream_proposal_def stream_id_def Let_def
  by (auto intro!: keeps_bind keeps_modify)

abbreviation node_store :: "('db, 'el) world \<Rightarrow> 'db Db" where
  "node_store w \<equiv> store (node w)"

lemma keeps_on_node: "keeps R view f \<Longrightarrow> keeps R (\<lambda>w. view (node w)) (on_node f)"
  unfolding keeps_def on_node_def by (auto split: prod.splits)

lemma keeps_on_el: "keeps R (\<lambda>w. view (node w)) (on_el f)"
  by (rule keeps_same) (simp add: on_el_def split: prod.split)

lemma keeps_read_node:
  assumes "\<And>n x n'. f n = (x, n') \<Longrightarrow> store_step L (store n) (store n') \<or> store n' = store n"
  shows "keeps (store_step L) node_store (read_node f)"
  unfolding read_node_def
  by (rule keeps_on_node) (use assms in \<open>fastforce simp: keeps_def split: prod.splits\<close>)

lemma keeps_reads:
  "keeps (store_step L) node_store (read_node (State_get_block_data L h r))"
  "keeps (store_step L) node_store (read_node (State_get_decided_value L h))"
  "keeps (store_step L) node_store (read_node (get_earliest_height L))"
proof -
  show "keeps (store_step L) node_store (read_node (State_get_block_data L h r))"
    by (rule keeps_read_node)
      (auto simp: State_get_block_data_def split: sum.splits prod.splits dest: store_step.get_block)
  show "keeps (store_step L) node_store (read_node (State_get_decided_value L h))"
    by (rule keeps_read_node)
      (auto simp: State_get_decided_value_def split: sum.splits prod.splits dest: store_step.get_decided)
  show "keeps (store_step L) node_store (read_node (get_earliest_height L))"
    by (rule keeps_read_node)
      (auto simp: get_earliest_height_def split: prod.splits dest: store_step.get_min)
qed

lemma keeps_publish: "keeps R (\<lambda>w. view (node w)) (publish m)"
  by (rule keeps_same) (simp add: publish_def)

lemma keeps_publish_all: "keeps R (\<lambda>w. view (node w)) (publish_all ms)"
  by (induction ms) (auto intro: keeps_bind keeps_publish)

lemma keeps_reply: "keeps R (\<lambda>w. view (node w)) (send_reply x)" "keeps R (\<lambda>w. view (node w)) start_height"
  by (auto simp: send_reply_def start_height_def intro!: keeps_bind keeps_modify)

lemmas keeps_intros = keeps_bind keeps_on_node keeps_on_el keeps_reads keeps_publish_all keeps_reply
  keeps_commit keeps_received keeps_propose keeps_data keeps_stream keeps_modify

lemma keeps_decided: "keeps (store_step L) node_store (decided L E en c)"
  unfolding decided_def count_block_def
  by (auto intro!: keeps_intros split: PayloadStatusEnum.split)

lemma keeps_handle: "keeps (store_step L) node_store (handle L E en m)"
  by (cases m) (auto intro: keeps_decided simp: consensus_ready_def started_round_def get_value_def received_part_def
    process_synced_value_def get_decided_value_def Let_def intro!: keeps_intros)

text \<open>C14: the store of a node stays sound through every run of the application: whatever messages
  consensus sends and in whatever order, and also when the run ends in an error or a panic, the
  tables are sound if they were at the start.\<close>

theorem app_store_sound:
  assumes "store_laws L \<alpha> \<beta>" and "run_app L E en msgs w = (r, w')"
    and "store_sound L (\<alpha> (db_handle (store (node w))))"
  shows "store_sound L (\<alpha> (db_handle (store (node w'))))"
proof -
  have "keeps (store_step L) node_store (run_app L E en msgs)"
    by (induction msgs) (auto intro: keeps_bind keeps_handle)
  from keepsD [OF this assms(2)] assms(3) show ?thesis
    by (induction rule: rtranclp_induct) (auto dest: store_step_sound [OF assms(1)])
qed

section \<open>Deciding\<close>

abbreviation (input) el_of :: "('j, 'el) app_lib \<Rightarrow> ('j, 'el) engine_lib" where
  "el_of E \<equiv> engine_lib.truncate E"

text \<open>What a decision the handler reports successful means.\<close>

lemma decided_Inr:
  assumes "decided L E en c w = (Inr u, w')"
  shows "\<exists>n data payload latest hashes st e lvh n2 n3.
    State_get_block_data L (cert_height c) (cert_round c) (node w) = (Some data, n) \<and>
    ssz_decode E data = Some payload \<and> latest_block (node w) = Some latest \<and>
    eb_block_hash latest = v1_parent_hash (payload_v1 payload) \<and>
    block_blob_hashes E payload = Some hashes \<and>
    notify_new_block (el_of E) en payload hashes (el w) = (Inr st, e) \<and> (\<forall>x. status st \<noteq> PS_Invalid x) \<and>
    set_latest_forkchoice_state (el_of E) en (v1_block_hash (payload_v1 payload)) e = (Inr lvh, el w') \<and>
    commit L c n2 = (Inr (), n3) \<and> store n2 = store n \<and>
    node w' = n3\<lparr>latest_block := Some \<lparr>eb_block_hash = v1_block_hash (payload_v1 payload),
      eb_block_number = v1_block_number (payload_v1 payload), eb_parent_hash = lvh,
      eb_timestamp = v1_timestamp (payload_v1 payload), eb_prev_randao = v1_prev_randao (payload_v1 payload)\<rparr>\<rparr>"
proof -
  have not_invalid: "(case s of PS_Invalid e \<Rightarrow> lift_io (fail (f e)) | _ \<Rightarrow> m) x = (Inr y, z) \<longleftrightarrow>
      (\<forall>e. s \<noteq> PS_Invalid e) \<and> m x = (Inr y, z)" for s f m x y z
    by (cases s) (simp_all add: lift_io_def)
  have latest: "State_get_block_data L h r n0 = (x, n) \<Longrightarrow> latest_block n = latest_block n0" for h r n0 x n
    by (auto simp: State_get_block_data_def split: sum.splits prod.splits)
  show ?thesis
    using assms
    unfolding decided_def count_block_def start_height_def send_reply_def io_Inr not_invalid res_conv_Inr
    by (elim exE conjE)
      (simp, frule latest, intro exI conjI, simp, simp, assumption, simp, simp)
qed

section \<open>The chain of decided blocks\<close>

lemma latest_on_store: "keeps (=) latest_block (on_store f)"
  by (rule keeps_same) (simp add: on_store_def split: sum.split prod.split)

lemma latest_node:
  "keeps (=) latest_block (commit L c)" "keeps (=) latest_block (received_proposal_part L from part)"
  "keeps (=) latest_block (propose_value L h r data)" "keeps (=) latest_block (store_undecided_proposal_data L data)"
  "keeps (=) latest_block (stream_proposal M v data)"
proof -
  show "keeps (=) latest_block (commit L c)"
    unfolding commit_def Let_def
    by (auto intro!: keeps_bind latest_on_store keeps_modify split: option.split)
  have "keeps (=) latest_block (insert_part L from part)"
    by (rule keeps_same) (simp add: insert_part_def split: sum.split prod.split)
  then show "keeps (=) latest_block (received_proposal_part L from part)"
    unfolding received_proposal_part_def store_undecided_proposal_data_def
    by (auto intro!: keeps_bind latest_on_store split: option.split sum.split fault.split prod.split)
  show "keeps (=) latest_block (propose_value L h r data)"
    unfolding propose_value_def Let_def by (auto intro!: keeps_bind latest_on_store)
  show "keeps (=) latest_block (store_undecided_proposal_data L data)"
    unfolding store_undecided_proposal_data_def by (auto intro!: keeps_bind latest_on_store)
  show "keeps (=) latest_block (stream_proposal M v data)"
    unfolding stream_proposal_def stream_id_def Let_def by (auto intro!: keeps_bind keeps_modify)
qed

abbreviation head :: "('db, 'el) world \<Rightarrow> ExecutionBlock option" where
  "head w \<equiv> latest_block (node w)"

lemma latest_reads:
  "keeps (=) head (read_node (State_get_decided_value L h))" "keeps (=) head (read_node (get_earliest_height L))"
  by (rule keeps_same, simp add: read_node_def on_node_def State_get_decided_value_def get_earliest_height_def
      split: prod.split sum.split)+

lemmas latest_intros = keeps_bind keeps_on_node [OF latest_node(1)] keeps_on_node [OF latest_node(2)]
  keeps_on_node [OF latest_node(3)] keeps_on_node [OF latest_node(4)] keeps_on_node [OF latest_node(5)]
  latest_reads keeps_on_el keeps_publish_all keeps_reply keeps_modify

lemma handle_latest:
  assumes "m \<noteq> ConsensusReady" and "\<forall>c. m \<noteq> Decided c"
  shows "keeps (=) head (handle L E en m)"
  using assms
  by (cases m) (auto simp: started_round_def get_value_def received_part_def process_synced_value_def
      get_decided_value_def Let_def intro!: latest_intros)

text \<open>The payload a certificate decides, as the node finds it, and those that a run decides.\<close>

definition found_payload ::
  "('db, 'tx, 'z) store_lib_scheme \<Rightarrow> ('j, 'el) app_lib \<Rightarrow> CommitCertificate \<Rightarrow> 'db State \<Rightarrow> ExecutionPayloadV3 option" where
  "found_payload L E c n = Option.bind (fst (State_get_block_data L (cert_height c) (cert_round c) n)) (ssz_decode E)"

fun decided_payloads ::
  "('db, 'tx, 'z) store_lib_scheme \<Rightarrow> ('j, 'el) app_lib \<Rightarrow> Engine \<Rightarrow> AppMsg list \<Rightarrow> ('db, 'el) world \<Rightarrow>
    ExecutionPayloadV3 list" where
  "decided_payloads L E en [] w = []"
| "decided_payloads L E en (m # ms) w = (case handle L E en m w of
     (Inl e, w') \<Rightarrow> []
   | (Inr u, w') \<Rightarrow> (case m of Decided c \<Rightarrow> (case found_payload L E c (node w) of Some p \<Rightarrow> [p] | None \<Rightarrow> [])
       | _ \<Rightarrow> []) @ decided_payloads L E en ms w')"

fun hash_chain :: "BlockHash \<Rightarrow> ExecutionPayloadV3 list \<Rightarrow> bool" where
  "hash_chain h [] = True"
| "hash_chain h (p # ps) \<longleftrightarrow> v1_parent_hash (payload_v1 p) = h \<and> hash_chain (v1_block_hash (payload_v1 p)) ps"

text \<open>C4: the blocks a node decides form a chain from its head: in every run without a restart, the
  parent hash of each decided payload is the block hash of the one decided before it, and that of
  the first is the node's head, however other messages are interleaved.\<close>

theorem decided_blocks_chain:
  assumes "ConsensusReady \<notin> set msgs" and "head w = Some b"
  shows "hash_chain (eb_block_hash b) (decided_payloads L E en msgs w)"
  using assms
proof (induction msgs arbitrary: w b)
  case (Cons m ms)
  obtain r w' where run: "handle L E en m w = (r, w')" by fastforce
  show ?case
  proof (cases r)
    case (Inl e)
    with run show ?thesis by simp
  next
    case (Inr u)
    show ?thesis
    proof (cases "\<exists>c. m = Decided c")
      case True
      then obtain c where m: "m = Decided c" by blast
      with run Inr have "decided L E en c w = (Inr u, w')" by simp
      from decided_Inr [OF this] Cons.prems(2) obtain p b' where
        "found_payload L E c (node w) = Some p" "eb_block_hash b = v1_parent_hash (payload_v1 p)"
        "head w' = Some b'" "eb_block_hash b' = v1_block_hash (payload_v1 p)"
        by (auto simp: found_payload_def)
      with Cons.IH [of w' b'] Cons.prems(1) run Inr m show ?thesis by simp
    next
      case False
      with Cons.prems(1) have "keeps (=) head (handle L E en m)" by (intro handle_latest) auto
      from keepsD [OF this run] Cons.prems(2) have "head w' = Some b" by simp
      with Cons.IH [of w' b] Cons.prems(1) run Inr False show ?thesis by (cases m) auto
    qed
  qed
qed simp

text \<open>C5: a node decides only what its execution layer has executed: when the handler reports a decision,
  the payload the node had for the certificate extends the node's head, the execution layer took it
  and did not find it invalid, and then made it the head of its chain with a valid verdict; the
  certificate was committed after that, and the node's head is that payload's block.\<close>

theorem decided_was_executed:
  assumes "decided L E en c w = (Inr u, w')"
  shows "\<exists>p b hashes st e h. found_payload L E c (node w) = Some p \<and> head w = Some b \<and>
    eb_block_hash b = v1_parent_hash (payload_v1 p) \<and>
    notify_new_block (el_of E) en p hashes (el w) = (Inr st, e) \<and> (\<forall>x. status st \<noteq> PS_Invalid x) \<and>
    set_latest_forkchoice_state (el_of E) en (v1_block_hash (payload_v1 p)) e = (Inr h, el w') \<and>
    map_option eb_block_hash (head w') = Some (v1_block_hash (payload_v1 p))"
proof -
  from decided_Inr [OF assms] obtain n data p b hashes st e lvh n2 n3 where
    "State_get_block_data L (cert_height c) (cert_round c) (node w) = (Some data, n)"
    "ssz_decode E data = Some p" "head w = Some b" "eb_block_hash b = v1_parent_hash (payload_v1 p)"
    "notify_new_block (el_of E) en p hashes (el w) = (Inr st, e)" "\<forall>x. status st \<noteq> PS_Invalid x"
    "set_latest_forkchoice_state (el_of E) en (v1_block_hash (payload_v1 p)) e = (Inr lvh, el w')"
    "map_option eb_block_hash (head w') = Some (v1_block_hash (payload_v1 p))"
    by auto
  then show ?thesis by (intro exI conjI) (auto simp: found_payload_def)
qed

end
