(* ===== verification/App_Sync.thy ===== *)
theory App_Sync
  imports App_Correct
begin

text \<open>
  Further properties of the loop: a block the execution layer does not accept changes nothing, what a
  proposer proposes is what the execution layer built, and how synchronisation carries values.
\<close>

section \<open>A decision without execution\<close>

text \<open>The part of the handler before the commit.\<close>

definition execute ::
  "('db, 'tx, 'z) store_lib_scheme \<Rightarrow> ('j, 'el) app_lib \<Rightarrow> Engine \<Rightarrow> CommitCertificate \<Rightarrow>
    (('db, 'el) world, Report, ExecutionPayloadV3 \<times> BlockHash) io" where
  "execute L E en certificate =
     bind_io (read_node (State_get_block_data L (cert_height certificate) (cert_round certificate))) (\<lambda>data.
     bind_io (lift_io (expect ''certificate should have associated block data'' data)) (\<lambda>block_bytes.
     bind_io (lift_io (expect ''called `Result::unwrap()` on an `Err` value'' (ssz_decode E block_bytes)))
       (\<lambda>payload.
     bind_io get_io (\<lambda>w.
     bind_io (lift_io (expect ''called `Option::unwrap()` on a `None` value'' (latest_block (node w)))) (\<lambda>latest.
     bind_io (lift_io (assert_that ''assertion `left == right` failed''
         (eb_block_hash latest = v1_parent_hash (payload_v1 payload)))) (\<lambda>_.
     bind_io (count_block payload block_bytes) (\<lambda>_.
     bind_io (lift_io (expect ''called `Result::unwrap()` on an `Err` value'' (block_blob_hashes E payload)))
       (\<lambda>versioned_hashes.
     bind_io (on_el (notify_new_block (engine_lib.truncate E) en payload versioned_hashes)) (\<lambda>payload_status.
     (case status payload_status of
        PS_Invalid e \<Rightarrow> lift_io (fail (Eyre (''Invalid payload status: '' @ show_status E (PS_Invalid e))))
      | _ \<Rightarrow>
     bind_io (on_el (set_latest_forkchoice_state (engine_lib.truncate E) en
         (v1_block_hash (payload_v1 payload)))) (\<lambda>latest_valid_hash.
       return_io (payload, latest_valid_hash))))))))))))"

lemma bind_io_assoc: "bind_io (bind_io m f) g = bind_io m (\<lambda>x. bind_io (f x) g)"
  by (auto simp: bind_io_def fun_eq_iff split: prod.split sum.split)

lemma bind_status:
  "bind_io (case s of PS_Invalid e \<Rightarrow> lift_io (fail (h e)) | _ \<Rightarrow> m) g =
    (case s of PS_Invalid e \<Rightarrow> lift_io (fail (h e)) | _ \<Rightarrow> bind_io m g)"
  by (cases s) (simp_all add: bind_io_def lift_io_def)

lemma bind_return: "bind_io (return_io x) g = g x"
  by (simp add: bind_io_def return_io_def)

lemma decided_split:
  "decided L E en c = bind_io (execute L E en c) (\<lambda>(payload, latest_valid_hash).
     bind_io (on_node (commit L c)) (\<lambda>_.
     bind_io (modify_io (\<lambda>w. w\<lparr>node := (node w)\<lparr>latest_block := Some
        \<lparr>eb_block_hash = v1_block_hash (payload_v1 payload),
         eb_block_number = v1_block_number (payload_v1 payload),
         eb_parent_hash = latest_valid_hash,
         eb_timestamp = v1_timestamp (payload_v1 payload),
         eb_prev_randao = v1_prev_randao (payload_v1 payload)\<rparr>\<rparr>\<rparr>)) (\<lambda>_. start_height)))"
  unfolding decided_def execute_def bind_io_assoc bind_status bind_return prod.case by (rule refl)

text \<open>What a node has decided: its database, its height and its head, and what it has sent.\<close>

definition decided_part :: "('db, 'el) world \<Rightarrow> 'db \<times> Height \<times> ExecutionBlock option \<times> Output list" where
  "decided_part w = (db_handle (store (node w)), current_height (node w), head w, outputs w)"

lemma keeps_decided_part:
  "keeps (=) decided_part (on_el f)" "keeps (=) decided_part (count_block p b)"
  "keeps (=) decided_part (read_node (State_get_block_data L h r))"
proof -
  show "keeps (=) decided_part (on_el f)"
    by (rule keeps_same) (simp add: decided_part_def on_el_def split: prod.split)
  show "keeps (=) decided_part (count_block p b)"
    unfolding count_block_def by (auto intro!: keeps_bind keeps_modify simp: decided_part_def)
  have "Store_get_block_data L s h r = Inr (x, s') \<Longrightarrow> db_handle s' = db_handle s" for s x s'
    by (auto simp: Store_get_block_data_def dest: reads_keep_handle(3))
  then show "keeps (=) decided_part (read_node (State_get_block_data L h r))"
    by (intro keeps_same)
      (auto simp: decided_part_def read_node_def on_node_def State_get_block_data_def split: prod.split sum.split)
qed

lemma keeps_execute: "keeps (=) decided_part (execute L E en c)"
  unfolding execute_def
  by (auto intro!: keeps_bind keeps_decided_part split: PayloadStatusEnum.split)

lemma execute_Inr:
  assumes "execute L E en c w = (Inr x, w')"
  shows "\<exists>p hashes st e h. found_payload L E c (node w) = Some p \<and>
    notify_new_block (el_of E) en p hashes (el w) = (Inr st, e) \<and> (\<forall>x. status st \<noteq> PS_Invalid x) \<and>
    set_latest_forkchoice_state (el_of E) en (v1_block_hash (payload_v1 p)) e = (Inr h, el w')"
proof -
  have not_invalid: "(case s of PS_Invalid e \<Rightarrow> lift_io (fail (f e)) | _ \<Rightarrow> m) x = (Inr y, z) \<longleftrightarrow>
      (\<forall>e. s \<noteq> PS_Invalid e) \<and> m x = (Inr y, z)" for s f m x y z
    by (cases s) (simp_all add: lift_io_def)
  show ?thesis
    using assms
    unfolding execute_def count_block_def io_Inr not_invalid res_conv_Inr found_payload_def
    by (elim exE conjE) (simp, intro exI conjI, assumption, assumption, assumption)
qed

text \<open>C3: without the approval of the execution layer nothing is decided: when it finds the payload
  invalid, fails, or does not make it its head, the handler reports a fault, and the database, the
  height and the head of the node and what it has sent are as before.\<close>

theorem unexecuted_block_not_decided:
  assumes "decided L E en c w = (r, w')"
    and "\<forall>p hashes st e. found_payload L E c (node w) = Some p \<longrightarrow>
      notify_new_block (el_of E) en p hashes (el w) = (Inr st, e) \<longrightarrow> (\<exists>x. status st = PS_Invalid x) \<or>
      (\<forall>h e'. set_latest_forkchoice_state (el_of E) en (v1_block_hash (payload_v1 p)) e \<noteq> (Inr h, e'))"
  shows "(\<exists>f. r = Inl f) \<and> decided_part w' = decided_part w"
proof -
  obtain r1 w1 where run: "execute L E en c w = (r1, w1)" by fastforce
  show ?thesis
  proof (cases r1)
    case (Inl f)
    with run assms(1) have "r = Inl f" "w' = w1" by (simp_all add: decided_split bind_io_def)
    with keepsD [OF keeps_execute run] show ?thesis by simp
  next
    case (Inr x)
    from execute_Inr [OF run [unfolded Inr]] assms(2) show ?thesis by blast
  qed
qed

section \<open>Synchronisation\<close>

lemma decided_without_block:
  assumes "store_ready L \<alpha> \<beta> (store (node w))"
    and "ledger_find_block (cert_height c) (cert_round c) (held L \<alpha> (store (node w))) = None"
  shows "fst (decided L E en c w) = Inl (Panic ''certificate should have associated block data'')"
proof -
  obtain m where "Store_get_block_data L (store (node w)) (cert_height c) (cert_round c) =
      Inr (None, (store (node w))\<lparr>db_metrics := m\<rparr>)"
    using reads_block [OF assms(1), of "cert_height c" "cert_round c"] assms(2) by auto
  then show ?thesis
    by (simp add: decided_def bind_io_def read_node_def on_node_def State_get_block_data_def lift_io_def expect_def)
qed

text \<open>C26: a value received by synchronisation is not kept: where its bytes decode, the handler answers
  consensus with the value and leaves the node, its database included, as it was; so a node that has no
  block data for that height and round, when consensus has accepted the value and decides it, panics in
  the decision itself, at the lookup of the block data, and the loop ends there.\<close>

theorem synced_value_not_stored:
  assumes "store_ready L \<alpha> \<beta> (store (node w))"
    and "ledger_find_block h r (held L \<alpha> (store (node w))) = None"
    and "cert_height c = h" and "cert_round c = r"
    and "(decode_value L bytes :: (Report, Value) result) = Inr v"
  shows "\<exists>w'. handle L E en (ProcessSyncedValue h r a bytes) w = (Inr (), w') \<and>
    node w' = node w \<and> el w' = el w \<and>
    outputs w' = outputs w @ [SyncedValue \<lparr>prv_height = h, prv_round = r, prv_valid_round = RNil,
      prv_proposer = a, prv_value = v, prv_validity = Valid\<rparr>] \<and>
    fst (handle L E en (Decided c) w') = Inl (Panic ''certificate should have associated block data'') \<and>
    fst (run_app L E en (ProcessSyncedValue h r a bytes # Decided c # msgs) w) =
      Inl (Panic ''certificate should have associated block data'')"
proof -
  let ?w = "w\<lparr>outputs := outputs w @ [SyncedValue \<lparr>prv_height = h, prv_round = r, prv_valid_round = RNil,
      prv_proposer = a, prv_value = v, prv_validity = Valid\<rparr>]\<rparr>"
  have synced: "process_synced_value L h r a bytes w = (Inr (), ?w)"
    using assms(5) by (simp add: process_synced_value_def bind_io_def lift_io_def send_reply_def modify_io_def)
  have dec: "fst (decided L E en c ?w) = Inl (Panic ''certificate should have associated block data'')"
    using assms by (intro decided_without_block) simp_all
  have "fst (run_app L E en (ProcessSyncedValue h r a bytes # Decided c # msgs) w) =
      Inl (Panic ''certificate should have associated block data'')"
    using dec by (auto simp: synced bind_io_def split: prod.split sum.split)
  with synced dec show ?thesis by (intro exI [of _ ?w]) simp
qed

text \<open>C18: synchronisation carries decided values faithfully: asked for a height it has decided, a node
  answers with its certificate and bytes from which any other node reconstructs the very value that
  was decided.\<close>

theorem synced_value_faithful:
  fixes wA :: "('db, 'el) world" and wB :: "('db, 'el2) world" and E' :: "('j2, 'el2) app_lib"
  assumes "store_ready L \<alpha> \<beta> (store (node wA))" and "lg_decided (held L \<alpha> (store (node wA))) h = Some dv"
  shows "\<exists>bytes wA' wB'.
    handle L E en (GetDecidedValue h) wA = (Inr (), wA') \<and>
    outputs wA' = outputs wA @ [RawDecided (Some \<lparr>rdv_certificate = dv_certificate dv, rdv_value_bytes = bytes\<rparr>)] \<and>
    handle L E' en' (ProcessSyncedValue h r a bytes) wB = (Inr (), wB') \<and>
    outputs wB' = outputs wB @ [SyncedValue \<lparr>prv_height = h, prv_round = r, prv_valid_round = RNil,
      prv_proposer = a, prv_value = dv_value dv, prv_validity = Valid\<rparr>]"
proof -
  obtain m where get: "Store_get_decided_value L (store (node wA)) h = Inr (Some dv, (store (node wA))\<lparr>db_metrics := m\<rparr>)"
    using reads_decided [OF assms(1), of h] assms(2) by auto
  obtain b where "Value_encode L (dv_value dv) = Inr b" "Value_decode L b = Inr (dv_value dv)"
    using value_codec.to_from [OF store_lawsD(1) [OF store_readyD(1) [OF assms(1)]] TrueI] by blast
  then have b: "Value_encode L (dv_value dv) = Inr b"
    "(decode_value L b :: (Report, _) result) = Inr (dv_value dv)"
    by (simp_all add: decode_value_def)
  let ?A = "wA\<lparr>node := (node wA)\<lparr>store := (store (node wA))\<lparr>db_metrics := m\<rparr>\<rparr>,
    outputs := outputs wA @ [RawDecided (Some \<lparr>rdv_certificate = dv_certificate dv, rdv_value_bytes = b\<rparr>)]\<rparr>"
  let ?B = "wB\<lparr>outputs := outputs wB @ [SyncedValue \<lparr>prv_height = h, prv_round = r, prv_valid_round = RNil,
      prv_proposer = a, prv_value = dv_value dv, prv_validity = Valid\<rparr>]\<rparr>"
  have "handle L E en (GetDecidedValue h) wA = (Inr (), ?A)"
    using get b(1)
    by (simp add: get_decided_value_def bind_io_def read_node_def on_node_def State_get_decided_value_def
        lift_io_def send_reply_def modify_io_def map_transpose_def)
  moreover have "handle L E' en' (ProcessSyncedValue h r a b) wB = (Inr (), ?B)"
    using b(2) by (simp add: process_synced_value_def bind_io_def lift_io_def send_reply_def modify_io_def)
  ultimately show ?thesis by (intro exI [of _ b] exI [of _ ?A] exI [of _ ?B]) simp
qed

section \<open>Proposing\<close>

lemma publish_all_Inr: "publish_all ms w = (Inr u, w') \<Longrightarrow> w' = w\<lparr>outputs := outputs w @ map Published ms\<rparr>"
proof (induction ms arbitrary: w)
  case (Cons m ms)
  then obtain w1 where "publish m w = (Inr (), w1)" "publish_all ms w1 = (Inr u, w')"
    by (auto simp: bind_io_Inr)
  with Cons.IH [of w1] show ?case by (auto simp: publish_def split: if_splits)
qed simp

lemma stream_keeps_store: "stream_proposal M v data st = (r, st') \<Longrightarrow> store st' = store st"
proof -
  have "keeps (=) store (stream_proposal M v data)"
    unfolding stream_proposal_def stream_id_def Let_def by (auto intro!: keeps_bind keeps_modify)
  then show "stream_proposal M v data st = (r, st') \<Longrightarrow> store st' = store st"
    by (auto dest: keepsD)
qed

text \<open>C15: what a proposer proposes is the block its execution layer built on the node's head: the value
  it gives consensus is made of the block's bytes, the messages it publishes are the stream of that
  proposal, and, in a round for which the node had nothing, the block data it will decide decode to
  that very block.\<close>

theorem get_value_proposes_built_block:
  assumes "store_ready L \<alpha> \<beta> (store (node w))" and "round \<noteq> RNil"
    and "\<forall>p. ssz_decode E (ssz_encode E p) = Some p"
    and "lg_proposal (held L \<alpha> (store (node w))) (height, round) = None"
    and "lg_block (held L \<alpha> (store (node w))) (height, round) = None"
    and "get_value L E en height round w = (Inr u, w')"
  shows "\<exists>b p v msgs n. head w = Some b \<and> generate_block (el_of E) en b (el w) = (Inr p, el w') \<and>
    v = \<lparr>lpv_height = height, lpv_round = round, lpv_value = Value_new L (ssz_encode E p)\<rparr> \<and>
    stream_proposal L v (ssz_encode E p) n = (Inr msgs, node w') \<and>
    outputs w' = outputs w @ LocalValue v # map Published msgs \<and>
    map_option prv_value (lg_proposal (held L \<alpha> (store (node w'))) (height, round)) =
      Some (Value_new L (ssz_encode E p)) \<and>
    (\<forall>c. cert_height c = height \<longrightarrow> cert_round c = round \<longrightarrow> found_payload L E c (node w') = Some p)"
proof -
  let ?n = "node w"
  from assms(6) obtain b p e v n1 n2 msgs n3 where run: "head w = Some b"
      "generate_block (el_of E) en b (el w) = (Inr p, e)"
      "propose_value L height round (ssz_encode E p) ?n = (Inr v, n1)"
      "store_undecided_proposal_data L (ssz_encode E p) n1 = (Inr (), n2)"
      "stream_proposal L v (ssz_encode E p) n2 = (Inr msgs, n3)"
    and pub: "publish_all msgs (w\<lparr>el := e, outputs := outputs w @ [LocalValue v], node := n3\<rparr>) = (Inr u, w')"
    unfolding get_value_def Let_def send_reply_def io_Inr res_conv_Inr by auto
  from publish_all_Inr [OF pub] have w': "node w' = n3" "el w' = e"
    "outputs w' = outputs w @ LocalValue v # map Published msgs" by simp_all
  have cur: "height = current_height ?n" "round = current_round ?n"
  proof -
    have "\<not> (height \<noteq> current_height ?n \<or> round \<noteq> current_round ?n)"
    proof
      assume "height \<noteq> current_height ?n \<or> round \<noteq> current_round ?n"
      from propose_value_panics [OF this, of L "ssz_encode E p"] run(3) show False by simp
    qed
    then show "height = current_height ?n" "round = current_round ?n" by auto
  qed
  with propose_value_refines [OF assms(1), of "ssz_encode E p"] assms(2) run(3) obtain s1 where
    1: "v = \<lparr>lpv_height = height, lpv_round = round, lpv_value = Value_new L (ssz_encode E p)\<rparr>"
      "n1 = ?n\<lparr>store := s1\<rparr>" "store_ready L \<alpha> \<beta> s1"
      "held L \<alpha> s1 = ledger_propose \<lparr>prv_height = height, prv_round = round, prv_valid_round = RNil,
        prv_proposer = address ?n, prv_value = Value_new L (ssz_encode E p), prv_validity = Valid\<rparr>
        (held L \<alpha> (store ?n))"
    by auto
  from store_data_refines [of L \<alpha> \<beta> n1 "ssz_encode E p"] 1(2,3) run(4) cur obtain s2 where
    2: "n2 = n1\<lparr>store := s2\<rparr>" "store_ready L \<alpha> \<beta> s2"
      "held L \<alpha> s2 = ledger_put_block ((height, round), ssz_encode E p) (held L \<alpha> s1)"
    by auto
  have n3: "store n3 = s2" using stream_keeps_store [OF run(5)] 2(1) by simp
  have pv: "map_option prv_value (lg_proposal (held L \<alpha> s2) (height, round)) = Some (Value_new L (ssz_encode E p))"
    using assms(4) by (simp add: 2(3) 1(4) ledger_put_block_def ledger_propose_def put_first_def)
  have "ledger_find_block height round (held L \<alpha> s2) = Some (ssz_encode E p)"
    using assms(5) by (simp add: 2(3) 1(4) ledger_put_block_def ledger_propose_def put_first_def ledger_find_block_def)
  with reads_block [OF 2(2), of height round] n3 assms(3)
  have "found_payload L E c n3 = Some p" if "cert_height c = height" "cert_round c = round" for c
    using that by (auto simp: found_payload_def State_get_block_data_def)
  with run 1(1) w' n3 pv show ?thesis by (intro exI conjI) auto
qed

end
