(* ===== verification/Reference_Engine.thy ===== *)
theory Reference_Engine
  imports App_Sync Engine_Correct
begin

text \<open>
  An execution layer that plays a script of answers, and a lossless encoding of payloads: the
  concrete libraries at which the properties of the engine and of the application are applied.
\<close>

datatype answer = A_null | A_caps "string set" | A_fcu ForkchoiceUpdated | A_envelope ExecutionPayloadEnvelopeV3
  | A_status PayloadStatus | A_block "ExecutionBlock option" | A_string string

definition script_engine :: "(answer, answer list) engine_lib" where
  "script_engine = \<lparr>
     http_post = (\<lambda>url t token body el. case el of [] \<Rightarrow> (Inl ''refused'', [])
       | j # js \<Rightarrow> (Inr \<lparr>rs_jsonrpc = ''2.0'', rs_error = None, rs_result = j, rs_id = A_null\<rparr>, js)),
     current_timestamp = (\<lambda>_. 0), jwt_encode = (\<lambda>_ _. Inr ''token''),
     json_one = A_null, json_empty = A_null, json_capabilities = (\<lambda>_. A_null),
     json_forkchoice = (\<lambda>_ _. A_null), json_payload_id = (\<lambda>_. A_null),
     json_new_payload = (\<lambda>_ _ _. A_null), json_block_by_number = (\<lambda>_ _. A_null),
     from_capabilities = (\<lambda>j. case j of A_caps c \<Rightarrow> Inr c | _ \<Rightarrow> Inl ''type''),
     from_forkchoice_updated = (\<lambda>j. case j of A_fcu f \<Rightarrow> Inr f | _ \<Rightarrow> Inl ''type''),
     from_envelope = (\<lambda>j. case j of A_envelope p \<Rightarrow> Inr p | _ \<Rightarrow> Inl ''type''),
     from_payload_status = (\<lambda>j. case j of A_status s \<Rightarrow> Inr s | _ \<Rightarrow> Inl ''type''),
     from_block = (\<lambda>j. case j of A_block b \<Rightarrow> Inr b | _ \<Rightarrow> Inl ''type''),
     from_string = (\<lambda>j. case j of A_string s \<Rightarrow> Inr s | _ \<Rightarrow> Inl ''type''),
     show_hash = (\<lambda>h. show_nat (unat h)), show_status = (\<lambda>_. ''status''), show_i64 = (\<lambda>c. show_nat (unat c))\<rparr>"

definition s_v1 :: "ExecutionPayloadV1 ser" where
  "s_v1 = ser_iso
     (\<lambda>p. ((v1_parent_hash p, address_word (v1_fee_recipient p), v1_state_root p, v1_receipts_root p,
        v1_logs_bloom p, v1_prev_randao p, v1_block_number p),
        (v1_gas_limit p, v1_gas_used p, v1_timestamp p, v1_extra_data p, v1_base_fee_per_gas p,
        v1_block_hash p, v1_transactions p)))
     (\<lambda>((a, b, c, d, e, f, g), (h, i, j, k, l, m, n)).
        ExecutionPayloadV1.make a (Address b) c d e f g h i j k l m n)
     (ser_pair (ser_pair ser_word (ser_pair ser_word (ser_pair ser_word (ser_pair ser_word (ser_pair ser_bytes
        (ser_pair ser_word ser_word))))))
        (ser_pair ser_word (ser_pair ser_word (ser_pair ser_word (ser_pair ser_bytes (ser_pair ser_word
        (ser_pair ser_word (ser_list ser_bytes))))))))"

definition s_payload :: "ExecutionPayloadV3 ser" where
  "s_payload = ser_iso
     (\<lambda>p. (v2_payload_inner (v3_payload_inner p), v2_withdrawals (v3_payload_inner p),
        v3_blob_gas_used p, v3_excess_blob_gas p))
     (\<lambda>(a, b, c, d). ExecutionPayloadV3.make (ExecutionPayloadV2.make a b) c d)
     (ser_pair s_v1 (ser_pair (ser_list ser_bytes) (ser_pair ser_word ser_word)))"

lemma ser_ok_payload: "ser_ok s_payload"
  unfolding s_payload_def s_v1_def
  by (intro ser_intros)
    (simp_all add: ExecutionPayloadV1.defs ExecutionPayloadV2.defs ExecutionPayloadV3.defs)

definition script_app :: "(answer, answer list) app_lib" where
  "script_app = engine_lib.extend script_engine \<lparr>ssz_encode = fst s_payload,
     ssz_decode = (\<lambda>b. map_option fst (snd s_payload b)), block_blob_hashes = (\<lambda>_. Some [])\<rparr>"

lemma script_app_sel [simp]:
  "engine_lib.truncate script_app = script_engine"
  "ssz_decode script_app (ssz_encode script_app p) = Some p" "block_blob_hashes script_app p = Some []"
  using ser_okD [OF ser_ok_payload, of p "[]"]
  by (simp_all add: script_app_def engine_lib.defs)

definition script_el :: Engine where
  "script_el = \<lparr>eng_api = \<lparr>er_url = ''http://localhost:8551'', er_auth = \<lparr>auth_key = [1]\<rparr>\<rparr>,
     eng_eth = \<lparr>eth_url = ''http://localhost:8545''\<rparr>\<rparr>"

text \<open>One request takes one answer.\<close>

lemma script_request:
  "EngineRPC_rpc_request script_engine api m params t f (j # js) = (lift_lib LibError (f j), js)"
  "EngineRPC_rpc_request script_engine api m params t f [] = (fail (LibError ''refused''), [])"
  by (simp_all add: EngineRPC_rpc_request_def generate_token_def generate_token_with_claims_def post_json_def
      bind_io_def get_io_def lift_io_def script_engine_def)

lemma script_decoders:
  "from_capabilities script_engine (A_caps c) = Inr c" "from_forkchoice_updated script_engine (A_fcu f) = Inr f"
  "from_envelope script_engine (A_envelope p) = Inr p" "from_payload_status script_engine (A_status s) = Inr s"
  by (simp_all add: script_engine_def)

section \<open>The engine\<close>

theorem capabilities_required_witness:
  "check_capabilities script_engine script_el [A_caps {ENGINE_NEW_PAYLOAD_V3}] =
    (fail (Eyre ''Engine does not support required methods''), [])"
  using capabilities_required [of script_engine script_el "[A_caps {ENGINE_NEW_PAYLOAD_V3}]" "{ENGINE_NEW_PAYLOAD_V3}" "[]"]
  by (simp add: script_request script_decoders ENGINE_NEW_PAYLOAD_V3_def ENGINE_GET_PAYLOAD_V3_def)

theorem forkchoice_outcome_witness:
  "set_latest_forkchoice_state script_engine script_el 7
     [A_fcu \<lparr>payload_status = \<lparr>status = PS_Valid, latest_valid_hash = Some 7\<rparr>, payload_id = None\<rparr>] = (Inr 7, [])"
  using forkchoice_outcome [of script_engine script_el 7 "[A_fcu \<lparr>payload_status =
      \<lparr>status = PS_Valid, latest_valid_hash = Some 7\<rparr>, payload_id = None\<rparr>]"]
  by (simp add: forkchoice_updated_def script_request script_decoders)

section \<open>A node with a block to decide\<close>

definition sample_payload :: ExecutionPayloadV3 where
  "sample_payload = \<lparr>v3_payload_inner = \<lparr>v2_payload_inner = \<lparr>v1_parent_hash = 1, v1_fee_recipient = Address 42,
     v1_state_root = 0, v1_receipts_root = 0, v1_logs_bloom = [], v1_prev_randao = 9, v1_block_number = 1,
     v1_gas_limit = 30, v1_gas_used = 0, v1_timestamp = 11, v1_extra_data = [], v1_base_fee_per_gas = 7,
     v1_block_hash = 2, v1_transactions = []\<rparr>, v2_withdrawals = []\<rparr>, v3_blob_gas_used = 0,
     v3_excess_blob_gas = 0\<rparr>"

definition head_block :: ExecutionBlock where
  "head_block = \<lparr>eb_block_hash = 1, eb_block_number = 0, eb_parent_hash = 0, eb_timestamp = 10, eb_prev_randao = 9\<rparr>"

definition sample_world :: "mem Db \<Rightarrow> answer list \<Rightarrow> (mem, answer list) world" where
  "sample_world s answers = \<lparr>node = sample_node\<lparr>store := s, latest_block := Some head_block\<rparr>, el = answers,
     network_open = True, outputs = []\<rparr>"

lemma stored_block:
  "\<exists>s p. store_ready mem_lib map_of map_of s \<and> lg_proposal (held mem_lib map_of s) (Height 1, RSome 0) = Some p \<and>
    ledger_find_block (Height 1) (RSome 0) (held mem_lib map_of s) = Some (ssz_encode script_app sample_payload)"
proof -
  let ?b = "ssz_encode script_app sample_payload"
  let ?p = "\<lparr>prv_height = Height 1, prv_round = RSome 0, prv_valid_round = RNil, prv_proposer = Address 7,
    prv_value = Value_new mem_lib ?b, prv_validity = Valid\<rparr>"
  from refines_propose [OF sample_node_ready, of ?p] obtain s1 where 1: "store_ready mem_lib map_of map_of s1"
    "held mem_lib map_of s1 = ledger_propose ?p (held mem_lib map_of (store sample_node))"
    by auto
  from refines_put_block [OF 1(1), of "Height 1" "RSome 0" ?b] obtain s2 where "store_ready mem_lib map_of map_of s2"
    "held mem_lib map_of s2 = ledger_put_block ((Height 1, RSome 0), ?b) (held mem_lib map_of s1)"
    by blast
  with 1(2) sample_ledger_empty(1) [of "(Height 1, RSome 0)"] sample_ledger_empty(2) [of "Height 1" "RSome 0"]
  show ?thesis
    by (intro exI [of _ s2] exI [of _ ?p])
      (auto simp: ledger_put_block_def ledger_propose_def put_first_def ledger_find_block_def split: option.splits)
qed

definition executed_script :: "answer list" where
  "executed_script = [A_status \<lparr>status = PS_Valid, latest_valid_hash = Some 2\<rparr>,
     A_fcu \<lparr>payload_status = \<lparr>status = PS_Valid, latest_valid_hash = Some 2\<rparr>, payload_id = None\<rparr>]"

lemma sample_notify:
  "notify_new_block script_engine script_el p h executed_script =
    (Inr \<lparr>status = PS_Valid, latest_valid_hash = Some 2\<rparr>, tl executed_script)"
  "set_latest_forkchoice_state script_engine script_el x (tl executed_script) = (Inr 2, [])"
  by (simp_all add: notify_new_block_def new_payload_def executed_script_def script_request script_decoders
      set_latest_forkchoice_state_def forkchoice_updated_def bind_io_def lift_io_def)

lemma sample_found:
  assumes "store_ready mem_lib map_of map_of s"
    and "ledger_find_block (Height 1) (RSome 0) (held mem_lib map_of s) = Some (ssz_encode script_app sample_payload)"
  shows "\<exists>m. State_get_block_data mem_lib (Height 1) (RSome 0) (node (sample_world s answers)) =
      (Some (ssz_encode script_app sample_payload), (node (sample_world s answers))\<lparr>store := s\<lparr>db_metrics := m\<rparr>\<rparr>)"
    and "found_payload mem_lib script_app first_certificate (node (sample_world s answers)) = Some sample_payload"
  using reads_block [OF assms(1), of "Height 1" "RSome 0"] assms(2)
  by (auto simp: State_get_block_data_def sample_world_def found_payload_def first_certificate_def)

lemma cert_sel: "cert_height first_certificate = Height 1" "cert_round first_certificate = RSome 0"
  by (simp_all add: first_certificate_def)

lemma sample_decided:
  "\<exists>s w'. store_ready mem_lib map_of map_of s \<and>
    decided mem_lib script_app script_el first_certificate (sample_world s executed_script) = (Inr (), w') \<and>
    found_payload mem_lib script_app first_certificate (node (sample_world s executed_script)) = Some sample_payload"
proof -
  let ?b = "ssz_encode script_app sample_payload" and ?c = first_certificate
  obtain s p where s: "store_ready mem_lib map_of map_of s"
    "lg_proposal (held mem_lib map_of s) (Height 1, RSome 0) = Some p"
    "ledger_find_block (Height 1) (RSome 0) (held mem_lib map_of s) = Some ?b"
    using stored_block by blast
  let ?w = "sample_world s executed_script"
  from sample_found(1) [OF s(1,3)] obtain m where
    get: "State_get_block_data mem_lib (Height 1) (RSome 0) (node ?w) = (Some ?b, (node ?w)\<lparr>store := s\<lparr>db_metrics := m\<rparr>\<rparr>)"
    by blast
  let ?n = "(node ?w)\<lparr>store := s\<lparr>db_metrics := m\<rparr>, txs_count := 0, chain_bytes := of_nat (length ?b)\<rparr>"
  have add: "add_chk (0 :: u64) x = Inr x" for x :: u64
    using unat_u64_less [of x] by (simp add: add_chk_def)
  have head: "latest_block (node ?w) = Some head_block" "txs_count (node ?w) = 0" "chain_bytes (node ?w) = 0"
    "el ?w = executed_script" "eb_block_hash head_block = v1_parent_hash (payload_v1 sample_payload)"
    "v1_transactions (payload_v1 sample_payload) = []"
    by (simp_all add: sample_world_def head_block_def sample_payload_def payload_v1_def sample_node_def State_new_def)
  have ex: "execute mem_lib script_app script_el ?c ?w = (Inr (sample_payload, 2), ?w\<lparr>node := ?n, el := []\<rparr>)"
    using get sample_notify by (simp add: execute_def bind_io_def read_node_def on_node_def on_el_def
        count_block_def add head cert_sel lift_io_def get_io_def modify_io_def return_io_def)
  have "store_ready mem_lib map_of map_of (store ?n)" using s(1) by (simp add: store_ready_read)
  from commit_refines [OF this, of ?c p] s(2) obtain n' where "commit mem_lib ?c ?n = (Inr (), n')"
    by (auto simp: cert_sel sample_world_def)
  with ex have "\<exists>w'. decided mem_lib script_app script_el ?c ?w = (Inr (), w')"
    by (auto simp: decided_split bind_io_def on_node_def modify_io_def start_height_def send_reply_def get_io_def)
  with s(1) sample_found(2) [OF s(1,3)] show ?thesis by blast
qed

section \<open>The application\<close>

theorem decided_was_executed_witness:
  "\<exists>s w'. decided mem_lib script_app script_el first_certificate (sample_world s executed_script) = (Inr (), w') \<and>
    map_option eb_block_hash (head w') = Some 2"
proof -
  obtain s w' where d: "decided mem_lib script_app script_el first_certificate (sample_world s executed_script) = (Inr (), w')"
    and f: "found_payload mem_lib script_app first_certificate (node (sample_world s executed_script)) = Some sample_payload"
    using sample_decided by blast
  from decided_was_executed [OF d] f d show ?thesis by (force simp: sample_payload_def payload_v1_def)
qed

theorem decided_blocks_chain_witness:
  "\<exists>s. decided_payloads mem_lib script_app script_el [Decided first_certificate, ExtendVote]
      (sample_world s executed_script) = [sample_payload] \<and>
    hash_chain 1 (decided_payloads mem_lib script_app script_el [Decided first_certificate, ExtendVote]
      (sample_world s executed_script))"
proof -
  obtain s w' where d: "decided mem_lib script_app script_el first_certificate (sample_world s executed_script) = (Inr (), w')"
    and f: "found_payload mem_lib script_app first_certificate (node (sample_world s executed_script)) = Some sample_payload"
    using sample_decided by blast
  let ?w = "sample_world s executed_script" and ?msgs = "[Decided first_certificate, ExtendVote]"
  have "head ?w = Some head_block" by (simp add: sample_world_def)
  from decided_blocks_chain [OF _ this, of ?msgs mem_lib script_app script_el]
  have "hash_chain 1 (decided_payloads mem_lib script_app script_el ?msgs ?w)"
    by (simp add: head_block_def)
  moreover have "decided_payloads mem_lib script_app script_el ?msgs ?w = [sample_payload]"
    using d f by (simp add: send_reply_def modify_io_def)
  ultimately show ?thesis by blast
qed

definition invalid_script :: "answer list" where
  "invalid_script = [A_status \<lparr>status = PS_Invalid ''invalid'', latest_valid_hash = None\<rparr>]"

theorem unexecuted_block_not_decided_witness:
  "\<exists>s. found_payload mem_lib script_app first_certificate (node (sample_world s invalid_script)) = Some sample_payload \<and>
    decided_part (snd (decided mem_lib script_app script_el first_certificate (sample_world s invalid_script))) =
      decided_part (sample_world s invalid_script)"
proof -
  obtain s where s: "store_ready mem_lib map_of map_of s"
    "ledger_find_block (Height 1) (RSome 0) (held mem_lib map_of s) = Some (ssz_encode script_app sample_payload)"
    using stored_block by blast
  obtain r w' where run: "decided mem_lib script_app script_el first_certificate (sample_world s invalid_script) = (r, w')"
    by fastforce
  have "notify_new_block script_engine script_el p h (el (sample_world s invalid_script)) =
      (Inr \<lparr>status = PS_Invalid ''invalid'', latest_valid_hash = None\<rparr>, [])" for p h
    by (simp add: sample_world_def invalid_script_def notify_new_block_def new_payload_def script_request script_decoders)
  then have "(\<exists>f. r = Inl f) \<and> decided_part w' = decided_part (sample_world s invalid_script)"
    by (intro unexecuted_block_not_decided [OF run]) auto
  with run sample_found(2) [OF s] show ?thesis by (intro exI [of _ s]) simp
qed

theorem app_store_sound_witness:
  "\<exists>r w'. run_app mem_lib script_app script_el [GetHistoryMinHeight, PeerJoined (PeerId [1])]
      (sample_world empty_store []) = (r, w') \<and> store_sound mem_lib (map_of (db_handle (store (node w'))))"
proof -
  obtain r w' where run: "run_app mem_lib script_app script_el [GetHistoryMinHeight, PeerJoined (PeerId [1])]
      (sample_world empty_store []) = (r, w')" by fastforce
  from app_store_sound [OF mem_store_laws run] show ?thesis
    using run by (simp add: sample_world_def store_sound_empty)
qed

theorem synced_value_not_stored_witness:
  "\<exists>bytes w'. handle mem_lib script_app script_el (ProcessSyncedValue (Height 1) (RSome 0) (Address 7) bytes)
      (sample_world empty_store []) = (Inr (), w') \<and>
    outputs w' = [SyncedValue \<lparr>prv_height = Height 1, prv_round = RSome 0, prv_valid_round = RNil,
      prv_proposer = Address 7, prv_value = Value_new mem_lib [1], prv_validity = Valid\<rparr>] \<and>
    fst (handle mem_lib script_app script_el (Decided first_certificate) w') =
      Inl (Panic ''certificate should have associated block data'')"
proof -
  let ?w = "sample_world empty_store []"
  have "store_ready mem_lib map_of map_of (store (node ?w))"
    "ledger_find_block (Height 1) (RSome 0) (held mem_lib map_of (store (node ?w))) = None"
    using sample_node_ready sample_ledger_empty(2) by (simp_all add: sample_world_def)
  moreover obtain b where "Value_decode mem_lib b = Inr (Value_new mem_lib [1])"
    using value_codec.to_from [OF store_lawsD(1) [OF mem_store_laws] TrueI] by blast
  then have "(decode_value mem_lib b :: (Report, _) result) = Inr (Value_new mem_lib [1])"
    by (simp add: decode_value_def)
  ultimately obtain w' where
    "handle mem_lib script_app script_el (ProcessSyncedValue (Height 1) (RSome 0) (Address 7) b) ?w = (Inr (), w')"
    "outputs w' = outputs ?w @ [SyncedValue \<lparr>prv_height = Height 1, prv_round = RSome 0, prv_valid_round = RNil,
      prv_proposer = Address 7, prv_value = Value_new mem_lib [1], prv_validity = Valid\<rparr>]"
    "fst (handle mem_lib script_app script_el (Decided first_certificate) w') =
      Inl (Panic ''certificate should have associated block data'')"
    using synced_value_not_stored [of mem_lib map_of map_of ?w "Height 1" "RSome 0" first_certificate b
        "Value_new mem_lib [1]" script_app script_el "Address 7"] by (auto simp: cert_sel)
  then show ?thesis by (intro exI [of _ b] exI [of _ w']) (simp add: sample_world_def)
qed

theorem synced_value_faithful_witness:
  "\<exists>s bytes wA' wB'. handle mem_lib script_app script_el (GetDecidedValue (Height 3)) (sample_world s []) = (Inr (), wA') \<and>
    outputs wA' = [RawDecided (Some \<lparr>rdv_certificate = sample_certificate, rdv_value_bytes = bytes\<rparr>)] \<and>
    handle mem_lib script_app script_el (ProcessSyncedValue (Height 3) (RSome 1) (Address 7) bytes)
      (sample_world empty_store []) = (Inr (), wB') \<and>
    outputs wB' = [SyncedValue \<lparr>prv_height = Height 3, prv_round = RSome 1, prv_valid_round = RNil,
      prv_proposer = Address 7, prv_value = Value_new mem_lib [1], prv_validity = Valid\<rparr>]"
proof -
  let ?dv = "\<lparr>dv_value = Value_new mem_lib [1], dv_certificate = sample_certificate\<rparr>"
  have "cert_round sample_certificate \<noteq> RNil" "cert_height sample_certificate = Height 3"
    by (simp_all add: sample_certificate_def)
  with refines_decide [OF mem_store_ready, of sample_certificate "Value_new mem_lib [1]"] obtain s where
    "store_ready mem_lib map_of map_of s" "lg_decided (held mem_lib map_of s) (Height 3) = Some ?dv"
    by (auto simp: ledger_decide_def)
  then have "store_ready mem_lib map_of map_of (store (node (sample_world s [])))"
    "lg_decided (held mem_lib map_of (store (node (sample_world s [])))) (Height 3) = Some ?dv"
    by (simp_all add: sample_world_def)
  from synced_value_faithful [OF this, of script_app script_el script_app script_el "RSome 1" "Address 7"
      "sample_world empty_store []"]
  show ?thesis by (auto simp: sample_world_def)
qed

text \<open>A proposer whose execution layer builds a block.\<close>

definition building_script :: "answer list" where
  "building_script = [A_fcu \<lparr>payload_status = \<lparr>status = PS_Valid, latest_valid_hash = Some 1\<rparr>, payload_id = Some 7\<rparr>,
     A_envelope \<lparr>execution_payload = sample_payload\<rparr>]"

lemma publish_all_open: "network_open w \<Longrightarrow> \<exists>w'. publish_all ms w = (Inr (), w')"
  by (induction ms arbitrary: w) (simp_all add: return_io_def bind_io_def publish_def)

lemma stream_proposal_ok:
  assumes "round_laws (rounds M)" and "current_round st = RSome r" and "unat (stream_nonce st) + 1 < 2 ^ 32"
    and "length data < 2 ^ 63"
  shows "\<exists>ms st'. stream_proposal M v data st = (Inr ms, st')"
proof -
  have "length (make_proposal_parts M st v data) \<le> length data + 2"
    using length_data_part_list [of data] by (simp add: make_proposal_parts_eq)
  then have "unat (0 :: u64) + length (make_proposal_parts M st v data) < 2 ^ 64 - 1" using assms(4) by simp
  from number_parts_ok [OF this] have "\<exists>ms. number_parts sid 0 (make_proposal_parts M st v data) = Inr ms" for sid
    by blast
  then obtain f where "number_parts sid 0 (make_proposal_parts M st v data) = Inr (f sid)" for sid by metis
  with assms(2,3) show ?thesis
    by (simp add: stream_proposal_def bind_io_def get_io_def lift_io_def stream_id_run [OF assms(1)])
qed

lemma sample_build:
  "generate_block script_engine script_el head_block building_script = (Inr sample_payload, [])"
  by (simp add: generate_block_def Let_def bind_io_def lift_io_def add_chk_def head_block_def building_script_def
      forkchoice_updated_def script_request script_decoders get_payload_def return_io_def)

lemma sample_payload_size: "length (ssz_encode script_app sample_payload) < 2 ^ 63"
  by (simp add: script_app_def engine_lib.defs s_payload_def s_v1_def ser_iso_def ser_pair_def ser_word_def
      ser_list_def ser_bytes_def sample_payload_def)

lemma sample_get_value:
  "\<exists>w'. get_value mem_lib script_app script_el (Height 1) (RSome 0) (sample_world empty_store building_script) = (Inr (), w')"
proof -
  let ?w = "sample_world empty_store building_script" and ?b = "ssz_encode script_app sample_payload"
  have n: "current_height (node ?w) = Height 1" "current_round (node ?w) = RSome 0" "head ?w = Some head_block"
    "el ?w = building_script" "store_ready mem_lib map_of map_of (store (node ?w))" "stream_nonce (node ?w) = 0"
    "network_open ?w"
    by (simp_all add: sample_world_def mem_store_ready)
  from propose_value_refines [OF n(5), of ?b] n(1,2) obtain s1 where
    1: "propose_value mem_lib (Height 1) (RSome 0) ?b (node ?w) = (Inr \<lparr>lpv_height = Height 1, lpv_round = RSome 0,
      lpv_value = Value_new mem_lib ?b\<rparr>, (node ?w)\<lparr>store := s1\<rparr>)" "store_ready mem_lib map_of map_of s1"
    by auto
  from store_data_refines [of mem_lib map_of map_of "(node ?w)\<lparr>store := s1\<rparr>" ?b] 1(2) obtain s2 where
    2: "store_undecided_proposal_data mem_lib ?b ((node ?w)\<lparr>store := s1\<rparr>) = (Inr (), (node ?w)\<lparr>store := s2\<rparr>)"
    by auto
  have "round_laws (rounds mem_lib)" by (simp add: std_round_laws)
  from stream_proposal_ok [OF this, of "(node ?w)\<lparr>store := s2\<rparr>" 0 ?b] n sample_payload_size obtain ms n3 where
    3: "stream_proposal mem_lib \<lparr>lpv_height = Height 1, lpv_round = RSome 0, lpv_value = Value_new mem_lib ?b\<rparr> ?b
      ((node ?w)\<lparr>store := s2\<rparr>) = (Inr ms, n3)"
    by fastforce
  show ?thesis
    by (simp add: get_value_def Let_def bind_io_def get_io_def lift_io_def n on_el_def sample_build on_node_def 1 2 3
        send_reply_def modify_io_def) (rule publish_all_open, simp add: n)
qed

theorem get_value_proposes_built_block_witness:
  "\<exists>w' v msgs. get_value mem_lib script_app script_el (Height 1) (RSome 0) (sample_world empty_store building_script) = (Inr (), w') \<and>
    lpv_value v = Value_new mem_lib (ssz_encode script_app sample_payload) \<and>
    outputs w' = LocalValue v # map Published msgs"
proof -
  let ?w = "sample_world empty_store building_script"
  obtain w' where run: "get_value mem_lib script_app script_el (Height 1) (RSome 0) ?w = (Inr (), w')"
    using sample_get_value by blast
  have "store_ready mem_lib map_of map_of (store (node ?w))"
    "lg_proposal (held mem_lib map_of (store (node ?w))) (Height 1, RSome 0) = None"
    "lg_block (held mem_lib map_of (store (node ?w))) (Height 1, RSome 0) = None"
    by (simp_all add: sample_world_def mem_store_ready ledger_of_sel by_round_def)
  from get_value_proposes_built_block [OF this(1) _ _ this(2,3) run] obtain b p e v msgs where
    "head ?w = Some b" "generate_block script_engine script_el b (el ?w) = (Inr p, e)"
    "lpv_value v = Value_new mem_lib (ssz_encode script_app p)" "outputs w' = outputs ?w @ LocalValue v # map Published msgs"
    by auto
  moreover from this(1,2) have "p = sample_payload" using sample_build by (simp add: sample_world_def)
  ultimately show ?thesis using run by (auto simp: sample_world_def)
qed

end
