(* ===== verification/Utf8.thy ===== *)
theory Utf8
  imports Prelude
begin

text \<open>
  What the proxy uses of Rust's strings: \<open>String::from_utf8\<close> and \<open>String::from_utf8_lossy\<close> on bytes,
  and \<open>to_lowercase\<close> on the names of HTTP headers, which are ASCII. A \<open>String\<close> that comes from bytes
  is kept as its UTF-8 bytes; a \<open>string\<close> of HOL holds one byte in each character.
\<close>

definition bytes_of_string :: "string \<Rightarrow> bytes" where
  "bytes_of_string s = map of_char s"

text \<open>
  The first byte gives the number of continuation bytes and the range of the first of them, after
  which they are \<open>80\<close> to \<open>BF\<close>; a byte that starts no sequence gives none.
\<close>

definition utf8_head :: "u8 \<Rightarrow> (nat \<times> u8 \<times> u8) option" where
  "utf8_head b =
     (if b < 0x80 then Some (0, 0x80, 0xBF)
      else if 0xC2 \<le> b \<and> b \<le> 0xDF then Some (1, 0x80, 0xBF)
      else if b = 0xE0 then Some (2, 0xA0, 0xBF)
      else if b = 0xED then Some (2, 0x80, 0x9F)
      else if 0xE1 \<le> b \<and> b \<le> 0xEF then Some (2, 0x80, 0xBF)
      else if b = 0xF0 then Some (3, 0x90, 0xBF)
      else if 0xF1 \<le> b \<and> b \<le> 0xF3 then Some (3, 0x80, 0xBF)
      else if b = 0xF4 then Some (3, 0x80, 0x8F)
      else None)"

fun utf8_continuation :: "nat \<Rightarrow> u8 \<Rightarrow> u8 \<Rightarrow> bytes \<Rightarrow> nat" where
  "utf8_continuation (Suc n) lo hi (c # cs) =
     (if lo \<le> c \<and> c \<le> hi then Suc (utf8_continuation n 0x80 0xBF cs) else 0)"
| "utf8_continuation _ _ _ _ = 0"

text \<open>Whether a character starts here, and how many bytes of one follow the first.\<close>

definition utf8_char :: "u8 \<Rightarrow> bytes \<Rightarrow> bool \<times> nat" where
  "utf8_char b bs = (case utf8_head b of None \<Rightarrow> (False, 0)
     | Some (n, lo, hi) \<Rightarrow> let k = utf8_continuation n lo hi bs in (k = n, k))"

text \<open>\<open>from_utf8\<close> succeeds exactly on valid bytes; \<open>from_utf8_lossy\<close> puts U+FFFD for each maximal
  start of a character that is not completed.\<close>

function utf8_valid :: "bytes \<Rightarrow> bool" where
  "utf8_valid [] = True"
| "utf8_valid (b # bs) = (case utf8_char b bs of (good, k) \<Rightarrow> good \<and> utf8_valid (drop k bs))"
  by pat_completeness auto
termination by (relation "measure length") auto

function utf8_lossy :: "bytes \<Rightarrow> bytes" where
  "utf8_lossy [] = []"
| "utf8_lossy (b # bs) = (case utf8_char b bs of (good, k) \<Rightarrow>
     (if good then b # take k bs else [0xEF, 0xBF, 0xBD]) @ utf8_lossy (drop k bs))"
  by pat_completeness auto
termination by (relation "measure length") auto

lemma utf8_lossy_valid [simp]: "utf8_valid bs \<Longrightarrow> utf8_lossy bs = bs"
  by (induction bs rule: utf8_lossy.induct) (auto split: prod.splits)

definition from_utf8 :: "bytes \<Rightarrow> bytes option" where
  "from_utf8 b = (if utf8_valid b then Some b else None)"

lemma utf8_head_ascii: "b < 0x80 \<Longrightarrow> utf8_char b bs = (True, 0)"
  by (simp add: utf8_char_def utf8_head_def)

lemma utf8_valid_ascii: "(\<forall>b\<in>set bs. b < 0x80) \<Longrightarrow> utf8_valid bs"
  by (induction bs) (simp_all add: utf8_head_ascii)

definition ascii_lower :: "char \<Rightarrow> char" where
  "ascii_lower c = (let n = of_char c :: nat in if 65 \<le> n \<and> n \<le> 90 then char_of (n + 32) else c)"

definition to_lowercase :: "string \<Rightarrow> string" where
  "to_lowercase s = map ascii_lower s"

end
