(* ===== verification/Http.thy ===== *)
theory Http
  imports Utf8 "HOL-Library.List_Lexorder" "HOL-Library.Char_ord"
begin

text \<open>
  The libraries of the proxy: \<open>serde_json\<close> values, HTTP requests and responses of axum, the HTTP
  client, random numbers. The records \<open>json_lib\<close>, \<open>random_lib\<close> and \<open>http_lib\<close> hold the functions of
  these libraries that the code calls.
\<close>

section \<open>JSON\<close>

datatype JsonValue = JNull | JBool bool | JInt int | JFloat u64 | JString string
  | JArray "JsonValue list" | JObject "(string \<times> JsonValue) list"

text \<open>The members of an object are kept in the order of their keys, one for each key.\<close>

fun obj_insert :: "string \<Rightarrow> JsonValue \<Rightarrow> (string \<times> JsonValue) list \<Rightarrow> (string \<times> JsonValue) list" where
  "obj_insert k v [] = [(k, v)]"
| "obj_insert k v ((l, u) # kvs) =
     (if k = l then (k, v) # kvs else if k < l then (k, v) # (l, u) # kvs else (l, u) # obj_insert k v kvs)"

lemma map_of_obj_insert [simp]: "map_of (obj_insert k v kvs) = (map_of kvs)(k \<mapsto> v)"
  by (induction kvs) auto

text \<open>\<open>Value::get\<close> with a key, \<open>as_str\<close> and \<open>as_bool\<close>.\<close>

definition json_get :: "string \<Rightarrow> JsonValue \<Rightarrow> JsonValue option" where
  "json_get k v = (case v of JObject kvs \<Rightarrow> map_of kvs k | _ \<Rightarrow> None)"

definition as_str :: "JsonValue \<Rightarrow> string option" where
  "as_str v = (case v of JString s \<Rightarrow> Some s | _ \<Rightarrow> None)"

definition as_bool :: "JsonValue \<Rightarrow> bool option" where
  "as_bool v = (case v of JBool b \<Rightarrow> Some b | _ \<Rightarrow> None)"

text \<open>The macro \<open>json!\<close> on an object.\<close>

definition json_object :: "(string \<times> JsonValue) list \<Rightarrow> JsonValue" where
  "json_object kvs = JObject (foldl (\<lambda>obj (k, v). obj_insert k v obj) [] kvs)"

lemma json_get_object [simp]: "json_get k (JObject kvs) = map_of kvs k"
  by (simp add: json_get_def)

text \<open>\<open>from_slice\<close> and \<open>to_string\<close>.\<close>

record json_lib =
  json_parse :: "bytes \<Rightarrow> JsonValue option"
  json_text :: "JsonValue \<Rightarrow> bytes"

text \<open>The values that \<open>serde_json\<close> reads back from the text it writes: integers of \<open>i64\<close> or \<open>u64\<close>, strings that
  are UTF-8, objects with ascending keys, arrays and objects nested at most \<open>d\<close> deep; its parser
  refuses a nesting of 128. A float is left out: it may come back with another last digit.\<close>

fun json_fits :: "nat \<Rightarrow> JsonValue \<Rightarrow> bool" where
  "json_fits d JNull \<longleftrightarrow> True"
| "json_fits d (JBool b) \<longleftrightarrow> True"
| "json_fits d (JInt i) \<longleftrightarrow> - (2 ^ 63) \<le> i \<and> i < 2 ^ 64"
| "json_fits d (JFloat x) \<longleftrightarrow> False"
| "json_fits d (JString s) \<longleftrightarrow> utf8_valid (bytes_of_string s)"
| "json_fits (Suc d) (JArray vs) \<longleftrightarrow> (\<forall>v \<in> set vs. json_fits d v)"
| "json_fits (Suc d) (JObject kvs) \<longleftrightarrow> sorted_wrt (<) (map fst kvs) \<and>
     (\<forall>(k, v) \<in> set kvs. utf8_valid (bytes_of_string k) \<and> json_fits d v)"
| "json_fits 0 _ \<longleftrightarrow> False"

lemma set_obj_insert: "set (obj_insert k v kvs) \<subseteq> insert (k, v) (set kvs)"
  by (induction kvs) (auto split: if_splits)

lemma fst_obj_insert: "set (map fst (obj_insert k v kvs)) = insert k (set (map fst kvs))"
  by (induction kvs) (force split: if_splits)+

lemma sorted_obj_insert:
  "sorted_wrt (<) (map fst kvs) \<Longrightarrow> sorted_wrt (<) (map fst (obj_insert k v kvs))"
proof (induction kvs)
  case (Cons lu kvs)
  then show ?case using fst_obj_insert [of k v kvs]
    by (cases lu) (auto simp: not_less_iff_gr_or_eq dest: less_trans)
qed simp

lemma json_fits_insert:
  assumes "json_fits (Suc d) (JObject kvs)" and "utf8_valid (bytes_of_string k)" and "json_fits d v"
  shows "json_fits (Suc d) (JObject (obj_insert k v kvs))"
  using assms sorted_obj_insert [of kvs k v] set_obj_insert [of k v kvs] by auto

definition json_laws :: "('x) json_lib_scheme \<Rightarrow> bool" where
  "json_laws J \<longleftrightarrow> (\<forall>v. json_fits 127 v \<longrightarrow> json_parse J (json_text J v) = Some v)"

lemma json_lawsD: "json_laws J \<Longrightarrow> json_fits 127 v \<Longrightarrow> json_parse J (json_text J v) = Some v"
  by (simp add: json_laws_def)

text \<open>An object that is one level deep, which is what the program writes itself.\<close>

lemma json_fits_object:
  assumes "\<forall>(k, v) \<in> set kvs. utf8_valid (bytes_of_string k) \<and> json_fits d v"
  shows "json_fits (Suc d) (json_object kvs)"
proof -
  have "json_fits (Suc d) (JObject (foldl (\<lambda>obj (k, v). obj_insert k v obj) acc kvs))"
    if "\<forall>(k, v) \<in> set kvs. utf8_valid (bytes_of_string k) \<and> json_fits d v" and "json_fits (Suc d) (JObject acc)"
    for acc kvs
    using that
  proof (induction kvs arbitrary: acc)
    case (Cons kv kvs)
    obtain k v where kv: "kv = (k, v)" by fastforce
    with Cons.prems have "json_fits (Suc d) (JObject (obj_insert k v acc))" by (intro json_fits_insert) auto
    with Cons kv show ?case by auto
  qed simp
  from this [of kvs "[]"] assms show ?thesis unfolding json_object_def by simp
qed

section \<open>HTTP\<close>

text \<open>A body is read whole: its bytes, or none where reading it fails.\<close>

type_synonym Body = "bytes option"

record Request =
  verb :: string
  path :: string
  req_headers :: "(string \<times> bytes) list"
  req_body :: Body

record Response =
  status_code :: nat
  resp_headers :: "(string \<times> string) list"
  resp_body :: Body

text \<open>\<open>StatusCode::from_u16\<close> takes the numbers with three digits.\<close>

definition status_from_u16 :: "nat \<Rightarrow> nat option" where
  "status_from_u16 n = (if 100 \<le> n \<and> n < 1000 then Some n else None)"

definition json_response :: "nat \<Rightarrow> bytes \<Rightarrow> Response" where
  "json_response code body =
     \<lparr>status_code = code, resp_headers = [(''content-type'', ''application/json'')], resp_body = Some body\<rparr>"

text \<open>\<open>body.await.unwrap_or_default()\<close>.\<close>

definition read_or_default :: "Body \<Rightarrow> bytes" where
  "read_or_default b = (case b of None \<Rightarrow> [] | Some bs \<Rightarrow> bs)"

section \<open>Time and randomness\<close>

text \<open>The delays slept so far, in milliseconds, and the state of the random generator.\<close>

record 'r effects =
  slept :: "u64 list"
  rng :: 'r

definition sleep_ms :: "u64 \<Rightarrow> (('r, 'x) effects_scheme, 'e, unit) io" where
  "sleep_ms ms = modify_io (\<lambda>w. w\<lparr>slept := slept w @ [ms]\<rparr>)"

text \<open>Random bytes, indices, numbers of a range of \<open>i64\<close> and numbers of the unit interval.\<close>

record 'r random_lib =
  rand_u8 :: "'r \<Rightarrow> u8 \<times> 'r"
  rand_usize :: "'r \<Rightarrow> usize \<times> 'r"
  rand_range :: "i64 \<Rightarrow> i64 \<Rightarrow> 'r \<Rightarrow> i64 \<times> 'r"
  rand_f64 :: "'r \<Rightarrow> u64 \<times> 'r"

definition draw :: "('r \<Rightarrow> 'a \<times> 'r) \<Rightarrow> (('r, 'x) effects_scheme, 'e, 'a) io" where
  "draw f = (\<lambda>w. case f (rng w) of (x, r) \<Rightarrow> (Inr x, w\<lparr>rng := r\<rparr>))"

text \<open>An \<open>f64\<close> is its bit pattern; the comparison is that of IEEE 754, where no comparison with a
  NaN holds and the two zeros are equal.\<close>

type_synonym f64 = u64

definition f64_magnitude :: "f64 \<Rightarrow> nat" where
  "f64_magnitude x = unat (x mod 0x8000000000000000)"

definition f64_nan :: "f64 \<Rightarrow> bool" where
  "f64_nan x \<longleftrightarrow> 0x7FF0000000000000 < f64_magnitude x"

definition f64_key :: "f64 \<Rightarrow> int" where
  "f64_key x = (if x < 0x8000000000000000 then int (f64_magnitude x) else - int (f64_magnitude x))"

definition f64_less :: "f64 \<Rightarrow> f64 \<Rightarrow> bool" where
  "f64_less x y \<longleftrightarrow> \<not> f64_nan x \<and> \<not> f64_nan y \<and> f64_key x < f64_key y"

abbreviation (input) f64_zero :: f64 where "f64_zero \<equiv> 0"

abbreviation (input) f64_one :: f64 where "f64_one \<equiv> 0x3FF0000000000000"

text \<open>\<open>gen_range\<close> stays in its range, and \<open>random::<f64>()\<close> is at least 0 and below 1.\<close>

definition random_laws :: "('r, 'x) random_lib_scheme \<Rightarrow> bool" where
  "random_laws R \<longleftrightarrow>
     (\<forall>lo hi r. sint lo \<le> sint hi \<longrightarrow>
        sint lo \<le> sint (fst (rand_range R lo hi r)) \<and> sint (fst (rand_range R lo hi r)) \<le> sint hi) \<and>
     (\<forall>r. \<not> f64_less (fst (rand_f64 R r)) f64_zero \<and> f64_less (fst (rand_f64 R r)) f64_one)"

end
