(* ===== verification/Engine_Api.thy ===== *)
theory Engine_Api
  imports Engine Http
begin

text \<open>
  \<open>proxy/src/engine_api.rs\<close>: the classification of Engine API methods, and the handler that parses,
  counts and modifies requests and responses. Its errors are those of \<open>serde_json\<close>.
\<close>

record ProxyJsonError =
  pje_code :: i32
  pje_message :: string
  pje_data :: "JsonValue option"

record EngineApiRequest =
  erq_jsonrpc :: string
  erq_method :: string
  erq_params :: JsonValue
  erq_id :: JsonValue

record EngineApiResponse =
  ers_jsonrpc :: string
  ers_result :: "JsonValue option"
  ers_error :: "ProxyJsonError option"
  ers_id :: JsonValue

text \<open>The derived deserialisation of requests and responses.\<close>

record engine_json_lib = json_lib +
  request_from_slice :: "bytes \<Rightarrow> EngineApiRequest option"
  response_from_slice :: "bytes \<Rightarrow> EngineApiResponse option"

section \<open>Methods\<close>

datatype EngineApiMethod =
    NewPayload string
  | GetPayload string
  | ForkchoiceUpdated string
  | GetPayloadBodies string
  | ExchangeCapabilities
  | GetClientVersion
  | GetBlobs
  | Unknown string

definition EngineApiMethod_from_str :: "string \<Rightarrow> EngineApiMethod" where
  "EngineApiMethod_from_str m =
     (if m = ENGINE_NEW_PAYLOAD_V1 then NewPayload ''V1''
      else if m = ENGINE_NEW_PAYLOAD_V2 then NewPayload ''V2''
      else if m = ENGINE_NEW_PAYLOAD_V3 then NewPayload ''V3''
      else if m = ENGINE_NEW_PAYLOAD_V4 then NewPayload ''V4''
      else if m = ENGINE_GET_PAYLOAD_V1 then GetPayload ''V1''
      else if m = ENGINE_GET_PAYLOAD_V2 then GetPayload ''V2''
      else if m = ENGINE_GET_PAYLOAD_V3 then GetPayload ''V3''
      else if m = ENGINE_GET_PAYLOAD_V4 then GetPayload ''V4''
      else if m = ENGINE_FORKCHOICE_UPDATED_V1 then ForkchoiceUpdated ''V1''
      else if m = ENGINE_FORKCHOICE_UPDATED_V2 then ForkchoiceUpdated ''V2''
      else if m = ENGINE_FORKCHOICE_UPDATED_V3 then ForkchoiceUpdated ''V3''
      else if m = ENGINE_GET_PAYLOAD_BODIES_BY_HASH_V1 then GetPayloadBodies ''ByHashV1''
      else if m = ENGINE_GET_PAYLOAD_BODIES_BY_RANGE_V1 then GetPayloadBodies ''ByRangeV1''
      else if m = ENGINE_EXCHANGE_CAPABILITIES then ExchangeCapabilities
      else if m = ENGINE_GET_CLIENT_VERSION_V1 then GetClientVersion
      else if m = ENGINE_GET_BLOBS_V1 then GetBlobs
      else Unknown m)"

fun is_critical :: "EngineApiMethod \<Rightarrow> bool" where
  "is_critical (NewPayload _) = True"
| "is_critical (ForkchoiceUpdated _) = True"
| "is_critical (GetPayload _) = True"
| "is_critical _ = False"

fun base_name :: "EngineApiMethod \<Rightarrow> string" where
  "base_name (NewPayload _) = ''engine_newPayload''"
| "base_name (GetPayload _) = ''engine_getPayload''"
| "base_name (ForkchoiceUpdated _) = ''engine_forkchoiceUpdated''"
| "base_name (GetPayloadBodies _) = ''engine_getPayloadBodies''"
| "base_name ExchangeCapabilities = ''engine_exchangeCapabilities''"
| "base_name GetClientVersion = ''engine_getClientVersionV1''"
| "base_name GetBlobs = ''engine_getBlobsV1''"
| "base_name (Unknown m) = m"

section \<open>The handler\<close>

record EngineApiHandler = method_stats :: "string \<rightharpoonup> u64"

definition EngineApiHandler_new :: EngineApiHandler where
  "EngineApiHandler_new = \<lparr>method_stats = Map.empty\<rparr>"

definition parse_request ::
  "'x engine_json_lib_scheme \<Rightarrow> EngineApiHandler \<Rightarrow> bytes \<Rightarrow> (Report, EngineApiRequest) result" where
  "parse_request J h body = ok_or (LibError ''serde_json'') (request_from_slice J body)"

definition parse_response ::
  "'x engine_json_lib_scheme \<Rightarrow> EngineApiHandler \<Rightarrow> bytes \<Rightarrow> (Report, EngineApiResponse) result" where
  "parse_response J h body = ok_or (LibError ''serde_json'') (response_from_slice J body)"

definition is_engine_api_method :: "EngineApiHandler \<Rightarrow> string \<Rightarrow> bool" where
  "is_engine_api_method h m = (case EngineApiMethod_from_str m of Unknown _ \<Rightarrow> False | _ \<Rightarrow> True)"

definition get_method_category :: "EngineApiHandler \<Rightarrow> string \<Rightarrow> EngineApiMethod" where
  "get_method_category h m = EngineApiMethod_from_str m"

text \<open>\<open>*map.entry(k).or_insert(0) += 1\<close>.\<close>

definition incr_entry :: "string \<Rightarrow> (string \<rightharpoonup> u64) \<Rightarrow> ('e, string \<rightharpoonup> u64) result" where
  "incr_entry k m = and_then (add_chk (case m k of None \<Rightarrow> 0 | Some n \<Rightarrow> n) 1) (\<lambda>n. Inr (m(k \<mapsto> n)))"

definition zero_hash :: string where
  "zero_hash = ''0x0000000000000000000000000000000000000000000000000000000000000000''"

definition corrupt_new_payload_request :: "EngineApiRequest \<Rightarrow> EngineApiRequest" where
  "corrupt_new_payload_request request = (case erq_params request of
     JArray (JObject payload # rest) \<Rightarrow>
       request\<lparr>erq_params := JArray (JObject (obj_insert ''blockHash'' (JString zero_hash) payload) # rest)\<rparr>
   | _ \<Rightarrow> request)"

definition corrupt_forkchoice_request :: "EngineApiRequest \<Rightarrow> EngineApiRequest" where
  "corrupt_forkchoice_request request = (case erq_params request of
     JArray (JObject forkchoice # rest) \<Rightarrow>
       request\<lparr>erq_params := JArray (JObject (obj_insert ''headBlockHash'' (JString zero_hash) forkchoice) # rest)\<rparr>
   | _ \<Rightarrow> request)"

text \<open>\<open>modifications.get(key)\<close> is set and \<open>as_bool().unwrap_or(false)\<close>.\<close>

definition flag :: "string \<Rightarrow> (string \<rightharpoonup> JsonValue) \<Rightarrow> bool" where
  "flag k modifications \<longleftrightarrow> Option.bind (modifications k) as_bool = Some True"

definition modify_request ::
  "EngineApiHandler \<Rightarrow> EngineApiRequest \<Rightarrow> (string \<rightharpoonup> JsonValue) \<Rightarrow>
    (Report, EngineApiRequest \<times> EngineApiHandler) result" where
  "modify_request h request modifications =
     (let method_category = get_method_category h (erq_method request) in
      and_then (incr_entry (erq_method request) (method_stats h)) (\<lambda>stats.
      let request = (case modifications ''params'' of Some new_params \<Rightarrow> request\<lparr>erq_params := new_params\<rparr>
            | None \<Rightarrow> request);
          request = (case method_category of
              NewPayload _ \<Rightarrow> if flag ''corrupt_payload'' modifications
                then corrupt_new_payload_request request else request
            | ForkchoiceUpdated _ \<Rightarrow> if flag ''corrupt_forkchoice'' modifications
                then corrupt_forkchoice_request request else request
            | _ \<Rightarrow> request)
      in Inr (request, h\<lparr>method_stats := stats\<rparr>)))"

definition modify_response ::
  "EngineApiHandler \<Rightarrow> EngineApiResponse \<Rightarrow> (string \<rightharpoonup> JsonValue) \<Rightarrow> (Report, EngineApiResponse) result" where
  "modify_response h response modifications =
     (let response = (case modifications ''result'' of
            Some new_result \<Rightarrow> response\<lparr>ers_result := Some new_result\<rparr> | None \<Rightarrow> response);
          response = (if flag ''inject_error'' modifications
            then response\<lparr>ers_error := Some \<lparr>pje_code = -32603,
                  pje_message = ''Injected fault: Internal error'', pje_data = None\<rparr>, ers_result := None\<rparr>
            else response)
      in Inr response)"

definition get_method_stats :: "EngineApiHandler \<Rightarrow> string \<rightharpoonup> u64" where
  "get_method_stats h = method_stats h"

definition reset_stats :: "EngineApiHandler \<Rightarrow> EngineApiHandler" where
  "reset_stats h = h\<lparr>method_stats := Map.empty\<rparr>"

section \<open>Facts\<close>

lemmas engine_methods = ENGINE_NEW_PAYLOAD_V1_def ENGINE_NEW_PAYLOAD_V2_def ENGINE_NEW_PAYLOAD_V3_def
  ENGINE_NEW_PAYLOAD_V4_def ENGINE_GET_PAYLOAD_V1_def ENGINE_GET_PAYLOAD_V2_def ENGINE_GET_PAYLOAD_V3_def
  ENGINE_GET_PAYLOAD_V4_def ENGINE_FORKCHOICE_UPDATED_V1_def ENGINE_FORKCHOICE_UPDATED_V2_def
  ENGINE_FORKCHOICE_UPDATED_V3_def ENGINE_GET_PAYLOAD_BODIES_BY_HASH_V1_def
  ENGINE_GET_PAYLOAD_BODIES_BY_RANGE_V1_def ENGINE_EXCHANGE_CAPABILITIES_def
  ENGINE_GET_CLIENT_VERSION_V1_def ENGINE_GET_BLOBS_V1_def

text \<open>What follows the base name.\<close>

fun method_suffix :: "EngineApiMethod \<Rightarrow> string" where
  "method_suffix (NewPayload v) = v"
| "method_suffix (GetPayload v) = v"
| "method_suffix (ForkchoiceUpdated v) = v"
| "method_suffix (GetPayloadBodies v) = v"
| "method_suffix _ = ''''"

text \<open>A class determines the method it came from.\<close>

lemma method_spelled: "base_name (EngineApiMethod_from_str m) @ method_suffix (EngineApiMethod_from_str m) = m"
  by (simp add: EngineApiMethod_from_str_def engine_methods)

lemma method_category_inject: "EngineApiMethod_from_str m = EngineApiMethod_from_str n \<longleftrightarrow> m = n"
  using method_spelled [of m] method_spelled [of n] by metis

end
