(* ===== verification/Fault_Injector.thy ===== *)
theory Fault_Injector
  imports Engine_Api
begin

text \<open>
  \<open>proxy/src/config.rs\<close>, the configuration of the proxy, and \<open>proxy/src/fault_injector.rs\<close>, which decides
  for which methods a request is answered by a fault. The start time of the injector is never read
  and has no counterpart. A counter at its maximum panics on every further increment, as the mutex
  that the first panic poisons does.
\<close>

section \<open>Configuration\<close>

datatype LogFormat = LF_Json | LF_Pretty | LF_Compact

record ServerConfig =
  sc_listen_addr :: string
  sc_timeout_seconds :: u64
  sc_max_connections :: "usize option"

record MetricsConfig =
  mc_enabled :: bool
  mc_listen_addr :: string
  mc_path :: string

record LoggingConfig =
  lc_level :: string
  lc_format :: LogFormat
  lc_file :: "string option"

datatype FaultTarget =
    FT_Method string
  | FT_MethodPattern string
  | FT_All
  | FT_EngineApi
  | FT_EthApi
  | FT_EngineNewPayload
  | FT_EngineForkchoiceUpdated
  | FT_EngineGetPayload
  | FT_EngineCriticalMethods

datatype FaultType = Delay | Drop | Error | Corrupt | Duplicate | Byzantine

datatype CorruptionType = RandomByte | FlipBit | TruncateResponse | InvalidJson | WrongId | WrongMethod

datatype ByzantineBehavior = WrongBlockNumber | InvalidHash | FutureTimestamp | WrongGasLimit | InvalidSignature

record FaultParameters =
  fp_delay_ms :: "u64 option"
  fp_delay_variance_ms :: "u64 option"
  fp_error_code :: "i32 option"
  fp_error_message :: "string option"
  fp_corruption_type :: "CorruptionType option"
  fp_byzantine_behavior :: "ByzantineBehavior option"

record FaultConfig =
  fc_fault_type :: FaultType
  fc_probability :: f64
  fc_parameters :: FaultParameters

record TriggerConfig =
  tc_probability :: f64
  tc_after_requests :: "u64 option"
  tc_time_window_seconds :: "u64 option"

record FaultScenario =
  fs_name :: string
  fs_target :: FaultTarget
  fs_fault :: FaultConfig
  fs_trigger :: TriggerConfig
  fs_enabled :: bool

record EngineApiConfig =
  ec_method_specific_faults :: "string \<rightharpoonup> FaultConfig"
  ec_critical_method_protection :: bool
  ec_track_method_stats :: bool

record FaultInjectionConfig =
  fic_enabled :: bool
  fic_scenarios :: "FaultScenario list"
  fic_global_probability :: f64
  fic_engine_api_specific :: "EngineApiConfig option"

record ProxyConfig =
  pc_server :: ServerConfig
  pc_upstream_url :: string
  pc_fault_injection :: FaultInjectionConfig
  pc_metrics :: MetricsConfig
  pc_logging :: LoggingConfig

definition FaultInjectionConfig_default :: FaultInjectionConfig where
  "FaultInjectionConfig_default = \<lparr>fic_enabled = False, fic_scenarios = [],
     fic_global_probability = f64_zero, fic_engine_api_specific = None\<rparr>"

definition FaultParameters_default :: FaultParameters where
  "FaultParameters_default = \<lparr>fp_delay_ms = None, fp_delay_variance_ms = None, fp_error_code = None,
     fp_error_message = None, fp_corruption_type = None, fp_byzantine_behavior = None\<rparr>"

definition ProxyConfig_default :: ProxyConfig where
  "ProxyConfig_default =
     \<lparr>pc_server = \<lparr>sc_listen_addr = ''127.0.0.1:8080'', sc_timeout_seconds = 30, sc_max_connections = Some 1000\<rparr>,
      pc_upstream_url = ''http://127.0.0.1:8545'',
      pc_fault_injection = \<lparr>fic_enabled = False, fic_scenarios = [], fic_global_probability = f64_zero,
        fic_engine_api_specific = None\<rparr>,
      pc_metrics = \<lparr>mc_enabled = True, mc_listen_addr = ''127.0.0.1:9090'', mc_path = ''/metrics''\<rparr>,
      pc_logging = \<lparr>lc_level = ''info'', lc_format = LF_Pretty, lc_file = None\<rparr>\<rparr>"

section \<open>The injector\<close>

record FaultStats =
  total_requests :: u64
  faults_injected :: u64
  faults_by_type :: "string \<rightharpoonup> u64"
  faults_by_method :: "string \<rightharpoonup> u64"

definition FaultStats_default :: FaultStats where
  "FaultStats_default = \<lparr>total_requests = 0, faults_injected = 0, faults_by_type = Map.empty,
     faults_by_method = Map.empty\<rparr>"

record FaultInjector =
  config :: FaultInjectionConfig
  stats :: FaultStats
  request_count :: u64

definition FaultInjector_new :: "FaultInjectionConfig \<Rightarrow> FaultInjector" where
  "FaultInjector_new c = \<lparr>config = c, stats = FaultStats_default, request_count = 0\<rparr>"

definition FaultInjector_disabled :: FaultInjector where
  "FaultInjector_disabled = FaultInjector_new FaultInjectionConfig_default"

record 'r fault_world = "'r effects" +
  injector :: FaultInjector

text \<open>The debug form of a type.\<close>

fun FaultType_debug :: "FaultType \<Rightarrow> string" where
  "FaultType_debug Delay = ''Delay''"
| "FaultType_debug Drop = ''Drop''"
| "FaultType_debug Error = ''Error''"
| "FaultType_debug Corrupt = ''Corrupt''"
| "FaultType_debug Duplicate = ''Duplicate''"
| "FaultType_debug Byzantine = ''Byzantine''"

text \<open>A counter is read, incremented and written under the lock.\<close>

definition count_up ::
  "(FaultInjector \<Rightarrow> 'a) \<Rightarrow> ('a \<Rightarrow> ('e, 'a) result) \<Rightarrow> ('a \<Rightarrow> FaultInjector \<Rightarrow> FaultInjector) \<Rightarrow>
    (('r, 'x) fault_world_scheme, 'e, unit) io" where
  "count_up get incr put =
     bind_io get_io (\<lambda>w. bind_io (lift_io (incr (get (injector w)))) (\<lambda>n.
       modify_io (\<lambda>w. w\<lparr>injector := put n (injector w)\<rparr>)))"

definition record_fault :: "FaultType \<Rightarrow> string \<Rightarrow> (('r, 'x) fault_world_scheme, 'e, unit) io" where
  "record_fault fault_type m =
     bind_io (count_up (\<lambda>f. total_requests (stats f)) (\<lambda>n. add_chk n 1)
         (\<lambda>n f. f\<lparr>stats := (stats f)\<lparr>total_requests := n\<rparr>\<rparr>)) (\<lambda>_.
     bind_io (count_up (\<lambda>f. faults_injected (stats f)) (\<lambda>n. add_chk n 1)
         (\<lambda>n f. f\<lparr>stats := (stats f)\<lparr>faults_injected := n\<rparr>\<rparr>)) (\<lambda>_.
     bind_io (count_up (\<lambda>f. faults_by_type (stats f)) (incr_entry (FaultType_debug fault_type))
         (\<lambda>t f. f\<lparr>stats := (stats f)\<lparr>faults_by_type := t\<rparr>\<rparr>)) (\<lambda>_.
       count_up (\<lambda>f. faults_by_method (stats f)) (incr_entry m)
         (\<lambda>t f. f\<lparr>stats := (stats f)\<lparr>faults_by_method := t\<rparr>\<rparr>))))"

definition fault_response :: Response where
  "fault_response = json_response 500
     (bytes_of_string ''{\"jsonrpc\":\"2.0\",\"error\":{\"code\":-32000,\"message\":\"Fault injected\"},\"id\":null}'')"

text \<open>The hasher of the standard library gives a number for each method, in every run the same.\<close>

definition should_inject_fault ::
  "(string \<Rightarrow> u64) \<Rightarrow> string \<Rightarrow> (('r, 'x) fault_world_scheme, 'e, Response option) io" where
  "should_inject_fault hash m =
     bind_io get_io (\<lambda>w.
     if \<not> fic_enabled (config (injector w)) then return_io None
     else
     bind_io (count_up request_count (\<lambda>n. add_chk n 1) (\<lambda>n f. f\<lparr>request_count := n\<rparr>)) (\<lambda>_.
     if hash m mod 100 < 10 then
       bind_io (record_fault Delay m) (\<lambda>_.
       bind_io (sleep_ms 100) (\<lambda>_.
         return_io (Some fault_response)))
     else return_io None))"

definition get_stats :: "FaultInjector \<Rightarrow> FaultStats" where
  "get_stats f = stats f"

definition FaultInjector_update_config ::
  "FaultInjector \<Rightarrow> FaultInjectionConfig \<Rightarrow> (Report, unit) result" where
  "FaultInjector_update_config f new_config = Inr ()"

section \<open>Facts\<close>

text \<open>Which methods are answered by a fault.\<close>

definition faulty :: "(string \<Rightarrow> u64) \<Rightarrow> FaultInjector \<Rightarrow> string \<Rightarrow> bool" where
  "faulty hash f m \<longleftrightarrow> fic_enabled (config f) \<and> hash m mod 100 < 10"

lemma count_up_Inr: "count_up get incr put w = (Inr u, w') \<longleftrightarrow>
    (\<exists>n. incr (get (injector w)) = Inr n \<and> w' = w\<lparr>injector := put n (injector w)\<rparr>)"
  by (cases "incr (get (injector w))") (auto simp: count_up_def bind_io_def get_io_def lift_io_def modify_io_def)

lemma incr_entry_Inr: "incr_entry k m = (Inr m' :: ('e, _) result) \<longleftrightarrow>
    unat (case m k of None \<Rightarrow> 0 | Some n \<Rightarrow> n) + 1 < 2 ^ 64 \<and>
    m' = m(k \<mapsto> (case m k of None \<Rightarrow> 0 | Some n \<Rightarrow> n) + 1)"
  by (auto simp: incr_entry_def and_then_def add_chk_def split: sum.splits if_splits)

end
