(* ===== verification/Proxy.thy ===== *)
theory Proxy
  imports Fault_Injector
begin

text \<open>
  The proxy between a node and its execution layer: \<open>proxy/src/metrics.rs\<close>, the fault injection layer of
  \<open>middleware.rs\<close>, the server of \<open>server.rs\<close>, the simpler proxy of \<open>lib.rs\<close> and the placeholder of
  \<open>engine_proxy.rs\<close>. Tracing, request identifiers, the limits the HTTP client puts on time and the
  sockets have no counterpart.
\<close>

section \<open>The world of a proxy\<close>

text \<open>A counter is known by its name and labels.\<close>

type_synonym counter = "string \<times> (string \<times> string) list"

record ('r, 'u) proxy_world = "'r fault_world" +
  counters :: "counter \<Rightarrow> nat"
  durations :: "string list"
  upstream :: 'u

text \<open>
  The libraries: the hasher, sending a request upstream (its body is read later and may fail then),
  decoding the text of a response in the
  character set the upstream names, what a header value may be, the clock, the CORS layer, which may answer by itself or add headers,
  and axum's answer to requests that no route takes.
\<close>

record 'u proxy_lib = engine_json_lib +
  default_hash :: "string \<Rightarrow> u64"
  http_send :: "string \<Rightarrow> (string \<times> bytes) list \<Rightarrow> bytes \<Rightarrow> 'u \<Rightarrow> (nat \<times> Body) option \<times> 'u"
  response_text :: "'u \<Rightarrow> bytes \<Rightarrow> bytes"
  header_value_ok :: "bytes \<Rightarrow> bool"
  utc_now :: "'u \<Rightarrow> string"
  cors_preflight :: "Request \<Rightarrow> Response option"
  cors_headers :: "Request \<Rightarrow> Response \<Rightarrow> Response"
  other_route :: "Request \<Rightarrow> Response"

section \<open>\<open>metrics.rs\<close>\<close>

definition increment :: "string \<Rightarrow> (string \<times> string) list \<Rightarrow> (('r, 'u, 'x) proxy_world_scheme, 'e, unit) io" where
  "increment name labels =
     modify_io (\<lambda>w. w\<lparr>counters := (counters w)((name, labels) := Suc (counters w (name, labels)))\<rparr>)"

definition increment_method_counter ::
  "string \<Rightarrow> string \<Rightarrow> (('r, 'u, 'x) proxy_world_scheme, 'e, unit) io" where
  "increment_method_counter m s = increment ''proxy_requests_by_method_total'' [(''method'', m), (''status'', s)]"

definition increment_success :: "string \<Rightarrow> (('r, 'u, 'x) proxy_world_scheme, 'e, unit) io" where
  "increment_success m = bind_io (increment ''proxy_requests_total'' []) (\<lambda>_. increment_method_counter m ''success'')"

definition increment_error :: "string \<Rightarrow> (('r, 'u, 'x) proxy_world_scheme, 'e, unit) io" where
  "increment_error error_type = bind_io (increment ''proxy_errors_total'' []) (\<lambda>_.
     increment ''proxy_errors_total'' [(''type'', error_type)])"

definition increment_fault_injected :: "string \<Rightarrow> (('r, 'u, 'x) proxy_world_scheme, 'e, unit) io" where
  "increment_fault_injected m = bind_io (increment ''proxy_faults_injected_total'' []) (\<lambda>_.
     increment ''proxy_faults_injected_total'' [(''method'', m)])"

definition record_request_duration :: "string \<Rightarrow> (('r, 'u, 'x) proxy_world_scheme, 'e, unit) io" where
  "record_request_duration d = modify_io (\<lambda>w. w\<lparr>durations := durations w @ [d]\<rparr>)"

definition render_prometheus :: "(string, string) result" where
  "render_prometheus = Inr ''# Metrics not available in simplified mode\<newline>''"

text \<open>\<open>FaultMetrics\<close> and \<open>EngineApiMetrics\<close>.\<close>

definition record_delay :: "(('r, 'u, 'x) proxy_world_scheme, 'e, unit) io" where
  "record_delay = increment ''proxy_delay_faults_total'' []"

definition record_drop :: "(('r, 'u, 'x) proxy_world_scheme, 'e, unit) io" where
  "record_drop = increment ''proxy_drop_faults_total'' []"

definition record_corruption :: "(('r, 'u, 'x) proxy_world_scheme, 'e, unit) io" where
  "record_corruption = increment ''proxy_corruption_faults_total'' []"

definition record_duplication :: "(('r, 'u, 'x) proxy_world_scheme, 'e, unit) io" where
  "record_duplication = increment ''proxy_duplication_faults_total'' []"

definition record_error :: "(('r, 'u, 'x) proxy_world_scheme, 'e, unit) io" where
  "record_error = increment ''proxy_error_faults_total'' []"

definition record_method_call :: "string \<Rightarrow> (('r, 'u, 'x) proxy_world_scheme, 'e, unit) io" where
  "record_method_call m =
     (if m \<in> {''engine_newPayloadV1'', ''engine_newPayloadV2'', ''engine_newPayloadV3''}
      then increment ''engine_api_new_payload_total'' []
      else if m \<in> {''engine_forkchoiceUpdatedV1'', ''engine_forkchoiceUpdatedV2'', ''engine_forkchoiceUpdatedV3''}
      then increment ''engine_api_forkchoice_updated_total'' []
      else if m \<in> {''engine_getPayloadV1'', ''engine_getPayloadV2'', ''engine_getPayloadV3''}
      then increment ''engine_api_get_payload_total'' []
      else if m = ''engine_exchangeCapabilities''
      then increment ''engine_api_exchange_capabilities_total'' []
      else increment ''engine_api_unknown_method_total'' [(''method'', m)])"

section \<open>The fault injection layer of \<open>middleware.rs\<close>\<close>

type_synonym ('w, 'e) service = "Request \<Rightarrow> ('w, 'e, Response) io"

definition FaultInjectionService_call ::
  "('u, 'y) proxy_lib_scheme \<Rightarrow> EngineApiHandler \<Rightarrow> (('r, 'u, 'x) proxy_world_scheme, 'e) service \<Rightarrow>
    (('r, 'u, 'x) proxy_world_scheme, 'e) service" where
  "FaultInjectionService_call L engine_api_handler inner req =
     (case req_body req of
        None \<Rightarrow> inner (req\<lparr>req_body := Some []\<rparr>)
      | Some body_bytes \<Rightarrow>
        let m = (case parse_request L engine_api_handler body_bytes of
              Inr engine_request \<Rightarrow>
                if is_engine_api_method engine_api_handler (erq_method engine_request)
                then Some (erq_method engine_request) else None
            | Inl _ \<Rightarrow> None)
        in (case m of
              Some method_name \<Rightarrow>
                bind_io (should_inject_fault (default_hash L) method_name) (\<lambda>fault.
                  (case fault of
                     Some response \<Rightarrow> return_io response
                   | None \<Rightarrow> inner (req\<lparr>req_body := Some body_bytes\<rparr>)))
            | None \<Rightarrow> inner (req\<lparr>req_body := Some body_bytes\<rparr>)))"

section \<open>\<open>server.rs\<close>\<close>

definition create_error_response ::
  "('u, 'y) proxy_lib_scheme \<Rightarrow> nat \<Rightarrow> string \<Rightarrow> JsonValue option \<Rightarrow> Response" where
  "create_error_response L code message i = json_response code (json_text L (json_object
     [(''jsonrpc'', JString ''2.0''),
      (''error'', json_object [(''code'', JInt (-32000)), (''message'', JString message)]),
      (''id'', (case i of None \<Rightarrow> JNull | Some v \<Rightarrow> v))]))"

definition should_forward_header :: "string \<Rightarrow> bool" where
  "should_forward_header name \<longleftrightarrow> to_lowercase name \<notin> {''host'', ''content-length'', ''transfer-encoding''}"

definition extract_body :: "('u, 'y) proxy_lib_scheme \<Rightarrow> Request \<Rightarrow> Response + bytes" where
  "extract_body L request = (case req_body request of
     Some b \<Rightarrow> Inr b | None \<Rightarrow> Inl (create_error_response L 400 ''Failed to read request body'' None))"

text \<open>The call that sends a request, and its result.\<close>

definition send ::
  "('u, 'y) proxy_lib_scheme \<Rightarrow> string \<Rightarrow> (string \<times> bytes) list \<Rightarrow> bytes \<Rightarrow>
    (('r, 'u, 'x) proxy_world_scheme, 'e, (nat \<times> Body) option) io" where
  "send L url headers body =
     (\<lambda>w. case http_send L url headers body (upstream w) of (r, u) \<Rightarrow> (Inr r, w\<lparr>upstream := u\<rparr>))"

definition forwarded_headers ::
  "('u, 'y) proxy_lib_scheme \<Rightarrow> (string \<times> bytes) list \<Rightarrow> (string \<times> bytes) list" where
  "forwarded_headers L headers = (''content-type'', bytes_of_string ''application/json'') #
     filter (\<lambda>(name, v). should_forward_header name \<and> header_value_ok L v) headers"

definition forward_request ::
  "('u, 'y) proxy_lib_scheme \<Rightarrow> ProxyConfig \<Rightarrow> bytes \<Rightarrow> (string \<times> bytes) list \<Rightarrow>
    (('r, 'u, 'x) proxy_world_scheme, 'e, Response + Response) io" where
  "forward_request L cfg body_bytes headers =
     bind_io (send L (pc_upstream_url cfg) (forwarded_headers L headers) body_bytes) (\<lambda>sent.
     (case sent of
        None \<Rightarrow> return_io (Inl (create_error_response L 502 ''Upstream request failed'' None))
      | Some (upstream_status, upstream_body) \<Rightarrow>
        let code = (case status_from_u16 upstream_status of None \<Rightarrow> 500 | Some c \<Rightarrow> c) in
        (case upstream_body of
           None \<Rightarrow> return_io (Inl (create_error_response L 502 ''Failed to read upstream response'' None))
         | Some response_bytes \<Rightarrow> return_io (Inr (json_response code response_bytes)))))"

text \<open>\<open>json_request.get("method").and_then(as_str).unwrap_or("unknown")\<close>.\<close>

definition method_of :: "JsonValue \<Rightarrow> string" where
  "method_of v = (case Option.bind (json_get ''method'' v) as_str of None \<Rightarrow> ''unknown'' | Some m \<Rightarrow> m)"

definition json_rpc_handler ::
  "('u, 'y) proxy_lib_scheme \<Rightarrow> ProxyConfig \<Rightarrow> (('r, 'u, 'x) proxy_world_scheme, 'e) service" where
  "json_rpc_handler L cfg request =
     (case extract_body L request of
        Inl response \<Rightarrow> return_io response
      | Inr body_bytes \<Rightarrow>
     (case json_parse L body_bytes of
        None \<Rightarrow> bind_io (increment_error ''invalid_json'') (\<lambda>_.
          return_io (create_error_response L 400 ''Invalid JSON'' None))
      | Some json_request \<Rightarrow>
        let m = method_of json_request in
        bind_io (should_inject_fault (default_hash L) m) (\<lambda>fault.
        (case fault of
           Some response \<Rightarrow> bind_io (increment_fault_injected m) (\<lambda>_. return_io response)
         | None \<Rightarrow>
           bind_io (forward_request L cfg body_bytes (req_headers request)) (\<lambda>r.
           (case r of
              Inr response \<Rightarrow> bind_io (increment_success m) (\<lambda>_. return_io response)
            | Inl response \<Rightarrow> bind_io (increment_error ''upstream_error'') (\<lambda>_. return_io response)))))))"

definition engine_api_handler ::
  "('u, 'y) proxy_lib_scheme \<Rightarrow> ProxyConfig \<Rightarrow> (('r, 'u, 'x) proxy_world_scheme, 'e) service" where
  "engine_api_handler L cfg request =
     (case extract_body L request of
        Inl response \<Rightarrow> return_io response
      | Inr body_bytes \<Rightarrow>
     (case json_parse L body_bytes of
        None \<Rightarrow> return_io (create_error_response L 400 ''Invalid JSON'' None)
      | Some json_request \<Rightarrow>
        let m = method_of json_request in
        bind_io (increment_success m) (\<lambda>_.
        bind_io (forward_request L cfg body_bytes (req_headers request)) (\<lambda>r.
        (case r of
           Inr response \<Rightarrow> return_io response
         | Inl response \<Rightarrow> bind_io (increment_error ''upstream_error'') (\<lambda>_. return_io response))))))"

definition health_handler :: "('u, 'y) proxy_lib_scheme \<Rightarrow> (('r, 'u, 'x) proxy_world_scheme, 'e, Response) io" where
  "health_handler L = bind_io get_io (\<lambda>w. return_io (json_response 200 (json_text L (json_object
     [(''status'', JString ''healthy''), (''timestamp'', JString (utc_now L (upstream w)))]))))"

definition metrics_handler :: "(('r, 'u, 'x) proxy_world_scheme, 'e, Response) io" where
  "metrics_handler = return_io (case render_prometheus of
     Inr metrics \<Rightarrow> \<lparr>status_code = 200, resp_headers = [(''content-type'', ''text/plain; version=0.0.4; charset=utf-8'')],
       resp_body = Some (bytes_of_string metrics)\<rparr>
   | Inl e \<Rightarrow> \<lparr>status_code = 500, resp_headers = [], resp_body = Some (bytes_of_string ''Failed to render metrics'')\<rparr>)"

text \<open>The routes, and the layers around them, of which the first is the outermost.\<close>

definition ProxyServer_routes ::
  "('u, 'y) proxy_lib_scheme \<Rightarrow> ProxyConfig \<Rightarrow> (('r, 'u, 'x) proxy_world_scheme, 'e) service" where
  "ProxyServer_routes L cfg req =
     (if path req = ''/'' \<and> verb req = ''POST'' then json_rpc_handler L cfg req
      else if path req = ''/engine'' \<and> verb req = ''POST'' then engine_api_handler L cfg req
      else if path req = ''/health'' \<and> verb req = ''GET'' then health_handler L
      else if path req = ''/metrics'' \<and> verb req = ''GET'' then metrics_handler
      else return_io (other_route L req))"

definition cors_layer ::
  "('u, 'y) proxy_lib_scheme \<Rightarrow> (('r, 'u, 'x) proxy_world_scheme, 'e) service \<Rightarrow>
    (('r, 'u, 'x) proxy_world_scheme, 'e) service" where
  "cors_layer L inner req = (case cors_preflight L req of
     Some response \<Rightarrow> return_io response
   | None \<Rightarrow> bind_io (inner req) (\<lambda>response. return_io (cors_headers L req response)))"

definition ProxyServer_router ::
  "('u, 'y) proxy_lib_scheme \<Rightarrow> ProxyConfig \<Rightarrow> (('r, 'u, 'x) proxy_world_scheme, 'e) service" where
  "ProxyServer_router L cfg = cors_layer L (FaultInjectionService_call L EngineApiHandler_new (ProxyServer_routes L cfg))"

section \<open>\<open>lib.rs\<close>\<close>

record EngineApiProxy = target_url :: string

definition lib_create_error_response :: "('u, 'y) proxy_lib_scheme \<Rightarrow> int \<Rightarrow> string \<Rightarrow> Response" where
  "lib_create_error_response L code message = json_response 200 (json_text L (json_object
     [(''jsonrpc'', JString ''2.0''),
      (''error'', json_object [(''code'', JInt code), (''message'', JString message)]),
      (''id'', JNull)]))"

definition extract_method :: "('u, 'y) proxy_lib_scheme \<Rightarrow> bytes \<Rightarrow> string option" where
  "extract_method L body = map_option method_of (json_parse L body)"

definition lib_forward_request ::
  "('u, 'y) proxy_lib_scheme \<Rightarrow> string \<Rightarrow> bytes \<Rightarrow> (('r, 'u, 'x) proxy_world_scheme, 'e, Response option) io" where
  "lib_forward_request L url body =
     bind_io (send L url [(''content-type'', bytes_of_string ''application/json'')] body) (\<lambda>sent.
     (case sent of
        Some (code, Some body) \<Rightarrow>
          bind_io get_io (\<lambda>w. return_io (Some (json_response
            (case status_from_u16 code of None \<Rightarrow> 500 | Some c \<Rightarrow> c) (response_text L (upstream w) body))))
      | _ \<Rightarrow> return_io None))"

definition handle_engine_api ::
  "('u, 'y) proxy_lib_scheme \<Rightarrow> EngineApiProxy \<Rightarrow> (('r, 'u, 'x) proxy_world_scheme, 'e) service" where
  "handle_engine_api L proxy request =
     (case req_body request of
        None \<Rightarrow> return_io (lib_create_error_response L (-32700) ''Failed to read request body'')
      | Some b \<Rightarrow>
        let body = utf8_lossy b in
     (case extract_method L body of
        None \<Rightarrow> return_io (lib_create_error_response L (-32700) ''Parse error'')
      | Some m \<Rightarrow>
        bind_io (should_inject_fault (default_hash L) m) (\<lambda>fault.
        (case fault of
           Some response \<Rightarrow> return_io response
         | None \<Rightarrow>
           bind_io (lib_forward_request L (target_url proxy) body) (\<lambda>r.
           (case r of
              Some response \<Rightarrow> return_io response
            | None \<Rightarrow> return_io (lib_create_error_response L (-32000) ''Internal error'')))))))"

text \<open>The injector of a proxy with or without a configuration.\<close>

definition EngineApiProxy_new :: "string \<Rightarrow> FaultInjectionConfig option \<Rightarrow> EngineApiProxy \<times> FaultInjector" where
  "EngineApiProxy_new url c = (\<lparr>target_url = url\<rparr>,
     (case c of Some c \<Rightarrow> FaultInjector_new c | None \<Rightarrow> FaultInjector_disabled))"

section \<open>\<open>engine_proxy.rs\<close>\<close>

definition EngineProxy_forward_request :: "string \<Rightarrow> JsonValue \<Rightarrow> JsonValue" where
  "EngineProxy_forward_request m params = json_object
     [(''jsonrpc'', JString ''2.0''),
      (''result'', json_object [(''status'', JString ''VALID''), (''latestValidHash'', JString zero_hash)]),
      (''id'', JInt 1)]"

definition EngineProxy_process_request ::
  "(string \<Rightarrow> u64) \<Rightarrow> string \<Rightarrow> JsonValue \<Rightarrow> (('r, 'x) fault_world_scheme, 'e, JsonValue) io" where
  "EngineProxy_process_request hash m params =
     bind_io (should_inject_fault hash m) (\<lambda>fault.
     (case fault of
        Some _ \<Rightarrow> return_io (json_object
          [(''jsonrpc'', JString ''2.0''),
           (''error'', json_object [(''code'', JInt (-32603)), (''message'', JString ''Fault injected'')]),
           (''id'', JNull)])
      | None \<Rightarrow> return_io (EngineProxy_forward_request m params)))"

definition json_counts :: "(string \<rightharpoonup> u64) \<Rightarrow> JsonValue" where
  "json_counts m = JObject (map (\<lambda>k. (k, JInt (uint (the (m k))))) (sorted_list_of_set (dom m)))"

definition EngineProxy_get_stats :: "FaultInjector \<Rightarrow> JsonValue" where
  "EngineProxy_get_stats f = json_object
     [(''total_requests'', JInt (uint (total_requests (get_stats f)))),
      (''faults_injected'', JInt (uint (faults_injected (get_stats f)))),
      (''faults_by_type'', json_counts (faults_by_type (get_stats f)))]"

end
