(* ===== verification/Middleware.thy ===== *)
theory Middleware
  imports Proxy
begin

text \<open>
  The delay, drop and corruption layers of \<open>proxy/src/middleware.rs\<close>. An \<open>i64\<close> is a word read by
  \<open>sint\<close>; its negation and addition panic on overflow, a cast from \<open>u64\<close> keeps the bits. Random numbers
  come from the parameter \<open>R\<close>, whose state is part of the world.
\<close>

section \<open>Signed arithmetic\<close>

definition in_i64 :: "int \<Rightarrow> bool" where
  "in_i64 x \<longleftrightarrow> - (2 ^ 63) \<le> x \<and> x < 2 ^ 63"

definition neg_i64 :: "i64 \<Rightarrow> ('e, i64) result" where
  "neg_i64 a = (if in_i64 (- sint a) then Inr (- a) else panic ''attempt to negate with overflow'')"

definition add_i64 :: "i64 \<Rightarrow> i64 \<Rightarrow> ('e, i64) result" where
  "add_i64 a b = (if in_i64 (sint a + sint b) then Inr (a + b) else panic ''attempt to add with overflow'')"

text \<open>\<open>gen_range(lo..=hi)\<close>.\<close>

definition gen_range :: "('r, 'y) random_lib_scheme \<Rightarrow> i64 \<Rightarrow> i64 \<Rightarrow> (('r, 'x) effects_scheme, 'e, i64) io" where
  "gen_range R lo hi =
     bind_io (lift_io (assert_that ''cannot sample empty range'' (sint lo \<le> sint hi))) (\<lambda>_. draw (rand_range R lo hi))"

section \<open>Delay\<close>

record DelayService =
  delay_ms :: u64
  variance_ms :: u64

definition actual_delay ::
  "('r, 'y) random_lib_scheme \<Rightarrow> DelayService \<Rightarrow> (('r, 'x) effects_scheme, 'e, u64) io" where
  "actual_delay R d =
     (if 0 < variance_ms d then
        let variance_range = variance_ms d :: i64 in
        bind_io (lift_io (neg_i64 variance_range)) (\<lambda>lo.
        bind_io (gen_range R lo variance_range) (\<lambda>offset.
        bind_io (lift_io (add_i64 (delay_ms d) offset)) (\<lambda>x.
          return_io (if sint x < 0 then 0 else x))))
      else return_io (delay_ms d))"

definition DelayService_call ::
  "('r, 'y) random_lib_scheme \<Rightarrow> DelayService \<Rightarrow> (('r, 'x) effects_scheme, 'e) service \<Rightarrow>
    (('r, 'x) effects_scheme, 'e) service" where
  "DelayService_call R d inner req =
     bind_io (actual_delay R d) (\<lambda>ms.
     bind_io (if 0 < ms then sleep_ms ms else return_io ()) (\<lambda>_.
       inner req))"

section \<open>Drop\<close>

record DropService = drop_probability :: f64

definition drop_response :: Response where
  "drop_response = json_response 504
     (bytes_of_string ''{\"jsonrpc\":\"2.0\",\"error\":{\"code\":-32000,\"message\":\"Request dropped\"},\"id\":null}'')"

definition DropService_call ::
  "('r, 'y) random_lib_scheme \<Rightarrow> DropService \<Rightarrow> (('r, 'x) effects_scheme, 'e) service \<Rightarrow>
    (('r, 'x) effects_scheme, 'e) service" where
  "DropService_call R d inner req =
     bind_io (draw (rand_f64 R)) (\<lambda>x.
       if f64_less x (drop_probability d) then return_io drop_response else inner req)"

section \<open>Corruption\<close>

record CorruptionService =
  corruption_probability :: f64
  corruption_type :: CorruptionType

text \<open>The loops run a number of times that is fixed before.\<close>

fun repeat_io :: "nat \<Rightarrow> ('a \<Rightarrow> ('w, 'e, 'a) io) \<Rightarrow> 'a \<Rightarrow> ('w, 'e, 'a) io" where
  "repeat_io 0 f x = return_io x"
| "repeat_io (Suc n) f x = bind_io (f x) (repeat_io n f)"

definition corrupt_byte ::
  "('r, 'y) random_lib_scheme \<Rightarrow> bytes \<Rightarrow> (('r, 'x) effects_scheme, 'e, bytes) io" where
  "corrupt_byte R corrupted =
     (if corrupted \<noteq> [] then
        bind_io (draw (rand_usize R)) (\<lambda>i.
        bind_io (draw (rand_u8 R)) (\<lambda>b.
          return_io (corrupted[unat i mod length corrupted := b])))
      else return_io corrupted)"

definition corrupt_bytes ::
  "('r, 'y) random_lib_scheme \<Rightarrow> bytes \<Rightarrow> (('r, 'x) effects_scheme, 'e, bytes) io" where
  "corrupt_bytes R b = repeat_io (max (length b div 20) 1) (corrupt_byte R) b"

definition flip_bit_of :: "u8 \<Rightarrow> u8 \<Rightarrow> u8" where
  "flip_bit_of bit_index b = xor b (push_bit (unat (bit_index mod 8)) 1)"

definition flip_random_bit ::
  "('r, 'y) random_lib_scheme \<Rightarrow> bytes \<Rightarrow> (('r, 'x) effects_scheme, 'e, bytes) io" where
  "flip_random_bit R corrupted =
     (if corrupted \<noteq> [] then
        bind_io (draw (rand_usize R)) (\<lambda>i.
        bind_io (draw (rand_u8 R)) (\<lambda>bit_index.
        let byte_index = unat i mod length corrupted in
          return_io (corrupted[byte_index := flip_bit_of bit_index (corrupted ! byte_index)])))
      else return_io corrupted)"

definition flip_random_bits ::
  "('r, 'y) random_lib_scheme \<Rightarrow> bytes \<Rightarrow> (('r, 'x) effects_scheme, 'e, bytes) io" where
  "flip_random_bits R b =
     bind_io (draw (rand_u8 R)) (\<lambda>n. repeat_io (unat (n mod 3) + 1) (flip_random_bit R) b)"

text \<open>A JSON body with one member of its object replaced; other bodies are kept.\<close>

definition replace_member :: "'z json_lib_scheme \<Rightarrow> string \<Rightarrow> string \<Rightarrow> bytes \<Rightarrow> bytes" where
  "replace_member J key new_value b = (case from_utf8 b of
     None \<Rightarrow> b
   | Some text \<Rightarrow> (case json_parse J text of
       None \<Rightarrow> b
     | Some json \<Rightarrow> json_text J (case json of
         JObject obj \<Rightarrow> JObject (obj_insert key (JString new_value) obj) | _ \<Rightarrow> json)))"

definition corrupt_response ::
  "'z json_lib_scheme \<Rightarrow> ('r, 'y) random_lib_scheme \<Rightarrow> CorruptionType \<Rightarrow> Response \<Rightarrow>
    (('r, 'x) effects_scheme, 'e, Response) io" where
  "corrupt_response J R t response =
     (let b = read_or_default (resp_body response) in (case t of
        RandomByte \<Rightarrow> bind_io (corrupt_bytes R b) (\<lambda>b. return_io (response\<lparr>resp_body := Some b\<rparr>))
      | InvalidJson \<Rightarrow> return_io (response\<lparr>resp_body := Some (bytes_of_string ''{invalid json'')\<rparr>)
      | TruncateResponse \<Rightarrow> return_io (response\<lparr>resp_body :=
          Some (if length b > 10 then take (length b div 2) b else b)\<rparr>)
      | FlipBit \<Rightarrow> bind_io (flip_random_bits R b) (\<lambda>b. return_io (response\<lparr>resp_body := Some b\<rparr>))
      | WrongId \<Rightarrow> return_io (response\<lparr>resp_body := Some (replace_member J ''id'' ''wrong_id'' b)\<rparr>)
      | WrongMethod \<Rightarrow> return_io (response\<lparr>resp_body := Some (replace_member J ''method'' ''wrong_method'' b)\<rparr>)))"

definition CorruptionService_call ::
  "'z json_lib_scheme \<Rightarrow> ('r, 'y) random_lib_scheme \<Rightarrow> CorruptionService \<Rightarrow>
    (('r, 'x) effects_scheme, 'e) service \<Rightarrow> (('r, 'x) effects_scheme, 'e) service" where
  "CorruptionService_call J R c inner req =
     bind_io (inner req) (\<lambda>response.
     bind_io (draw (rand_f64 R)) (\<lambda>x.
       if f64_less x (corruption_probability c) then corrupt_response J R (corruption_type c) response
       else return_io response))"

section \<open>Facts\<close>

lemma f64_one_key: "f64_key f64_one = 0x3FF0000000000000" "f64_key f64_zero = 0" "\<not> f64_nan f64_one" "\<not> f64_nan f64_zero"
  by (simp_all add: f64_key_def f64_magnitude_def f64_nan_def)

lemma draw_apply: "draw f w = (Inr (fst (f (rng w))), w\<lparr>rng := snd (f (rng w))\<rparr>)"
  by (simp add: draw_def split: prod.splits)

text \<open>The pairs of an index and a byte that a loop of \<open>n\<close> rounds draws, and the generator after it.\<close>

fun draws :: "('r, 'y) random_lib_scheme \<Rightarrow> nat \<Rightarrow> 'r \<Rightarrow> (usize \<times> u8) list \<times> 'r" where
  "draws R 0 r = ([], r)"
| "draws R (Suc n) r =
     (let (i, r1) = rand_usize R r; (b, r2) = rand_u8 R r1; (ds, r3) = draws R n r2 in ((i, b) # ds, r3))"

lemma length_draws: "length (fst (draws R n r)) = n"
  by (induction n arbitrary: r) (simp_all split: prod.split, metis fst_conv)

text \<open>A loop whose body draws an index and a byte and computes from them.\<close>

lemma repeat_io_draws:
  assumes "\<And>y w. P y \<Longrightarrow> f y w = bind_io (draw (rand_usize R)) (\<lambda>i. bind_io (draw (rand_u8 R)) (\<lambda>b.
      return_io (g y (i, b)))) w"
    and "\<And>y d. P y \<Longrightarrow> P (g y d)" and "P x"
  shows "repeat_io n f x w = (Inr (foldl g x (fst (draws R n (rng w)))), w\<lparr>rng := snd (draws R n (rng w))\<rparr>)"
  using assms(3)
proof (induction n arbitrary: x w)
  case (Suc n)
  let ?i = "rand_usize R (rng w)" let ?b = "rand_u8 R (snd ?i)"
  have "f x w = (Inr (g x (fst ?i, fst ?b)), w\<lparr>rng := snd ?b\<rparr>)"
    by (simp add: assms(1) [OF Suc.prems] bind_io_def draw_apply return_io_def)
  with Suc.IH [OF assms(2) [OF Suc.prems], of "(fst ?i, fst ?b)" "w\<lparr>rng := snd ?b\<rparr>"] show ?case
    by (simp add: bind_io_def split: prod.split)
qed (simp add: return_io_def)

text \<open>Positions, and bits, in which two lists of bytes of one length differ.\<close>

definition differ :: "bytes \<Rightarrow> bytes \<Rightarrow> nat set" where
  "differ b c = {i. i < length b \<and> b ! i \<noteq> c ! i}"

definition differ_bits :: "bytes \<Rightarrow> bytes \<Rightarrow> (nat \<times> nat) set" where
  "differ_bits b c = {(i, n). i < length b \<and> bit (b ! i) n \<noteq> bit (c ! i) n}"

end
