(* ===== verification/Proxy_Correct.thy ===== *)
theory Proxy_Correct
  imports Middleware
begin

text \<open>
  The properties of the proxy: which requests it answers by a fault, that it is transparent for all
  others, that the statistics of the injector agree with each other in every run, and how far the
  delay and corruption layers may change what they handle.
\<close>

section \<open>The injector\<close>

text \<open>
  The statistics count the faults once in total and once for their only type and their method, all
  of them requests counted, and only methods whose hash is in the range.
\<close>

definition stats_ok :: "(string \<Rightarrow> u64) \<Rightarrow> FaultInjector \<Rightarrow> bool" where
  "stats_ok hash f \<longleftrightarrow>
     (let s = stats f in
      total_requests s = faults_injected s \<and> unat (faults_injected s) \<le> unat (request_count f) \<and>
      faults_by_type s = (if faults_injected s = 0 then Map.empty else [''Delay'' \<mapsto> faults_injected s]) \<and>
      finite (dom (faults_by_method s)) \<and>
      (\<Sum>m\<in>dom (faults_by_method s). unat (the (faults_by_method s m))) = unat (faults_injected s) \<and>
      (\<forall>m\<in>dom (faults_by_method s). hash m mod 100 < 10))"

lemma stats_ok_new: "stats_ok hash (FaultInjector_new c)"
  by (simp add: stats_ok_def FaultInjector_new_def FaultStats_default_def)

lemma unat_Suc: "unat (n :: u64) + 1 < 2 ^ 64 \<Longrightarrow> unat (n + 1) = unat n + 1"
  by (simp add: unat_word_ariths)

definition bump :: "string \<Rightarrow> (string \<rightharpoonup> u64) \<Rightarrow> string \<rightharpoonup> u64" where
  "bump k m = m(k \<mapsto> (case m k of None \<Rightarrow> 0 | Some n \<Rightarrow> n) + 1)"

definition with_fault :: "string \<Rightarrow> FaultStats \<Rightarrow> FaultStats" where
  "with_fault m s = s\<lparr>total_requests := total_requests s + 1, faults_injected := faults_injected s + 1,
     faults_by_type := bump ''Delay'' (faults_by_type s), faults_by_method := bump m (faults_by_method s)\<rparr>"

text \<open>The count of one method is at most the total.\<close>

lemma method_count_le:
  assumes "stats_ok hash f"
  shows "unat (case faults_by_method (stats f) m of None \<Rightarrow> 0 | Some n \<Rightarrow> n) \<le> unat (faults_injected (stats f))"
proof (cases "faults_by_method (stats f) m")
  case (Some n)
  let ?b = "faults_by_method (stats f)"
  have "unat (the (?b m)) \<le> (\<Sum>m\<in>dom ?b. unat (the (?b m)))"
    using assms Some by (intro member_le_sum) (auto simp: stats_ok_def Let_def)
  with assms Some show ?thesis by (simp add: stats_ok_def Let_def)
qed simp

lemma sum_bump:
  assumes "finite (dom b)" and "unat (case b m of None \<Rightarrow> 0 | Some n \<Rightarrow> n) + 1 < 2 ^ 64"
  shows "(\<Sum>k\<in>dom (bump m b). unat (the (bump m b k))) = (\<Sum>k\<in>dom b. unat (the (b k))) + 1"
proof -
  have rest: "(\<Sum>k\<in>dom b - {m}. unat (the (bump m b k))) = (\<Sum>k\<in>dom b - {m}. unat (the (b k)))"
    by (rule sum.cong) (auto simp: bump_def)
  have "(\<Sum>k\<in>dom (bump m b). unat (the (bump m b k))) =
      unat (the (bump m b m)) + (\<Sum>k\<in>dom b - {m}. unat (the (bump m b k)))"
    using assms(1) by (simp add: bump_def sum.insert_remove)
  moreover have "(\<Sum>k\<in>dom b. unat (the (b k))) =
      unat (case b m of None \<Rightarrow> 0 | Some n \<Rightarrow> n) + (\<Sum>k\<in>dom b - {m}. unat (the (b k)))"
  proof (cases "b m")
    case None
    then have "dom b - {m} = dom b" by auto
    with None show ?thesis by simp
  next
    case (Some n)
    with assms(1) show ?thesis by (subst sum.remove [of _ m]) auto
  qed
  ultimately show ?thesis using rest assms(2) by (simp add: bump_def unat_Suc)
qed

lemma stats_ok_fault:
  assumes "stats_ok hash f" and "unat (request_count f) + 1 < 2 ^ 64" and "hash m mod 100 < 10"
  shows "stats_ok hash (f\<lparr>request_count := request_count f + 1, stats := with_fault m (stats f)\<rparr>)"
proof -
  let ?s = "stats f"
  have le: "unat (faults_injected ?s) + 1 < 2 ^ 64" "unat (faults_injected ?s) \<le> unat (request_count f)"
    using assms(1,2) by (auto simp: stats_ok_def Let_def)
  then have nz: "faults_injected ?s + 1 \<noteq> 0" using unat_Suc [OF le(1)] by (metis add_is_0 one_neq_zero unat_0)
  have "unat (case faults_by_method ?s m of None \<Rightarrow> 0 | Some n \<Rightarrow> n) + 1 < 2 ^ 64"
    using method_count_le [OF assms(1), of m] le(1) by simp
  with assms(1) have "(\<Sum>k\<in>dom (bump m (faults_by_method ?s)). unat (the (bump m (faults_by_method ?s) k))) =
      unat (faults_injected ?s) + 1"
    by (simp add: sum_bump stats_ok_def Let_def)
  moreover have "dom (bump m (faults_by_method ?s)) = insert m (dom (faults_by_method ?s))" by (auto simp: bump_def)
  ultimately show ?thesis
    using assms le nz unat_Suc [OF le(1)] unat_Suc [OF assms(2)]
    by (simp add: stats_ok_def Let_def with_fault_def) (auto simp: bump_def)
qed

text \<open>What the injector does, by cases.\<close>

lemma inject_disabled:
  "\<not> fic_enabled (config (injector w)) \<Longrightarrow> should_inject_fault hash m w = (Inr None, w)"
  by (simp add: should_inject_fault_def return_io_def get_io_def bind_io_def)

lemma inject_saturated:
  assumes "fic_enabled (config (injector w))" and "\<not> unat (request_count (injector w)) + 1 < 2 ^ 64"
  shows "should_inject_fault hash m w = (panic ''attempt to add with overflow'', w)"
  using assms by (simp add: should_inject_fault_def count_up_def bind_io_def get_io_def lift_io_def add_chk_def)

lemma inject_none:
  assumes "fic_enabled (config (injector w))" and "unat (request_count (injector w)) + 1 < 2 ^ 64"
    and "\<not> hash m mod 100 < 10"
  shows "should_inject_fault hash m w =
    (Inr None, w\<lparr>injector := (injector w)\<lparr>request_count := request_count (injector w) + 1\<rparr>\<rparr>)"
  using assms by (simp add: should_inject_fault_def count_up_def bind_io_def get_io_def lift_io_def add_chk_def
      modify_io_def return_io_def)

lemma record_fault_ok:
  assumes "stats_ok hash f" and "unat (faults_injected (stats f)) + 1 < 2 ^ 64" and "injector w = f"
  shows "record_fault Delay m w = (Inr (), w\<lparr>injector := f\<lparr>stats := with_fault m (stats f)\<rparr>\<rparr>)"
proof -
  have "unat (case faults_by_method (stats f) m of None \<Rightarrow> 0 | Some n \<Rightarrow> n) + 1 < 2 ^ 64"
    using method_count_le [OF assms(1), of m] assms(2) by simp
  moreover have "unat (case faults_by_type (stats f) ''Delay'' of None \<Rightarrow> 0 | Some n \<Rightarrow> n) + 1 < 2 ^ 64"
    using assms(1,2) by (simp add: stats_ok_def Let_def)
  ultimately show ?thesis
    using assms by (simp add: record_fault_def count_up_def bind_io_def get_io_def lift_io_def add_chk_def
        modify_io_def incr_entry_def stats_ok_def Let_def with_fault_def bump_def)
qed

lemma inject_fault:
  assumes "stats_ok hash (injector w)" and "faulty hash (injector w) m"
    and "unat (request_count (injector w)) + 1 < 2 ^ 64"
  shows "should_inject_fault hash m w = (Inr (Some fault_response), w\<lparr>slept := slept w @ [100],
    injector := (injector w)\<lparr>request_count := request_count (injector w) + 1, stats := with_fault m (stats (injector w))\<rparr>\<rparr>)"
proof -
  let ?f = "(injector w)\<lparr>request_count := request_count (injector w) + 1\<rparr>"
  have le: "unat (faults_injected (stats (injector w))) \<le> unat (request_count (injector w))"
    using assms(1) by (simp add: stats_ok_def Let_def)
  have ok: "stats_ok hash ?f" using assms(1,3) le unat_Suc [OF assms(3)] by (simp add: stats_ok_def Let_def)
  have "unat (faults_injected (stats ?f)) + 1 < 2 ^ 64" using le assms(3) by simp
  note r = record_fault_ok [OF ok this, of "w\<lparr>injector := ?f\<rparr>" m]
  have c: "count_up request_count (\<lambda>n. add_chk n 1) (\<lambda>n f. f\<lparr>request_count := n\<rparr>) w = (Inr (), w\<lparr>injector := ?f\<rparr>)"
    using assms(3) by (simp add: count_up_def bind_io_def get_io_def lift_io_def add_chk_def modify_io_def)
  show ?thesis
    using assms(2) by (simp add: should_inject_fault_def bind_io_def get_io_def faulty_def c r sleep_ms_def
        modify_io_def return_io_def)
qed

text \<open>The injector is not faulty for a method, or is faulty, or its counter is saturated.\<close>

lemma inject_cases:
  assumes "stats_ok hash (injector w)"
  obtains (saturated) "(should_inject_fault hash m w :: ('e, Response option) result \<times> _) = (panic ''attempt to add with overflow'', w)"
  | (pass) n where "(should_inject_fault hash m w :: ('e, Response option) result \<times> _) = (Inr None, w\<lparr>injector := (injector w)\<lparr>request_count := n\<rparr>\<rparr>)"
      "unat (request_count (injector w)) \<le> unat n" "\<not> faulty hash (injector w) m"
  | (fault) "(should_inject_fault hash m w :: ('e, Response option) result \<times> _) = (Inr (Some fault_response), w\<lparr>slept := slept w @ [100],
      injector := (injector w)\<lparr>request_count := request_count (injector w) + 1, stats := with_fault m (stats (injector w))\<rparr>\<rparr>)"
      "faulty hash (injector w) m" "unat (request_count (injector w)) + 1 < 2 ^ 64"
proof (cases "fic_enabled (config (injector w))")
  case False
  show ?thesis
    by (rule pass [of "request_count (injector w)"]) (use False in \<open>simp_all add: inject_disabled faulty_def\<close>)
next
  case True
  show ?thesis
  proof (cases "unat (request_count (injector w)) + 1 < 2 ^ 64")
    case False
    then show ?thesis using inject_saturated [OF True] saturated by blast
  next
    case c: True
    show ?thesis
    proof (cases "hash m mod 100 < 10")
      case True
      with c \<open>fic_enabled _\<close> have "faulty hash (injector w) m" by (simp add: faulty_def)
      from fault [OF inject_fault [OF assms this c] this c] show ?thesis .
    next
      case False
      show ?thesis
        using pass [OF inject_none [of w hash m]] True c False unat_Suc [OF c] \<open>fic_enabled _\<close> by (simp add: faulty_def)
    qed
  qed
qed

section \<open>Every run of the server\<close>

text \<open>The requests a service handles, each in a task of its own, so that a panic ends only its task.\<close>

fun serve :: "('w, 'e) service \<Rightarrow> Request list \<Rightarrow> 'w \<Rightarrow> 'w" where
  "serve svc [] w = w"
| "serve svc (req # reqs) w = serve svc reqs (snd (svc req w))"

definition keeps_ok :: "(string \<Rightarrow> u64) \<Rightarrow> (('r, 'x) fault_world_scheme, 'e, 'a) io \<Rightarrow> bool" where
  "keeps_ok hash f \<longleftrightarrow> keeps (\<lambda>f g. stats_ok hash f \<longrightarrow> stats_ok hash g) injector f"

lemma implies_star: "(\<lambda>f g. P f \<longrightarrow> P g)\<^sup>*\<^sup>* f g \<Longrightarrow> P f \<Longrightarrow> P g"
  by (induction rule: rtranclp_induct) auto

lemma keeps_okD: "keeps_ok hash f \<Longrightarrow> f w = (r, w') \<Longrightarrow> stats_ok hash (injector w) \<Longrightarrow> stats_ok hash (injector w')"
  unfolding keeps_ok_def by (drule keepsD, assumption) (rule implies_star)

lemma keeps_ok_same: "(\<And>w. injector (snd (f w)) = injector w) \<Longrightarrow> keeps_ok hash f"
  unfolding keeps_ok_def by (rule keeps_same)

lemma keeps_ok_bind: "keeps_ok hash f \<Longrightarrow> (\<And>x. keeps_ok hash (g x)) \<Longrightarrow> keeps_ok hash (bind_io f g)"
  unfolding keeps_ok_def by (rule keeps_bind)

lemma keeps_ok_io [simp]: "keeps_ok hash (return_io x)" "keeps_ok hash get_io" "keeps_ok hash (increment n l)"
    "keeps_ok hash (send L url hs b)"
  by (rule keeps_ok_same; simp add: increment_def send_def modify_io_def split: prod.split)+

lemma stats_ok_count:
  "stats_ok hash f \<Longrightarrow> unat (request_count f) \<le> unat n \<Longrightarrow> stats_ok hash (f\<lparr>request_count := n\<rparr>)"
  by (simp add: stats_ok_def Let_def)

lemma keeps_ok_inject: "keeps_ok hash (should_inject_fault hash m)"
  unfolding keeps_ok_def keeps_def
proof (intro allI impI)
  fix w :: "('a, 'b) fault_world_scheme" and r :: "('c, Response option) result" and w'
  assume run: "should_inject_fault hash m w = (r, w')"
  have "stats_ok hash (injector w) \<longrightarrow> stats_ok hash (injector w')"
  proof
    assume ok: "stats_ok hash (injector w)"
    from ok show "stats_ok hash (injector w')"
    proof (cases rule: inject_cases [where m = m and 'e = 'c])
      case saturated
      with run ok show ?thesis by simp
    next
      case (pass n)
      with run ok show ?thesis by (auto intro: stats_ok_count)
    next
      case fault
      from stats_ok_fault [OF ok fault(3)] fault(2) have
        "stats_ok hash ((injector w)\<lparr>request_count := request_count (injector w) + 1, stats := with_fault m (stats (injector w))\<rparr>)"
        by (simp add: faulty_def)
      with fault(1) run show ?thesis by auto
    qed
  qed
  then show "(\<lambda>f g. stats_ok hash f \<longrightarrow> stats_ok hash g)\<^sup>*\<^sup>* (injector w) (injector w')" by blast
qed

lemma keeps_ok_metrics [simp]: "keeps_ok hash (increment_error e)" "keeps_ok hash (increment_success m)"
    "keeps_ok hash (increment_fault_injected m)"
  by (auto simp: increment_error_def increment_success_def increment_method_counter_def increment_fault_injected_def
      intro!: keeps_ok_bind)

lemma keeps_ok_forward [simp]: "keeps_ok hash (forward_request L cfg b hs)"
  unfolding forward_request_def by (auto intro!: keeps_ok_bind simp: Let_def split: option.split)

lemma keeps_ok_routes: "keeps_ok (default_hash L) (ProxyServer_routes L cfg req)"
  unfolding ProxyServer_routes_def json_rpc_handler_def engine_api_handler_def health_handler_def metrics_handler_def
  by (auto intro!: keeps_ok_bind keeps_ok_inject simp: Let_def split: option.split sum.split)

lemma keeps_ok_layer:
  "(\<And>req. keeps_ok (default_hash L) (inner req)) \<Longrightarrow> keeps_ok (default_hash L) (FaultInjectionService_call L h inner req)"
  unfolding FaultInjectionService_call_def
  by (auto intro!: keeps_ok_bind keeps_ok_inject simp: Let_def split: option.split sum.split)

lemma keeps_ok_router: "keeps_ok (default_hash L) (ProxyServer_router L cfg req)"
  unfolding ProxyServer_router_def cors_layer_def
  by (auto intro!: keeps_ok_bind keeps_ok_layer keeps_ok_routes split: option.split)

lemma keeps_ok_proxy: "keeps_ok (default_hash L) (handle_engine_api L proxy req)"
  unfolding handle_engine_api_def lib_forward_request_def
  by (auto intro!: keeps_ok_bind keeps_ok_inject simp: Let_def split: option.split)

lemma serve_keeps:
  assumes "\<And>req. keeps_ok hash (svc req)" and "stats_ok hash (injector w)"
  shows "stats_ok hash (injector (serve svc reqs w))"
  using assms(2)
proof (induction reqs arbitrary: w)
  case (Cons req reqs)
  have "svc req w = (fst (svc req w), snd (svc req w))" by simp
  from keeps_okD [OF assms(1) this Cons.prems] show ?case by (simp add: Cons.IH)
qed simp

text \<open>The statistics of the injector agree with each other in every run of either proxy, also one in
  which tasks panic: as many faults in total, for the only type and over the methods, none of them
  for a request not counted, and only for methods whose hash is in the range.\<close>

theorem fault_stats_consistent:
  assumes "injector w = FaultInjector_new c"
  shows "stats_ok (default_hash L) (injector (serve (ProxyServer_router L cfg :: (_, 'e) service) reqs w)) \<and>
    stats_ok (default_hash L) (injector (serve (handle_engine_api L proxy :: (_, 'e) service) reqs w))"
  using assms by (simp add: serve_keeps keeps_ok_router keeps_ok_proxy stats_ok_new)

section \<open>Transparency\<close>

text \<open>A call that both parsers of the server read alike: its JSON, and the method it names.\<close>

definition call_of :: "('u, 'y) proxy_lib_scheme \<Rightarrow> Request \<Rightarrow> bytes \<Rightarrow> string \<Rightarrow> bool" where
  "call_of L req b m \<longleftrightarrow> verb req = ''POST'' \<and> cors_preflight L req = None \<and> req_body req = Some b \<and>
     map_option method_of (json_parse L b) = Some m \<and>
     (\<forall>r. request_from_slice L b = Some r \<longrightarrow> erq_method r = m)"

text \<open>Room for the two times the injector may be asked.\<close>

definition unsaturated :: "FaultInjector \<Rightarrow> bool" where
  "unsaturated f \<longleftrightarrow> unat (request_count f) + 2 < 2 ^ 64"

lemma pass_through:
  assumes "\<not> faulty hash (injector w) m" and "unat (request_count (injector w)) + k < 2 ^ 64" and "0 < k"
  shows "\<exists>n. (should_inject_fault hash m w :: ('e, Response option) result \<times> _) = (Inr None, w\<lparr>injector := (injector w)\<lparr>request_count := n\<rparr>\<rparr>) \<and>
    unat n \<le> unat (request_count (injector w)) + 1"
proof (cases "fic_enabled (config (injector w))")
  case True
  from assms(2,3) have c: "unat (request_count (injector w)) + 1 < 2 ^ 64" by linarith
  with assms(1) True have "\<not> hash m mod 100 < 10" by (simp add: faulty_def)
  from inject_none [of w hash m, OF True c this] unat_Suc [OF c] show ?thesis by auto
next
  case False
  then show ?thesis by (intro exI [of _ "request_count (injector w)"]) (simp add: inject_disabled)
qed

lemma layer_passes:
  fixes inner :: "(('r, 'u, 'x) proxy_world_scheme, 'e) service"
  assumes "call_of L req b m" and "\<not> faulty (default_hash L) (injector w) m" and "unsaturated (injector w)"
  shows "\<exists>n. FaultInjectionService_call L h inner req w = inner req (w\<lparr>injector := (injector w)\<lparr>request_count := n\<rparr>\<rparr>) \<and>
    unat n + 1 < 2 ^ 64"
proof -
  from assms(3) have c: "unat (request_count (injector w)) + 2 < 2 ^ 64" by (simp add: unsaturated_def)
  from pass_through [OF assms(2) c] obtain n where n:
    "(should_inject_fault (default_hash L) m w :: ('e, Response option) result \<times> _) = (Inr None, w\<lparr>injector := (injector w)\<lparr>request_count := n\<rparr>\<rparr>)"
    "unat n \<le> unat (request_count (injector w)) + 1"
    by auto
  have req: "req\<lparr>req_body := Some b\<rparr> = req" using assms(1) by (simp add: call_of_def)
  have same: "w\<lparr>injector := (injector w)\<lparr>request_count := request_count (injector w)\<rparr>\<rparr> = w" by simp
  show ?thesis
  proof (cases "\<exists>r. request_from_slice L b = Some r \<and> is_engine_api_method h (erq_method r)")
    case True
    with assms(1) n have "FaultInjectionService_call L h inner req w =
        inner req (w\<lparr>injector := (injector w)\<lparr>request_count := n\<rparr>\<rparr>)"
      by (auto simp: req FaultInjectionService_call_def call_of_def parse_request_def bind_io_def)
    moreover from n(2) c have "unat n + 1 < 2 ^ 64" by linarith
    ultimately show ?thesis by blast
  next
    case False
    with assms(1) have "FaultInjectionService_call L h inner req w = inner req w"
      by (cases "request_from_slice L b") (auto simp: req FaultInjectionService_call_def call_of_def parse_request_def)
    with same c show ?thesis by (intro exI [of _ "request_count (injector w)"]) simp
  qed
qed

text \<open>What the client of the server gets for the upstream's answer.\<close>

fun relayed :: "('u, 'y) proxy_lib_scheme \<Rightarrow> (nat \<times> Body) option \<Rightarrow> Response" where
  "relayed L (Some (code, Some body)) = json_response (if 100 \<le> code \<and> code < 1000 then code else 500) body"
| "relayed L (Some (code, None)) = create_error_response L 502 ''Failed to read upstream response'' None"
| "relayed L None = create_error_response L 502 ''Upstream request failed'' None"

lemma forward_relays:
  assumes "http_send L (pc_upstream_url cfg) (forwarded_headers L hs) b (upstream w) = (answer, u)"
  shows "\<exists>r. forward_request L cfg b hs w = (Inr r, w\<lparr>upstream := u\<rparr>) \<and>
    (case r of Inl x \<Rightarrow> x | Inr x \<Rightarrow> x) = relayed L answer"
  using assms
  by (auto simp: forward_request_def send_def bind_io_def return_io_def status_from_u16_def Let_def
      split: option.split prod.split)

definition quiet_step :: "('r, 'u, 'x) proxy_world_scheme \<Rightarrow> 'u \<Rightarrow> ('r, 'u, 'x) proxy_world_scheme \<Rightarrow> bool" where
  "quiet_step w u w' \<longleftrightarrow> upstream w' = u \<and> slept w' = slept w \<and> stats (injector w') = stats (injector w)"

lemma engine_api_passes:
  assumes "call_of L req b m"
    and "http_send L (pc_upstream_url cfg) (forwarded_headers L (req_headers req)) b (upstream w) = (answer, u)"
  shows "\<exists>w'. (engine_api_handler L cfg req w :: ('e, Response) result \<times> _) = (Inr (relayed L answer), w') \<and>
    quiet_step w u w'"
proof -
  obtain w1 where c: "(increment_success m w :: ('e, unit) result \<times> _) = (Inr (), w1)" "quiet_step w (upstream w) w1"
    by (auto simp: increment_success_def increment_method_counter_def increment_def bind_io_def modify_io_def quiet_step_def)
  with assms(2) have "http_send L (pc_upstream_url cfg) (forwarded_headers L (req_headers req)) b (upstream w1) = (answer, u)"
    by (simp add: quiet_step_def)
  from forward_relays [OF this] obtain r where r:
    "(forward_request L cfg b (req_headers req) w1 :: ('e, _) result \<times> _) = (Inr r, w1\<lparr>upstream := u\<rparr>)"
    "(case r of Inl x \<Rightarrow> x | Inr x \<Rightarrow> x) = relayed L answer"
    by blast
  with c assms(1) show ?thesis
    by (cases r) (auto simp: engine_api_handler_def extract_body_def call_of_def bind_io_def return_io_def Let_def
        increment_error_def increment_def modify_io_def quiet_step_def)
qed

lemma json_rpc_passes:
  assumes "call_of L req b m" and "\<not> faulty (default_hash L) (injector w) m"
    and "unat (request_count (injector w)) + 1 < 2 ^ 64"
    and "http_send L (pc_upstream_url cfg) (forwarded_headers L (req_headers req)) b (upstream w) = (answer, u)"
  shows "\<exists>w'. (json_rpc_handler L cfg req w :: ('e, Response) result \<times> _) = (Inr (relayed L answer), w') \<and>
    quiet_step w u w'"
proof -
  obtain n where n: "(should_inject_fault (default_hash L) m w :: ('e, Response option) result \<times> _) =
      (Inr None, w\<lparr>injector := (injector w)\<lparr>request_count := n\<rparr>\<rparr>)"
    using pass_through [OF assms(2,3)] by auto
  let ?w = "w\<lparr>injector := (injector w)\<lparr>request_count := n\<rparr>\<rparr>"
  from assms(4) have "http_send L (pc_upstream_url cfg) (forwarded_headers L (req_headers req)) b (upstream ?w) = (answer, u)"
    by simp
  from forward_relays [OF this] obtain r where r:
    "(forward_request L cfg b (req_headers req) ?w :: ('e, _) result \<times> _) = (Inr r, ?w\<lparr>upstream := u\<rparr>)"
    "(case r of Inl x \<Rightarrow> x | Inr x \<Rightarrow> x) = relayed L answer"
    by blast
  with n assms(1) show ?thesis
    by (cases r) (auto simp: json_rpc_handler_def extract_body_def call_of_def bind_io_def return_io_def Let_def
        increment_error_def increment_success_def increment_method_counter_def increment_def modify_io_def quiet_step_def)
qed

text \<open>C35: the proxy is transparent for every call that its injector does not choose: the call is sent
  upstream once, with its body unchanged and its headers but for host, length and encoding, and what
  the client gets back has the status and body of the upstream's answer, or is a 502 error when there
  is none; nothing is delayed and no fault is counted.\<close>

theorem proxy_transparent:
  assumes "call_of L req b m" and "path req = ''/'' \<or> path req = ''/engine''"
    and "\<not> faulty (default_hash L) (injector w) m" and "unsaturated (injector w)"
    and "http_send L (pc_upstream_url cfg) (forwarded_headers L (req_headers req)) b (upstream w) = (answer, u)"
  shows "\<exists>w'. (ProxyServer_router L cfg req w :: ('e, Response) result \<times> _) =
      (Inr (cors_headers L req (relayed L answer)), w') \<and>
    upstream w' = u \<and> slept w' = slept w \<and> stats (injector w') = stats (injector w)"
proof -
  let ?svc = "ProxyServer_routes L cfg :: (_, 'e) service"
  obtain n where n: "FaultInjectionService_call L EngineApiHandler_new ?svc req w =
      ?svc req (w\<lparr>injector := (injector w)\<lparr>request_count := n\<rparr>\<rparr>)" "unat n + 1 < 2 ^ 64"
    using layer_passes [OF assms(1,3,4), of EngineApiHandler_new ?svc] by blast
  let ?w = "w\<lparr>injector := (injector w)\<lparr>request_count := n\<rparr>\<rparr>"
  have w: "\<not> faulty (default_hash L) (injector ?w) m" "unat (request_count (injector ?w)) + 1 < 2 ^ 64"
      "http_send L (pc_upstream_url cfg) (forwarded_headers L (req_headers req)) b (upstream ?w) = (answer, u)"
    using assms(3,5) n(2) by (simp_all add: faulty_def)
  have "\<exists>w'. ?svc req ?w = (Inr (relayed L answer), w') \<and> quiet_step ?w u w'"
    using assms(1,2) json_rpc_passes [OF assms(1) w] engine_api_passes [OF assms(1) w(3)]
    by (auto simp: ProxyServer_routes_def call_of_def)
  then obtain w' where "?svc req ?w = (Inr (relayed L answer), w')" "quiet_step ?w u w'" by blast
  with n(1) assms(1) show ?thesis
    by (simp add: ProxyServer_router_def cors_layer_def call_of_def bind_io_def return_io_def quiet_step_def)
qed

text \<open>C36: the fault injection is a fixed choice of methods: an Engine API call whose method the enabled
  injector chooses, by its hash alone and not by the probability or the scenarios configured, is
  answered by the fault after 100 ms, at every time and on both routes; it is never sent upstream, and
  it appears in no counter of the server.\<close>

theorem fault_choice_fixed:
  assumes "call_of L req b m" and "request_from_slice L b = Some r" and "is_engine_api_method h m"
    and "faulty (default_hash L) (injector w) m" and "unsaturated (injector w)"
    and "stats_ok (default_hash L) (injector w)"
  shows "\<exists>w'. (ProxyServer_router L cfg req w :: ('e, Response) result \<times> _) =
      (Inr (cors_headers L req fault_response), w') \<and>
    upstream w' = upstream w \<and> counters w' = counters w \<and> slept w' = slept w @ [100] \<and>
    stats (injector w') = with_fault m (stats (injector w))"
proof -
  have c: "unat (request_count (injector w)) + 1 < 2 ^ 64" using assms(5) by (simp add: unsaturated_def)
  have m: "erq_method r = m" using assms(1,2) by (simp add: call_of_def)
  have e: "is_engine_api_method EngineApiHandler_new m" using assms(3) by (simp add: is_engine_api_method_def)
  note i = inject_fault [OF assms(6,4) c]
  show ?thesis
    using assms(1,2) m e by (simp add: ProxyServer_router_def cors_layer_def call_of_def
        FaultInjectionService_call_def parse_request_def bind_io_def i return_io_def)
qed

end
