(* ===== verification/Middleware_Correct.thy ===== *)
theory Middleware_Correct
  imports Middleware
begin

text \<open>
  How far the layers of \<open>middleware.rs\<close> may change what they handle: the bounds of a delay, and of the
  damage done to a response.
\<close>

section \<open>Delays\<close>

lemma sint_of_int_i64: "in_i64 k \<Longrightarrow> sint (of_int k :: i64) = k"
  by (simp add: in_i64_def signed_of_int signed_take_bit_int_eq_self)

lemma sint_small: "unat (w :: u64) < 2 ^ 63 \<Longrightarrow> sint w = int (unat w)"
proof -
  assume s: "unat w < 2 ^ 63"
  from s have "int (unat w) < int (2 ^ 63)" unfolding of_nat_less_iff .
  then have "in_i64 (int (unat w))" by (simp add: in_i64_def order_trans [OF _ uint_ge_0])
  from sint_of_int_i64 [OF this] show ?thesis by simp
qed

lemma sint_large: "2 ^ 63 \<le> unat (w :: u64) \<Longrightarrow> sint w < 0"
proof -
  assume l: "2 ^ 63 \<le> unat w"
  have "(of_int (int (unat w) - 2 ^ 64) :: i64) = of_int (int (unat w)) - of_int (2 ^ 64)" by (rule of_int_diff)
  also have "\<dots> = w" by simp
  finally have w: "of_int (int (unat w) - 2 ^ 64) = w" .
  from l have "int (2 ^ 63) \<le> int (unat w)" unfolding of_nat_le_iff .
  moreover from unat_u64_less [of w] have "int (unat w) < int (2 ^ 64)" unfolding of_nat_less_iff .
  ultimately have b: "2 ^ 63 \<le> int (unat w)" "int (unat w) < 2 ^ 64" by simp_all
  then have "in_i64 (int (unat w) - 2 ^ 64)" by (simp add: in_i64_def)
  with w have "sint w = int (unat w) - 2 ^ 64" using sint_of_int_i64 by metis
  with b show ?thesis by linarith
qed

lemma neg_i64_cases:
  "neg_i64 a = (if in_i64 (- sint a) then Inr (of_int (- sint a)) else panic ''attempt to negate with overflow'')"
  by (simp add: neg_i64_def)

lemma add_i64_cases:
  "add_i64 a b = (if in_i64 (sint a + sint b) then Inr (of_int (sint a + sint b)) else panic ''attempt to add with overflow'')"
  by (simp add: add_i64_def)

lemma random_rangeD:
  "random_laws R \<Longrightarrow> sint lo \<le> sint hi \<Longrightarrow> sint lo \<le> sint (fst (rand_range R lo hi r))"
  "random_laws R \<Longrightarrow> sint lo \<le> sint hi \<Longrightarrow> sint (fst (rand_range R lo hi r)) \<le> sint hi"
  by (simp_all add: random_laws_def)

lemma unat_of_int_i64: "0 \<le> k \<Longrightarrow> k < 2 ^ 63 \<Longrightarrow> int (unat (of_int k :: u64)) = k"
  by (simp add: unsigned_of_int take_bit_int_eq_self)

lemma actual_delay_ok:
  assumes "random_laws R" and "unat (delay_ms d) + unat (variance_ms d) < 2 ^ 63"
  shows "\<exists>ms r. (actual_delay R d w :: ('e, u64) result \<times> _) = (Inr ms, w\<lparr>rng := r\<rparr>) \<and>
    unat (delay_ms d) - unat (variance_ms d) \<le> unat ms \<and> unat ms \<le> unat (delay_ms d) + unat (variance_ms d)"
proof (cases "0 < variance_ms d")
  case False
  then have "variance_ms d = 0" by (simp add: word_greater_zero_iff)
  moreover have "w = w\<lparr>rng := rng w\<rparr>" by simp
  ultimately show ?thesis
    by (intro exI [of _ "delay_ms d"] exI [of _ "rng w"]) (simp add: actual_delay_def return_io_def)
next
  case True
  let ?d = "int (unat (delay_ms d))" and ?v = "int (unat (variance_ms d))"
  have s: "sint (variance_ms d) = ?v" "sint (delay_ms d) = ?d" using assms(2) by (simp_all add: sint_small)
  from assms(2) have "int (unat (delay_ms d) + unat (variance_ms d)) < int (2 ^ 63)" unfolding of_nat_less_iff .
  then have b: "?d + ?v < 2 ^ 63" "0 \<le> ?d" "0 \<le> ?v" by simp_all
  have lo: "sint (of_int (- ?v) :: i64) = - ?v" using b by (intro sint_of_int_i64) (unfold in_i64_def, intro conjI, linarith+)
  let ?o = "fst (rand_range R (of_int (- ?v)) (variance_ms d) (rng w))"
  have o: "- ?v \<le> sint ?o" "sint ?o \<le> ?v"
    using random_rangeD [OF assms(1), of "of_int (- ?v)" "variance_ms d" "rng w"] lo s(1) by simp_all
  let ?x = "?d + sint ?o"
  have x: "in_i64 ?x" using o b unfolding in_i64_def by (intro conjI) linarith+
  have sx: "sint (delay_ms d + ?o) = ?x" using sint_of_int_i64 [OF x] by simp
  have "in_i64 (- ?v)" using b unfolding in_i64_def by (intro conjI) linarith+
  then have "actual_delay R d w = (Inr (if ?x < 0 then 0 else of_int ?x) :: ('e, u64) result,
      w\<lparr>rng := snd (rand_range R (of_int (- ?v)) (variance_ms d) (rng w))\<rparr>)"
    using True x lo s sx by (simp add: actual_delay_def Let_def bind_io_def lift_io_def neg_i64_cases gen_range_def
        assert_that_def draw_apply add_i64_cases sint_of_int_i64 return_io_def)
  moreover obtain ms :: u64 where ms: "ms = (if ?x < 0 then 0 else of_int ?x)" by blast
  have "int (unat ms) = max 0 ?x"
  proof (cases "?x < 0")
    case False
    with x have "int (unat (of_int ?x :: u64)) = ?x" by (intro unat_of_int_i64) (auto simp: in_i64_def)
    moreover have "ms = of_int ?x" unfolding ms by (rule if_not_P [OF False])
    ultimately have "int (unat ms) = ?x" by (rule ssubst [rotated])
    with False show ?thesis by linarith
  qed (simp add: ms)
  with o b have "?d - ?v \<le> int (unat ms)" "int (unat ms) \<le> ?d + ?v" by linarith+
  then have "unat (delay_ms d) - unat (variance_ms d) \<le> unat ms" "unat ms \<le> unat (delay_ms d) + unat (variance_ms d)"
    by linarith+
  ultimately show ?thesis using ms by blast
qed

lemma actual_delay_panics:
  assumes "2 ^ 63 \<le> unat (variance_ms d)"
  shows "panics (fst (actual_delay R d w :: ('e, u64) result \<times> _))"
proof -
  have neg: "sint (variance_ms d) < 0" using sint_large [OF assms] .
  have pos: "0 < variance_ms d" using assms by (simp add: word_greater_zero_iff) (metis assms not_numeral_le_zero unsigned_0 zero_less_numeral power_eq_0_iff le_0_eq)
  show ?thesis
  proof (cases "in_i64 (- sint (variance_ms d))")
    case True
    have "sint (- variance_ms d) = - sint (variance_ms d)" using sint_of_int_i64 [OF True] by simp
    with neg pos True show ?thesis by (simp add: actual_delay_def Let_def bind_io_def lift_io_def neg_i64_def
        gen_range_def assert_that_def)
  next
    case False
    with pos show ?thesis by (simp add: actual_delay_def Let_def bind_io_def lift_io_def neg_i64_cases)
  qed
qed

text \<open>The delay layer waits at least the delay less the variance and at most the two together, then
  calls the inner service once with the same request; a variance of 2^63 ms or more panics.\<close>

theorem delay_within_variance:
  assumes "random_laws R"
  shows "(unat (delay_ms d) + unat (variance_ms d) < 2 ^ 63 \<longrightarrow>
      (\<exists>ms w1. DelayService_call R d inner req w = (inner req w1 :: ('e, Response) result \<times> _) \<and>
        slept w1 = slept w @ (if ms = 0 then [] else [ms]) \<and>
        unat (delay_ms d) - unat (variance_ms d) \<le> unat ms \<and>
        unat ms \<le> unat (delay_ms d) + unat (variance_ms d))) \<and>
    (2 ^ 63 \<le> unat (variance_ms d) \<longrightarrow> panics (fst (DelayService_call R d inner req w :: ('e, Response) result \<times> _)))"
proof (intro conjI impI)
  assume "unat (delay_ms d) + unat (variance_ms d) < 2 ^ 63"
  from actual_delay_ok [OF assms this, of w] obtain ms r where a:
    "(actual_delay R d w :: ('e, u64) result \<times> _) = (Inr ms, w\<lparr>rng := r\<rparr>)"
    "unat (delay_ms d) - unat (variance_ms d) \<le> unat ms" "unat ms \<le> unat (delay_ms d) + unat (variance_ms d)"
    by blast
  let ?w1 = "w\<lparr>rng := r, slept := slept w @ (if ms = 0 then [] else [ms])\<rparr>"
  have "DelayService_call R d inner req w = inner req ?w1"
    using a(1) by (simp add: DelayService_call_def bind_io_def sleep_ms_def modify_io_def return_io_def word_greater_zero_iff)
  with a(2,3) show "\<exists>ms w1. DelayService_call R d inner req w = inner req w1 \<and>
      slept w1 = slept w @ (if ms = 0 then [] else [ms]) \<and>
      unat (delay_ms d) - unat (variance_ms d) \<le> unat ms \<and> unat ms \<le> unat (delay_ms d) + unat (variance_ms d)"
    by (intro exI [of _ ms] exI [of _ ?w1]) simp
next
  assume "2 ^ 63 \<le> unat (variance_ms d)"
  from actual_delay_panics [OF this, of R w, where 'e = 'e]
  show "panics (fst (DelayService_call R d inner req w :: ('e, Response) result \<times> _))"
    by (auto simp: DelayService_call_def bind_io_def panics_def split: prod.splits sum.splits fault.splits)
qed

section \<open>Damage\<close>

text \<open>One round of each loop, as a function of what it draws.\<close>

definition put_byte :: "bytes \<Rightarrow> usize \<times> u8 \<Rightarrow> bytes" where
  "put_byte y d = y[unat (fst d) mod length y := snd d]"

definition put_flip :: "bytes \<Rightarrow> usize \<times> u8 \<Rightarrow> bytes" where
  "put_flip y d = (let i = unat (fst d) mod length y in y[i := flip_bit_of (snd d) (y ! i)])"

lemma length_put [simp]:
  "length (put_byte y d) = length y" "length (put_flip y d) = length y"
  "length (foldl put_byte y ds) = length y" "length (foldl put_flip y ds) = length y"
proof -
  show b: "length (put_byte y d) = length y" "length (put_flip y d) = length y" for y d
    by (simp_all add: put_byte_def put_flip_def Let_def)
  show "length (foldl put_byte y ds) = length y" "length (foldl put_flip y ds) = length y"
    by (induction ds arbitrary: y) (simp_all add: b)
qed

text \<open>A byte is the one drawn last for its place; a bit is flipped once for every draw that hits it.\<close>

lemma nth_put_byte:
  "j < length y \<Longrightarrow> foldl put_byte y ds ! j =
    (case find (\<lambda>d. unat (fst d) mod length y = j) (rev ds) of None \<Rightarrow> y ! j | Some d \<Rightarrow> snd d)"
  by (induction ds rule: rev_induct) (simp_all add: put_byte_def nth_list_update)

lemma bit_flip: "bit (flip_bit_of k b) n \<longleftrightarrow> (bit b n \<noteq> (n = unat (k mod 8)))"
proof -
  have "unat (k mod 8) < 8" by (simp add: unat_mod)
  then show ?thesis by (auto simp: flip_bit_of_def bit_simps)
qed

definition hits :: "bytes \<Rightarrow> nat \<Rightarrow> nat \<Rightarrow> usize \<times> u8 \<Rightarrow> bool" where
  "hits y j k d \<longleftrightarrow> unat (fst d) mod length y = j \<and> unat (snd d mod 8) = k"

lemma bit_put_flip:
  "j < length y \<Longrightarrow> bit (foldl put_flip y ds ! j) k \<longleftrightarrow> (bit (y ! j) k \<noteq> odd (length (filter (hits y j k) ds)))"
proof (induction ds rule: rev_induct)
  case (snoc d ds)
  let ?y = "foldl put_flip y ds"
  have "bit (put_flip ?y d ! j) k \<longleftrightarrow> (bit (?y ! j) k \<noteq> hits y j k d)"
  proof (cases "unat (fst d) mod length y = j")
    case True
    with snoc.prems have "put_flip ?y d ! j = flip_bit_of (snd d) (?y ! j)" by (simp add: put_flip_def)
    with True show ?thesis by (simp only: bit_flip hits_def) blast
  next
    case False
    then show ?thesis by (simp add: put_flip_def Let_def hits_def)
  qed
  with snoc show ?case by (cases "hits y j k d") simp_all
qed simp

lemma differ_put_byte: "card (differ y (foldl put_byte y ds)) \<le> length ds"
proof -
  have "differ y (foldl put_byte y ds) \<subseteq> set (map (\<lambda>d. unat (fst d) mod length y) ds)"
  proof
    fix j assume "j \<in> differ y (foldl put_byte y ds)"
    then have "find (\<lambda>d. unat (fst d) mod length y = j) (rev ds) \<noteq> None"
      by (cases "find (\<lambda>d. unat (fst d) mod length y = j) (rev ds)") (auto simp: differ_def nth_put_byte)
    then obtain d where "d \<in> set ds" "unat (fst d) mod length y = j" unfolding find_None_iff set_rev by blast
    then show "j \<in> set (map (\<lambda>d. unat (fst d) mod length y) ds)" by auto
  qed
  from card_mono [OF _ this] show ?thesis using card_length [of "map (\<lambda>d. unat (fst d) mod length y) ds"] by simp
qed

lemma differ_put_flip: "card (differ_bits y (foldl put_flip y ds)) \<le> length ds"
proof -
  let ?f = "\<lambda>d. (unat (fst d) mod length y, unat (snd d mod 8))"
  have "differ_bits y (foldl put_flip y ds) \<subseteq> set (map ?f ds)"
  proof clarify
    fix j k assume "(j, k) \<in> differ_bits y (foldl put_flip y ds)"
    then have "odd (length (filter (hits y j k) ds))" by (auto simp: differ_bits_def bit_put_flip)
    then have "filter (hits y j k) ds \<noteq> []" by auto
    then obtain d where "d \<in> set ds" "hits y j k d" by (auto simp: filter_empty_conv)
    then show "(j, k) \<in> set (map ?f ds)" by (auto simp: hits_def)
  qed
  from card_mono [OF _ this] show ?thesis using card_length [of "map ?f ds"] by simp
qed

lemma repeat_io_empty: "(\<And>w. f [] w = return_io [] w) \<Longrightarrow> repeat_io n f [] w = (Inr [], w)"
  by (induction n arbitrary: w) (simp_all add: bind_io_def return_io_def)

lemma corrupt_bytes_apply:
  "corrupt_bytes R b w = (let (ds, r) = draws R (if b = [] then 0 else max (length b div 20) 1) (rng w) in
    (Inr (foldl put_byte b ds), w\<lparr>rng := r\<rparr>))"
proof (cases "b = []")
  case True
  then show ?thesis using repeat_io_empty [of "corrupt_byte R"] by (simp add: corrupt_bytes_def corrupt_byte_def)
next
  case False
  then have "repeat_io n (corrupt_byte R) b w =
      (Inr (foldl put_byte b (fst (draws R n (rng w)))), w\<lparr>rng := snd (draws R n (rng w))\<rparr>)" for n
    by (intro repeat_io_draws [where P = "\<lambda>y. y \<noteq> []"])
      (simp_all add: corrupt_byte_def put_byte_def flip: length_greater_0_conv)
  from this [of "max (length b div 20) 1"] False show ?thesis
    by (simp add: corrupt_bytes_def case_prod_beta del: One_nat_def)
qed

lemma flip_bits_apply:
  "flip_random_bits R b w = (let (m, r0) = rand_u8 R (rng w);
      (ds, r) = draws R (if b = [] then 0 else unat (m mod 3) + 1) r0 in
    (Inr (foldl put_flip b ds), w\<lparr>rng := r\<rparr>))"
proof (cases "b = []")
  case True
  then show ?thesis using repeat_io_empty [of "flip_random_bit R"]
    by (simp add: flip_random_bits_def flip_random_bit_def bind_io_def draw_apply case_prod_beta
        del: repeat_io.simps)
next
  case False
  then have "repeat_io n (flip_random_bit R) b w =
      (Inr (foldl put_flip b (fst (draws R n (rng w)))), w\<lparr>rng := snd (draws R n (rng w))\<rparr>)" for n w
    by (intro repeat_io_draws [where P = "\<lambda>y. y \<noteq> []"])
      (simp_all add: flip_random_bit_def put_flip_def Let_def flip: length_greater_0_conv)
  note loop = this
  from False show ?thesis by (simp add: flip_random_bits_def bind_io_def draw_apply case_prod_beta loop
      del: repeat_io.simps draws.simps)
qed

lemma replace_member_object:
  assumes "utf8_valid b" and "json_parse J b = Some (JObject obj)" and "json_laws J"
    and "utf8_valid (bytes_of_string key)" and "utf8_valid (bytes_of_string s)"
  shows "\<exists>obj'. replace_member J key s b = json_text J (JObject obj') \<and> map_of obj' = (map_of obj)(key \<mapsto> JString s) \<and>
    (json_fits 127 (JObject obj) \<longrightarrow> json_parse J (replace_member J key s b) = Some (JObject obj'))"
proof -
  let ?o = "obj_insert key (JString s) obj"
  have z: "replace_member J key s b = json_text J (JObject ?o)"
    using assms(1,2) by (simp add: replace_member_def from_utf8_def)
  have "json_fits 127 (JObject ?o)" if "json_fits 127 (JObject obj)"
    using json_fits_insert [of 126 obj key "JString s"] that assms(4,5) by simp
  then show ?thesis using z json_lawsD [OF assms(3)] by (intro exI [of _ ?o]) simp
qed

text \<open>C37: corruption never touches the status or the headers of a response and never fails. Of a body that
  is not empty, random bytes: as many times as a twentieth of its length, at least once, a place and a
  byte are drawn, and each byte is then the one drawn last for its place, the others as before; flipped bits: one to
  three times a place and a bit are drawn, and a bit has changed just where it was drawn an odd number of times. So at most
  that many bytes or bits differ, and the length stays. Truncation keeps the first half of a body of
  more than ten bytes; a wrong id or method changes that member of a JSON object and no other, and a
  body that is not JSON stays as it is.\<close>

theorem corruption_bounded:
  assumes "json_laws J"
  shows "\<exists>z w'. (corrupt_response J R t response w :: ('e, Response) result \<times> _) =
      (Inr (response\<lparr>resp_body := Some z\<rparr>), w') \<and>
    (let b = read_or_default (resp_body response); n = length b in (case t of
        RandomByte \<Rightarrow> (let (ds, r) = draws R (if b = [] then 0 else max (n div 20) 1) (rng w) in
          w' = w\<lparr>rng := r\<rparr> \<and> length z = n \<and> card (differ b z) \<le> max (n div 20) 1 \<and>
          (\<forall>j<n. z ! j = (case find (\<lambda>d. unat (fst d) mod n = j) (rev ds) of None \<Rightarrow> b ! j | Some d \<Rightarrow> snd d)))
      | FlipBit \<Rightarrow> (let (m, r0) = rand_u8 R (rng w);
            (ds, r) = draws R (if b = [] then 0 else unat (m mod 3) + 1) r0 in
          w' = w\<lparr>rng := r\<rparr> \<and> length z = n \<and> card (differ_bits b z) \<le> 3 \<and>
          (\<forall>j<n. \<forall>k. bit (z ! j) k \<longleftrightarrow> (bit (b ! j) k \<noteq> odd (length (filter (\<lambda>d.
            unat (fst d) mod n = j \<and> unat (snd d mod 8) = k) ds)))))
      | TruncateResponse \<Rightarrow> w' = w \<and> z = take (if n > 10 then n div 2 else n) b
      | InvalidJson \<Rightarrow> w' = w \<and> z = bytes_of_string ''{invalid json''
      | WrongId \<Rightarrow> w' = w \<and> (\<not> utf8_valid b \<or> json_parse J b = None \<longrightarrow> z = b) \<and>
          (\<forall>obj. utf8_valid b \<and> json_parse J b = Some (JObject obj) \<longrightarrow> (\<exists>obj'. z = json_text J (JObject obj') \<and>
            map_of obj' = (map_of obj)(''id'' \<mapsto> JString ''wrong_id'') \<and>
            (json_fits 127 (JObject obj) \<longrightarrow> json_parse J z = Some (JObject obj'))))
      | WrongMethod \<Rightarrow> w' = w \<and> (\<not> utf8_valid b \<or> json_parse J b = None \<longrightarrow> z = b) \<and>
          (\<forall>obj. utf8_valid b \<and> json_parse J b = Some (JObject obj) \<longrightarrow> (\<exists>obj'. z = json_text J (JObject obj') \<and>
            map_of obj' = (map_of obj)(''method'' \<mapsto> JString ''wrong_method'') \<and>
            (json_fits 127 (JObject obj) \<longrightarrow> json_parse J z = Some (JObject obj'))))))"
proof -
  let ?b = "read_or_default (resp_body response)"
  note apply_defs = corrupt_response_def Let_def bind_io_def return_io_def
  have ascii: "utf8_valid (bytes_of_string s)" if "s \<in> {''id'', ''wrong_id'', ''method'', ''wrong_method''}" for s
    using that by (intro utf8_valid_ascii) (auto simp: bytes_of_string_def)
  have keep: "replace_member J key s ?b = ?b" if "\<not> utf8_valid ?b \<or> json_parse J ?b = None" for key s
    using that by (auto simp: replace_member_def from_utf8_def)
  show ?thesis
  proof (cases t)
    case RandomByte
    obtain ds r where d: "draws R (if ?b = [] then 0 else max (length ?b div 20) 1) (rng w) = (ds, r)" by fastforce
    then have "length ds \<le> max (length ?b div 20) 1"
      using length_draws [of R "if ?b = [] then 0 else max (length ?b div 20) 1" "rng w"] by (auto split: if_splits)
    then have "card (differ ?b (foldl put_byte ?b ds)) \<le> max (length ?b div 20) 1" using differ_put_byte le_trans by blast
    then show ?thesis unfolding RandomByte
      by (intro exI [of _ "foldl put_byte ?b ds"] exI [of _ "w\<lparr>rng := r\<rparr>"])
        (simp add: apply_defs corrupt_bytes_apply d nth_put_byte)
  next
    case FlipBit
    obtain m r0 where m: "rand_u8 R (rng w) = (m, r0)" by fastforce
    obtain ds r where d: "draws R (if ?b = [] then 0 else unat (m mod 3) + 1) r0 = (ds, r)" by fastforce
    have "unat (m mod 3) < 3" by (simp add: unat_mod)
    with d have "length ds \<le> 3"
      using length_draws [of R "if ?b = [] then 0 else unat (m mod 3) + 1" r0] by (auto split: if_splits)
    then have "card (differ_bits ?b (foldl put_flip ?b ds)) \<le> 3" using differ_put_flip le_trans by blast
    then show ?thesis unfolding FlipBit
      by (intro exI [of _ "foldl put_flip ?b ds"] exI [of _ "w\<lparr>rng := r\<rparr>"])
        (simp add: apply_defs flip_bits_apply m d bit_put_flip hits_def [abs_def])
  next
    case WrongId
    with keep replace_member_object [OF _ _ assms, of ?b _ "''id''" "''wrong_id''"] ascii show ?thesis
      by (intro exI [of _ "replace_member J ''id'' ''wrong_id'' ?b"] exI [of _ w]) (simp add: apply_defs)
  next
    case WrongMethod
    with keep replace_member_object [OF _ _ assms, of ?b _ "''method''" "''wrong_method''"] ascii show ?thesis
      by (intro exI [of _ "replace_member J ''method'' ''wrong_method'' ?b"] exI [of _ w]) (simp add: apply_defs)
  qed (auto simp: apply_defs)
qed

end
