(* ===== verification/Reference_Proxy.thy ===== *)
theory Reference_Proxy
  imports Proxy_Correct Middleware_Correct Reference_Libs
begin

text \<open>
  Concrete libraries for the proxy: a format for JSON values that is read back, an upstream that echoes
  what it is sent, a hash that is the length of the name, and random numbers that are a list; with
  them the witnesses of the properties of the proxy.
\<close>

section \<open>A format for JSON values\<close>

definition string_of_bytes :: "bytes \<Rightarrow> string" where
  "string_of_bytes bs = map (\<lambda>b. char_of (unat b)) bs"

lemma string_of_bytes_of_string [simp]: "string_of_bytes (bytes_of_string s) = s"
proof -
  have "char_of (unat (of_char c :: u8)) = c" for c
  proof -
    have "unat (of_nat (of_char c) :: u8) = of_char c" by (simp add: unsigned_of_nat take_bit_nat_eq_self del: of_nat_of_char)
    then have "unat (of_char c :: u8) = of_char c" by (simp only: of_nat_of_char)
    then show ?thesis by simp
  qed
  then show ?thesis by (simp add: string_of_bytes_def bytes_of_string_def o_def)
qed

definition ser_string :: "string ser" where
  "ser_string = ser_iso bytes_of_string string_of_bytes ser_bytes"

definition ser_int :: "int ser" where
  "ser_int = ser_iso (\<lambda>i. (i < 0, replicate (nat \<bar>i\<bar>) ()))
     (\<lambda>(neg, us). if neg then - int (length us) else int (length us)) (ser_pair ser_bool (ser_list ser_unit))"

lemma ser_ok_json_parts [ser_intros]: "ser_ok ser_string" "ser_ok ser_int"
  unfolding ser_string_def ser_int_def by (intro ser_intros; simp)+

fun put_json :: "JsonValue \<Rightarrow> bytes" and put_values :: "JsonValue list \<Rightarrow> bytes"
  and put_members :: "(string \<times> JsonValue) list \<Rightarrow> bytes" where
  "put_json JNull = [0]"
| "put_json (JBool b) = 1 # fst ser_bool b"
| "put_json (JInt i) = 2 # fst ser_int i"
| "put_json (JFloat x) = 3 # fst ser_word x"
| "put_json (JString s) = 4 # fst ser_string s"
| "put_json (JArray vs) = 5 # put_values vs"
| "put_json (JObject kvs) = 6 # put_members kvs"
| "put_values [] = [0]"
| "put_values (v # vs) = 1 # put_json v @ put_values vs"
| "put_members [] = [0]"
| "put_members ((k, v) # kvs) = 1 # fst ser_string k @ put_json v @ put_members kvs"

fun get_json :: "nat \<Rightarrow> bytes \<Rightarrow> (JsonValue \<times> bytes) option"
  and get_values :: "nat \<Rightarrow> bytes \<Rightarrow> (JsonValue list \<times> bytes) option"
  and get_members :: "nat \<Rightarrow> bytes \<Rightarrow> ((string \<times> JsonValue) list \<times> bytes) option" where
  "get_json (Suc n) (c # bs) =
     (if c = 0 then Some (JNull, bs)
      else if c = 1 then map_option (map_prod JBool id) (snd ser_bool bs)
      else if c = 2 then map_option (map_prod JInt id) (snd ser_int bs)
      else if c = 3 then map_option (map_prod JFloat id) (snd ser_word bs)
      else if c = 4 then map_option (map_prod JString id) (snd ser_string bs)
      else if c = 5 then map_option (map_prod JArray id) (get_values n bs)
      else if c = 6 then map_option (map_prod JObject id) (get_members n bs) else None)"
| "get_json _ _ = None"
| "get_values (Suc n) (c # bs) =
     (if c = 0 then Some ([], bs)
      else Option.bind (get_json n bs) (\<lambda>(v, r). map_option (map_prod (Cons v) id) (get_values n r)))"
| "get_values _ _ = None"
| "get_members (Suc n) (c # bs) =
     (if c = 0 then Some ([], bs)
      else Option.bind (snd ser_string bs) (\<lambda>(k, r). Option.bind (get_json n r) (\<lambda>(v, r).
        map_option (map_prod (Cons (k, v)) id) (get_members n r))))"
| "get_members _ _ = None"

lemma get_put_json:
  "length (put_json v) \<le> n \<Longrightarrow> get_json n (put_json v @ rest) = Some (v, rest)"
  "length (put_values vs) \<le> n \<Longrightarrow> get_values n (put_values vs @ rest) = Some (vs, rest)"
  "length (put_members kvs) \<le> n \<Longrightarrow> get_members n (put_members kvs @ rest) = Some (kvs, rest)"
proof (induction v and vs and kvs arbitrary: n rest and n rest and n rest rule: put_json_put_values_put_members.induct)
  case (9 v vs)
  then show ?case by (cases n) auto
next
  case (11 k v kvs)
  then show ?case by (cases n) (auto simp: ser_okD ser_ok_json_parts)
qed (case_tac n; simp add: ser_okD ser_ok_json_parts ser_ok_bool ser_ok_word)+

text \<open>The fuel is the length of the bytes.\<close>

definition std_json :: json_lib where
  "std_json = \<lparr>json_parse = \<lambda>bs. map_option fst (get_json (length bs) bs), json_text = put_json\<rparr>"

lemma std_parse_text: "json_parse std_json (put_json v) = Some v"
  using get_put_json(1) [of v _ "[]"] by (simp add: std_json_def)

lemma std_json_laws: "json_laws std_json"
  using std_parse_text by (simp add: json_laws_def std_json_def)

declare put_json.simps [simp del]

section \<open>A proxy\<close>

text \<open>The upstream keeps the bodies it was sent and answers 200 with the body, or nothing to an empty
  body; methods with an even number of characters hash to 4, the others to 15.\<close>

definition echo_lib :: "bytes list proxy_lib" where
  "echo_lib = \<lparr>json_parse = json_parse std_json, json_text = put_json,
     request_from_slice = (\<lambda>b. (case json_parse std_json b of
        Some v \<Rightarrow> (case Option.bind (json_get ''method'' v) as_str of
            Some m \<Rightarrow> Some \<lparr>erq_jsonrpc = ''2.0'', erq_method = m, erq_params = JArray [], erq_id = JInt 1\<rparr>
          | None \<Rightarrow> None)
      | None \<Rightarrow> None)),
     response_from_slice = (\<lambda>_. None),
     default_hash = (\<lambda>m. if even (length m) then 104 else 15),
     http_send = (\<lambda>url hs b u. (if b = [] then None else Some (200, Some b), b # u)),
     response_text = (\<lambda>_ b. b),
     header_value_ok = (\<lambda>_. True),
     utc_now = (\<lambda>_. ''2025-01-01T00:00:00+00:00''),
     cors_preflight = (\<lambda>_. None),
     cors_headers = (\<lambda>_ r. r),
     other_route = (\<lambda>_. json_response 404 [])\<rparr>"

definition sample_call :: "string \<Rightarrow> Request" where
  "sample_call m = \<lparr>verb = ''POST'', path = ''/'', req_headers = [(''host'', [1]), (''authorization'', [2])],
     req_body = Some (put_json (JObject [(''method'', JString m)]))\<rparr>"

definition sample_proxy :: "(nat, bytes list) proxy_world" where
  "sample_proxy = \<lparr>slept = [], rng = 0,
     injector = FaultInjector_new (FaultInjectionConfig_default\<lparr>fic_enabled := True\<rparr>),
     counters = (\<lambda>_. 0), durations = [], upstream = []\<rparr>"

lemma sample_call_of: "call_of echo_lib (sample_call m) (put_json (JObject [(''method'', JString m)])) m"
  by (simp add: call_of_def sample_call_def echo_lib_def std_parse_text method_of_def as_str_def)

lemma sample_request: "request_from_slice echo_lib (put_json (JObject [(''method'', JString m)])) =
    Some \<lparr>erq_jsonrpc = ''2.0'', erq_method = m, erq_params = JArray [], erq_id = JInt 1\<rparr>"
  by (simp add: echo_lib_def std_parse_text as_str_def)

lemma sample_stats: "stats_ok hash (injector sample_proxy)" "unsaturated (injector sample_proxy)"
    "faulty (default_hash echo_lib) (injector sample_proxy) m \<longleftrightarrow> even (length m)"
  by (simp_all add: sample_proxy_def stats_ok_def FaultStats_default_def unsaturated_def faulty_def FaultInjector_new_def echo_lib_def)

theorem proxy_transparent_witness:
  "\<exists>w'. (ProxyServer_router echo_lib ProxyConfig_default (sample_call ''engine_newPayloadV3'') sample_proxy ::
      (unit, Response) result \<times> _) =
      (Inr (json_response 200 (put_json (JObject [(''method'', JString ''engine_newPayloadV3'')]))), w') \<and>
    upstream w' = [put_json (JObject [(''method'', JString ''engine_newPayloadV3'')])]"
proof -
  let ?m = "''engine_newPayloadV3''" and ?b = "put_json (JObject [(''method'', JString ''engine_newPayloadV3'')])"
  have "\<not> faulty (default_hash echo_lib) (injector sample_proxy) ?m" by (simp add: sample_stats)
  moreover have "http_send echo_lib (pc_upstream_url ProxyConfig_default)
      (forwarded_headers echo_lib (req_headers (sample_call ?m))) ?b (upstream sample_proxy) = (Some (200, Some ?b), [?b])"
    by (simp add: echo_lib_def sample_proxy_def put_json.simps)
  ultimately show ?thesis
    using proxy_transparent [OF sample_call_of [of ?m], of sample_proxy ProxyConfig_default "Some (200, Some ?b)" "[?b]",
        where 'e = unit]
    by (auto simp: sample_stats sample_call_def echo_lib_def)
qed

theorem fault_choice_fixed_witness:
  "\<exists>w'. (ProxyServer_router echo_lib ProxyConfig_default (sample_call ''engine_forkchoiceUpdatedV3'') sample_proxy ::
      (unit, Response) result \<times> _) = (Inr fault_response, w') \<and> upstream w' = [] \<and>
    counters w' = counters sample_proxy \<and> slept w' = [100]"
proof -
  let ?m = "''engine_forkchoiceUpdatedV3''"
  have "is_engine_api_method EngineApiHandler_new ?m"
    by (simp add: is_engine_api_method_def EngineApiMethod_from_str_def engine_methods)
  moreover have "faulty (default_hash echo_lib) (injector sample_proxy) ?m" by (simp add: sample_stats)
  ultimately obtain w' where w': "(ProxyServer_router echo_lib ProxyConfig_default (sample_call ?m) sample_proxy ::
      (unit, Response) result \<times> _) = (Inr (cors_headers echo_lib (sample_call ?m) fault_response), w')"
    "upstream w' = upstream sample_proxy" "counters w' = counters sample_proxy" "slept w' = slept sample_proxy @ [100]"
    using fault_choice_fixed [OF sample_call_of sample_request _ _ sample_stats(2) sample_stats(1), where 'e = unit]
    by blast
  then show ?thesis by (intro exI [of _ w']) (simp add: echo_lib_def sample_proxy_def)
qed

theorem fault_stats_consistent_witness:
  "stats_ok (default_hash echo_lib) (injector (serve
     (ProxyServer_router echo_lib ProxyConfig_default :: (_, unit) service)
     [sample_call ''engine_forkchoiceUpdatedV3'', sample_call ''engine_newPayloadV3''] sample_proxy))"
proof -
  have "injector sample_proxy = FaultInjector_new (FaultInjectionConfig_default\<lparr>fic_enabled := True\<rparr>)"
    by (simp add: sample_proxy_def)
  from fault_stats_consistent [OF this, where 'e = unit] show ?thesis by blast
qed

section \<open>Random numbers\<close>

text \<open>A generator that counts; ranges give their lower end, and the unit interval its middle.\<close>

definition counting_random :: "nat random_lib" where
  "counting_random = \<lparr>rand_u8 = (\<lambda>n. (of_nat n, Suc n)), rand_usize = (\<lambda>n. (of_nat n, Suc n)),
     rand_range = (\<lambda>lo hi n. (lo, Suc n)), rand_f64 = (\<lambda>n. (0x3FE0000000000000, Suc n))\<rparr>"

lemma counting_random_laws: "random_laws counting_random"
  by (simp add: random_laws_def counting_random_def f64_less_def f64_key_def f64_magnitude_def f64_nan_def)

theorem delay_within_variance_witness:
  "\<exists>ms w1. (DelayService_call counting_random \<lparr>delay_ms = 100, variance_ms = 20\<rparr>
      (\<lambda>req. return_io drop_response) (sample_call ''m'') sample_proxy :: (unit, Response) result \<times> _) =
      (Inr drop_response, w1) \<and> slept w1 = [ms] \<and> 80 \<le> unat ms \<and> unat ms \<le> 120"
proof -
  obtain ms w1 where d: "(DelayService_call counting_random \<lparr>delay_ms = 100, variance_ms = 20\<rparr>
      (\<lambda>req. return_io drop_response) (sample_call ''m'') sample_proxy :: (unit, Response) result \<times> _) =
      (Inr drop_response, w1)" "slept w1 = slept sample_proxy @ (if ms = 0 then [] else [ms])"
    "80 \<le> unat ms" "unat ms \<le> 120"
    using delay_within_variance [OF counting_random_laws, of "\<lparr>delay_ms = 100, variance_ms = 20\<rparr>"
        "\<lambda>req. return_io drop_response :: (_, unit, Response) io" "sample_call ''m''" sample_proxy]
    by auto
  from d(3) have "ms \<noteq> 0" by auto
  with d(2) have "slept w1 = [ms]" by (simp add: sample_proxy_def)
  with d show ?thesis by blast
qed

text \<open>A wrong id, and the one bit that the generator in its first state flips.\<close>

theorem corruption_bounded_witness:
  "(\<exists>z. (corrupt_response std_json counting_random WrongId
      (json_response 200 (put_json (JObject [(''id'', JBool True)]))) sample_proxy :: (unit, Response) result \<times> _) =
      (Inr (json_response 200 z), sample_proxy) \<and>
    (\<exists>obj. json_parse std_json z = Some (JObject obj) \<and> map_of obj = [''id'' \<mapsto> JString ''wrong_id''])) \<and>
  (\<exists>z w'. (corrupt_response std_json counting_random FlipBit (json_response 200 [0, 0, 0]) sample_proxy ::
      (unit, Response) result \<times> _) = (Inr (json_response 200 z), w') \<and>
    (\<forall>j<3. \<forall>k. bit (z ! j) k \<longleftrightarrow> j = 1 \<and> k = 2))"
proof
  have valid: "utf8_valid (put_json (JObject [(''id'', JBool True)]))"
    by (rule utf8_valid_ascii) (simp add: put_json.simps ser_string_def ser_iso_def ser_bytes_def bytes_of_string_def ser_bool_def
        ser_sum_def ser_unit_def)
  have "utf8_valid (bytes_of_string ''id'')" by (rule utf8_valid_ascii) (simp add: bytes_of_string_def)
  then have fits: "json_fits 127 (JObject [(''id'', JBool True)])"
    using json_fits_object [of "[(''id'', JBool True)]" 126] by (simp add: json_object_def)
  show "\<exists>z. (corrupt_response std_json counting_random WrongId
      (json_response 200 (put_json (JObject [(''id'', JBool True)]))) sample_proxy :: (unit, Response) result \<times> _) =
      (Inr (json_response 200 z), sample_proxy) \<and>
    (\<exists>obj. json_parse std_json z = Some (JObject obj) \<and> map_of obj = [''id'' \<mapsto> JString ''wrong_id''])"
    using corruption_bounded [OF std_json_laws, of counting_random WrongId
        "json_response 200 (put_json (JObject [(''id'', JBool True)]))" sample_proxy, where 'e = unit] valid fits
    by (auto simp: json_response_def read_or_default_def std_parse_text Let_def)
  have zero: "\<not> bit (([0, 0, 0] :: bytes) ! j) k" if "j < 3" for j k
    using that by (auto simp: less_Suc_eq numeral_3_eq_3)
  have "draws counting_random (unat ((0 :: u8) mod 3) + 1) 1 = ([(1, 2)], 3)" by (simp add: counting_random_def)
  then show "\<exists>z w'. (corrupt_response std_json counting_random FlipBit (json_response 200 [0, 0, 0]) sample_proxy ::
      (unit, Response) result \<times> _) = (Inr (json_response 200 z), w') \<and>
    (\<forall>j<3. \<forall>k. bit (z ! j) k \<longleftrightarrow> j = 1 \<and> k = 2)"
    using corruption_bounded [OF std_json_laws, of counting_random FlipBit
        "json_response 200 [0, 0, 0]" sample_proxy, where 'e = unit]
    by (auto simp: json_response_def read_or_default_def Let_def counting_random_def sample_proxy_def zero)
qed

end
