(* ===== verification/Cli_Config.thy ===== *)
theory Cli_Config
  imports App
begin

text \<open>
  \<open>cli/src/new.rs\<close>, the generation of keys, genesis and configurations, and the configuration of a
  machine in \<open>cli/src/cmd/distributed_testnet.rs\<close>. The structures of \<open>malachitebft_config\<close> have the fields
  that the code sets; a value it takes from that library has the type \<open>'d\<close>. Ports are \<open>usize\<close> words.
\<close>

section \<open>Library data\<close>

datatype TransportProtocol = Tcp | Quic

datatype BootstrapProtocol = BootstrapKademlia | BootstrapFull

datatype Selector = SelectorKademlia | SelectorRandom

datatype RuntimeConfig = RuntimeSingleThreaded | RuntimeMultiThreaded usize

record DiscoveryConfig =
  dc_enabled :: bool
  dc_bootstrap_protocol :: BootstrapProtocol
  dc_selector :: Selector
  dc_num_outbound_peers :: usize
  dc_num_inbound_peers :: usize
  dc_ephemeral_connection_timeout_ms :: u64

record 'd P2pConfig =
  p2p_protocol :: 'd
  p2p_listen_addr :: string
  p2p_persistent_peers :: "string list"
  p2p_discovery :: DiscoveryConfig
  p2p_transport :: TransportProtocol
  p2p_others :: 'd

record SyncConfig =
  sync_enabled :: bool
  sync_status_update_interval :: u64
  sync_request_timeout :: u64

record 'd Config =
  moniker :: string
  consensus_timeouts :: 'd
  consensus_p2p :: "'d P2pConfig"
  mempool_p2p :: "'d P2pConfig"
  mempool_max_tx_count :: nat
  mempool_gossip_batch_size :: nat
  sync_config :: SyncConfig
  metrics_enabled :: bool
  metrics_listen_addr :: string
  logging :: 'd
  runtime :: RuntimeConfig
  test_config :: 'd

text \<open>
  Multiaddresses and socket addresses are parsed from the text that the code formats, and a text that
  is not one is a panic. The other fields are defaults of the library.
\<close>

record 'd config_lib =
  multiaddr :: "TransportProtocol \<Rightarrow> string \<Rightarrow> usize \<Rightarrow> string option"
  socket_addr :: "string \<Rightarrow> string option"
  default_timeouts :: 'd
  default_protocol :: 'd
  default_p2p :: 'd
  default_sync :: SyncConfig
  default_test :: 'd

text \<open>On this host the ports of 16 bits have addresses, different ones for different ports.\<close>

definition config_laws :: "('d, 'y) config_lib_scheme \<Rightarrow> bool" where
  "config_laws C \<longleftrightarrow>
     (\<forall>t p. multiaddr C t ''127.0.0.1'' p \<noteq> None \<longleftrightarrow> unat p < 2 ^ 16) \<and>
     (\<forall>t p q. unat p < 2 ^ 16 \<longrightarrow> multiaddr C t ''127.0.0.1'' p = multiaddr C t ''127.0.0.1'' q \<longrightarrow> p = q) \<and>
     (\<forall>n. socket_addr C (''127.0.0.1:'' @ show_nat n) = (if n < 2 ^ 16 then Some (''127.0.0.1:'' @ show_nat n) else None))"

text \<open>Random numbers: from the system, or from a generator with a seed. New keys are drawn from them.\<close>

record 'r cli_random =
  range_u64 :: "u64 \<Rightarrow> u64 \<Rightarrow> 'r \<Rightarrow> u64 \<times> 'r"
  choose_multiple :: "usize list \<Rightarrow> usize \<Rightarrow> 'r \<Rightarrow> usize list \<times> 'r"
  generate_key :: "'r \<Rightarrow> PrivateKey \<times> 'r"
  seed_from_u64 :: "u64 \<Rightarrow> 'r"

text \<open>A number is in its range, and a choice takes the number of elements asked for from the list, if it
  has as many, no position twice.\<close>

definition cli_random_laws :: "('r, 'y) cli_random_scheme \<Rightarrow> bool" where
  "cli_random_laws R \<longleftrightarrow>
     (\<forall>lo hi r. lo \<le> hi \<longrightarrow> lo \<le> fst (range_u64 R lo hi r) \<and> fst (range_u64 R lo hi r) \<le> hi) \<and>
     (\<forall>xs n r. length (fst (choose_multiple R xs n r)) = min (unat n) (length xs) \<and>
        set (fst (choose_multiple R xs n r)) \<subseteq> set xs \<and>
        (distinct xs \<longrightarrow> distinct (fst (choose_multiple R xs n r))))"

section \<open>The world of the commands\<close>

record ('r, 'f) cli_world =
  cli_rng :: 'r
  cli_fs :: 'f

definition cli_draw :: "('r \<Rightarrow> 'a \<times> 'r) \<Rightarrow> (('r, 'f) cli_world, 'e, 'a) io" where
  "cli_draw f = (\<lambda>w. case f (cli_rng w) of (x, r) \<Rightarrow> (Inr x, w\<lparr>cli_rng := r\<rparr>))"

text \<open>A computation with a generator of its own.\<close>

definition with_generator :: "'r \<Rightarrow> (('r, 'f) cli_world, 'e, 'a) io \<Rightarrow> (('r, 'f) cli_world, 'e, 'a) io" where
  "with_generator r m = (\<lambda>w. case m (w\<lparr>cli_rng := r\<rparr>) of (x, w') \<Rightarrow> (x, w'\<lparr>cli_rng := cli_rng w\<rparr>))"

fun for_each :: "('a \<Rightarrow> ('w, 'e, 'b) io) \<Rightarrow> 'a list \<Rightarrow> ('w, 'e, 'b list) io" where
  "for_each f [] = return_io []"
| "for_each f (x # xs) = bind_io (f x) (\<lambda>y. bind_io (for_each f xs) (\<lambda>ys. return_io (y # ys)))"

section \<open>Keys and genesis\<close>

definition MIN_VOTING_POWER :: u64 where "MIN_VOTING_POWER = 1"

definition MAX_VOTING_POWER :: u64 where "MAX_VOTING_POWER = 1"

definition generate_private_keys ::
  "('r, 'y) cli_random_scheme \<Rightarrow> usize \<Rightarrow> bool \<Rightarrow> (('r, 'f) cli_world, 'e, PrivateKey list) io" where
  "generate_private_keys R n deterministic =
     (let keys = for_each (\<lambda>_. cli_draw (generate_key R)) [0..<unat n] in
      if deterministic then with_generator (seed_from_u64 R 0x42) keys else keys)"

definition generate_genesis ::
  "'z lib_scheme \<Rightarrow> ('r, 'y) cli_random_scheme \<Rightarrow> PublicKey list \<Rightarrow> bool \<Rightarrow>
    (('r, 'f) cli_world, 'e, Genesis) io" where
  "generate_genesis L R pks deterministic =
     (let powers = for_each (\<lambda>pk. bind_io (cli_draw (range_u64 R MIN_VOTING_POWER MAX_VOTING_POWER))
            (\<lambda>p. return_io (pk, p))) pks in
      bind_io (if deterministic then with_generator (seed_from_u64 R 0x42) powers else powers) (\<lambda>vals.
        lift_io (make_genesis L vals)))"

section \<open>The configuration of a node\<close>

definition CONSENSUS_BASE_PORT :: usize where "CONSENSUS_BASE_PORT = 27000"

definition MEMPOOL_BASE_PORT :: usize where "MEMPOOL_BASE_PORT = 28000"

definition METRICS_BASE_PORT :: usize where "METRICS_BASE_PORT = 29000"

text \<open>\<open>0..total\<close>, and itertools' \<open>unique\<close>.\<close>

definition usize_range :: "usize \<Rightarrow> usize \<Rightarrow> usize list" where
  "usize_range a b = map of_nat [unat a..<unat b]"

definition unique :: "'a list \<Rightarrow> 'a list" where
  "unique xs = rev (remdups (rev xs))"

definition host_addr ::
  "('d, 'y) config_lib_scheme \<Rightarrow> TransportProtocol \<Rightarrow> string \<Rightarrow> usize \<Rightarrow> ('e, string) result" where
  "host_addr C transport host port =
     expect ''called `Result::unwrap()` on an `Err` value'' (multiaddr C transport host port)"

definition local_peer ::
  "('d, 'y) config_lib_scheme \<Rightarrow> TransportProtocol \<Rightarrow> usize \<Rightarrow> usize \<Rightarrow> ('e, string) result" where
  "local_peer C transport base j = and_then (add_chk base j) (host_addr C transport ''127.0.0.1'')"

text \<open>The indices of the persistent peers: with discovery a random choice of at most half of the
  others, otherwise all others.\<close>

definition chosen_peers ::
  "('r, 'x) cli_random_scheme \<Rightarrow> usize \<Rightarrow> usize \<Rightarrow> bool \<Rightarrow> (('r, 'f) cli_world, 'e, usize list) io" where
  "chosen_peers R index tot enable_discovery =
     (let others = filter (\<lambda>j. j \<noteq> index) (usize_range 0 tot) in
      if enable_discovery then
        bind_io (if 1 < tot then cli_draw (range_u64 R 1 (tot div 2)) else return_io 0) (\<lambda>count.
        bind_io (cli_draw (choose_multiple R others count)) (\<lambda>peers.
          return_io (unique peers)))
      else return_io others)"

definition generate_config ::
  "('d, 'y) config_lib_scheme \<Rightarrow> ('r, 'x) cli_random_scheme \<Rightarrow> usize \<Rightarrow> usize \<Rightarrow> RuntimeConfig \<Rightarrow> bool \<Rightarrow>
    BootstrapProtocol \<Rightarrow> Selector \<Rightarrow> usize \<Rightarrow> usize \<Rightarrow> u64 \<Rightarrow> TransportProtocol \<Rightarrow> 'd \<Rightarrow>
    (('r, 'f) cli_world, 'e, 'd Config) io" where
  "generate_config C R index tot rt enable_discovery bootstrap_protocol selector num_outbound_peers
     num_inbound_peers ephemeral_connection_timeout_ms transport lg =
     bind_io (lift_io (add_chk CONSENSUS_BASE_PORT index)) (\<lambda>consensus_port.
     bind_io (lift_io (add_chk MEMPOOL_BASE_PORT index)) (\<lambda>mempool_port.
     bind_io (lift_io (add_chk METRICS_BASE_PORT index)) (\<lambda>metrics_port.
     bind_io (lift_io (host_addr C transport ''127.0.0.1'' consensus_port)) (\<lambda>consensus_addr.
     bind_io (chosen_peers R index tot enable_discovery) (\<lambda>peers.
     bind_io (lift_io (collect (local_peer C transport CONSENSUS_BASE_PORT) peers)) (\<lambda>consensus_peers.
     bind_io (lift_io (host_addr C transport ''127.0.0.1'' mempool_port)) (\<lambda>mempool_addr.
     bind_io (lift_io (collect (local_peer C transport MEMPOOL_BASE_PORT)
         (filter (\<lambda>j. j \<noteq> index) (usize_range 0 tot)))) (\<lambda>mempool_peers.
     bind_io (lift_io (expect ''called `Result::unwrap()` on an `Err` value''
         (socket_addr C (''127.0.0.1:'' @ show_nat (unat metrics_port))))) (\<lambda>metrics_addr.
     let discovery = \<lparr>dc_enabled = enable_discovery, dc_bootstrap_protocol = bootstrap_protocol,
           dc_selector = selector, dc_num_outbound_peers = num_outbound_peers,
           dc_num_inbound_peers = num_inbound_peers,
           dc_ephemeral_connection_timeout_ms = ephemeral_connection_timeout_ms\<rparr> in
       return_io
        \<lparr>moniker = ''test-'' @ show_nat (unat index),
         consensus_timeouts = default_timeouts C,
         consensus_p2p = \<lparr>p2p_protocol = default_protocol C, p2p_listen_addr = consensus_addr,
           p2p_persistent_peers = consensus_peers, p2p_discovery = discovery, p2p_transport = transport,
           p2p_others = default_p2p C\<rparr>,
         mempool_p2p = \<lparr>p2p_protocol = default_protocol C, p2p_listen_addr = mempool_addr,
           p2p_persistent_peers = mempool_peers, p2p_discovery = discovery\<lparr>dc_enabled := False\<rparr>,
           p2p_transport = transport, p2p_others = default_p2p C\<rparr>,
         mempool_max_tx_count = 10000,
         mempool_gossip_batch_size = 0,
         sync_config = default_sync C,
         metrics_enabled = True,
         metrics_listen_addr = metrics_addr,
         logging = lg,
         runtime = rt,
         test_config = default_test C\<rparr>)))))))))"

section \<open>The configuration of a node of a distributed testnet\<close>

definition machine_of :: "string list \<Rightarrow> usize \<Rightarrow> ('e, string) result" where
  "machine_of machines j = and_then (rem_chk j (of_nat (length machines))) (\<lambda>i. Inr (machines ! unat i))"

definition slot_of :: "string list \<Rightarrow> usize \<Rightarrow> ('e, usize) result" where
  "slot_of machines j = (if machines = [] then panic ''attempt to divide by zero''
     else Inr (j div of_nat (length machines)))"

definition machine_peer ::
  "('d, 'y) config_lib_scheme \<Rightarrow> TransportProtocol \<Rightarrow> string list \<Rightarrow> usize \<Rightarrow> ('e, string) result" where
  "machine_peer C transport machines j =
     and_then (machine_of machines j) (\<lambda>host.
     and_then (slot_of machines j) (\<lambda>slot.
     and_then (add_chk CONSENSUS_BASE_PORT slot) (host_addr C transport host)))"

definition generate_distributed_config ::
  "('d, 'y) config_lib_scheme \<Rightarrow> usize \<Rightarrow> usize \<Rightarrow> RuntimeConfig \<Rightarrow> string list \<Rightarrow> bool \<Rightarrow>
    BootstrapProtocol \<Rightarrow> Selector \<Rightarrow> usize \<Rightarrow> usize \<Rightarrow> u64 \<Rightarrow> usize \<Rightarrow> TransportProtocol \<Rightarrow> 'd \<Rightarrow>
    ('e, 'd Config) result" where
  "generate_distributed_config C index tot rt machines enable_discovery bootstrap_protocol selector
     num_outbound_peers num_inbound_peers ephemeral_connection_timeout_ms bootstrap_set_size transport lg =
     and_then (machine_of machines index) (\<lambda>machine.
     and_then (slot_of machines index) (\<lambda>slot.
     and_then (add_chk CONSENSUS_BASE_PORT slot) (\<lambda>consensus_port.
     and_then (add_chk MEMPOOL_BASE_PORT slot) (\<lambda>mempool_port.
     and_then (add_chk METRICS_BASE_PORT slot) (\<lambda>metrics_port.
     and_then (host_addr C transport machine consensus_port) (\<lambda>consensus_addr.
     and_then (collect (machine_peer C transport machines)
         (if enable_discovery then unique (usize_range (saturating_sub index bootstrap_set_size) index)
          else usize_range 0 index)) (\<lambda>peers.
     and_then (host_addr C transport machine mempool_port) (\<lambda>mempool_addr.
     and_then (expect ''called `Result::unwrap()` on an `Err` value''
         (socket_addr C (machine @ '':'' @ show_nat (unat metrics_port)))) (\<lambda>metrics_addr.
       Inr
        \<lparr>moniker = ''test-'' @ show_nat (unat index),
         consensus_timeouts = default_timeouts C,
         consensus_p2p = \<lparr>p2p_protocol = default_protocol C, p2p_listen_addr = consensus_addr,
           p2p_persistent_peers = peers,
           p2p_discovery = \<lparr>dc_enabled = enable_discovery, dc_bootstrap_protocol = bootstrap_protocol,
             dc_selector = selector, dc_num_outbound_peers = num_outbound_peers,
             dc_num_inbound_peers = num_inbound_peers,
             dc_ephemeral_connection_timeout_ms = ephemeral_connection_timeout_ms\<rparr>,
           p2p_transport = transport, p2p_others = default_p2p C\<rparr>,
         mempool_p2p = \<lparr>p2p_protocol = default_protocol C, p2p_listen_addr = mempool_addr,
           p2p_persistent_peers = [],
           p2p_discovery = \<lparr>dc_enabled = False, dc_bootstrap_protocol = bootstrap_protocol,
             dc_selector = selector, dc_num_outbound_peers = 0, dc_num_inbound_peers = 0,
             dc_ephemeral_connection_timeout_ms = 0\<rparr>,
           p2p_transport = transport, p2p_others = default_p2p C\<rparr>,
         mempool_max_tx_count = 10000,
         mempool_gossip_batch_size = 0,
         sync_config = \<lparr>sync_enabled = False, sync_status_update_interval = 0, sync_request_timeout = 0\<rparr>,
         metrics_enabled = True,
         metrics_listen_addr = metrics_addr,
         logging = lg,
         runtime = rt,
         test_config = default_test C\<rparr>)))))))))"

end
