(* ===== verification/Cli.thy ===== *)
theory Cli
  imports Cli_Config
begin

text \<open>
  The commands that write the files of nodes: \<open>cli/src/error.rs\<close>, \<open>args.rs\<close>, \<open>file.rs\<close> and
  \<open>cmd/init.rs\<close>, \<open>testnet.rs\<close>, \<open>distributed_testnet.rs\<close>, for the only implementation of the node trait,
  that of \<open>app/src/node.rs\<close>, whose key file is the key itself. The options that clap parses are
  records; a path is the list of its components.
\<close>

type_synonym Path = "string list"

datatype CliError = ParentDir Path | OpenFile Path | WriteFile Path | LoadFile Path | ToJSON string | DirPath | Join

text \<open>\<open>std::fs\<close> on a file system \<open>'f\<close>, the texts of the files (an error is a message), and the user's home.\<close>

record ('f, 'd) file_lib =
  create_dir_all :: "Path \<Rightarrow> 'f \<Rightarrow> bool \<times> 'f"
  open_truncate :: "Path \<Rightarrow> 'f \<Rightarrow> bool \<times> 'f"
  write_all :: "Path \<Rightarrow> string \<Rightarrow> 'f \<Rightarrow> bool \<times> 'f"
  path_exists :: "Path \<Rightarrow> 'f \<Rightarrow> bool"
  file_text :: "Path \<Rightarrow> 'f \<Rightarrow> string option"
  config_text :: "'d Config \<Rightarrow> string + string"
  genesis_text :: "Genesis \<Rightarrow> string + string"
  key_text :: "PrivateKey \<Rightarrow> string + string"
  base_home :: "Path option"

text \<open>
  Creating directories changes no file. Opening truncates the file, or fails and changes none. A
  write that succeeds gives the file its text, one that fails changes no other file. A path where
  nothing is has no text. Only a path and the directories above it come to exist.
\<close>

definition file_laws :: "('f, 'd, 'y) file_lib_scheme \<Rightarrow> bool" where
  "file_laws F \<longleftrightarrow>
     (\<forall>p q f. file_text F q (snd (create_dir_all F p f)) = file_text F q f) \<and>
     (\<forall>p q f. q \<noteq> p \<or> \<not> fst (open_truncate F p f) \<longrightarrow> file_text F q (snd (open_truncate F p f)) = file_text F q f) \<and>
     (\<forall>p q s f. q \<noteq> p \<longrightarrow> file_text F q (snd (write_all F p s f)) = file_text F q f) \<and>
     (\<forall>p s f. fst (write_all F p s f) \<longrightarrow> file_text F p (snd (write_all F p s f)) = Some s) \<and>
     (\<forall>p f. file_text F p f \<noteq> None \<longrightarrow> path_exists F p f) \<and>
     (\<forall>p q f. take (length q) p \<noteq> q \<longrightarrow>
        path_exists F q (snd (create_dir_all F p f)) = path_exists F q f \<and>
        path_exists F q (snd (open_truncate F p f)) = path_exists F q f \<and>
        (\<forall>s. path_exists F q (snd (write_all F p s f)) = path_exists F q f))"

section \<open>\<open>args.rs\<close>\<close>

definition APP_FOLDER :: string where "APP_FOLDER = ''.malachite''"

definition CONFIG_FILE :: string where "CONFIG_FILE = ''config.toml''"

definition GENESIS_FILE :: string where "GENESIS_FILE = ''genesis.json''"

definition PRIV_VALIDATOR_KEY_FILE :: string where "PRIV_VALIDATOR_KEY_FILE = ''priv_validator_key.json''"

record Args = home :: "Path option"

definition get_home_dir :: "('f, 'd, 'y) file_lib_scheme \<Rightarrow> Args \<Rightarrow> (CliError, Path) result" where
  "get_home_dir F a = (case home a of
     Some path \<Rightarrow> Inr path
   | None \<Rightarrow> and_then (ok_or DirPath (base_home F)) (\<lambda>dir. Inr (dir @ [APP_FOLDER])))"

definition get_config_dir :: "('f, 'd, 'y) file_lib_scheme \<Rightarrow> Args \<Rightarrow> (CliError, Path) result" where
  "get_config_dir F a = and_then (get_home_dir F a) (\<lambda>dir. Inr (dir @ [''config'']))"

definition get_config_file_path :: "('f, 'd, 'y) file_lib_scheme \<Rightarrow> Args \<Rightarrow> (CliError, Path) result" where
  "get_config_file_path F a = and_then (get_config_dir F a) (\<lambda>dir. Inr (dir @ [CONFIG_FILE]))"

definition get_genesis_file_path :: "('f, 'd, 'y) file_lib_scheme \<Rightarrow> Args \<Rightarrow> (CliError, Path) result" where
  "get_genesis_file_path F a = and_then (get_config_dir F a) (\<lambda>dir. Inr (dir @ [GENESIS_FILE]))"

definition get_priv_validator_key_file_path :: "('f, 'd, 'y) file_lib_scheme \<Rightarrow> Args \<Rightarrow> (CliError, Path) result" where
  "get_priv_validator_key_file_path F a = and_then (get_config_dir F a) (\<lambda>dir. Inr (dir @ [PRIV_VALIDATOR_KEY_FILE]))"

section \<open>\<open>file.rs\<close>\<close>

text \<open>A call on the file system, whose failure is an error.\<close>

definition on_fs :: "CliError \<Rightarrow> ('f \<Rightarrow> bool \<times> 'f) \<Rightarrow> (('r, 'f) cli_world, CliError, unit) io" where
  "on_fs e f = (\<lambda>w. case f (cli_fs w) of (done, fs) \<Rightarrow> (if done then Inr () else fail e, w\<lparr>cli_fs := fs\<rparr>))"

definition save :: "('f, 'd, 'y) file_lib_scheme \<Rightarrow> Path \<Rightarrow> string \<Rightarrow> (('r, 'f) cli_world, CliError, unit) io" where
  "save F p data =
     bind_io (if p = [] then return_io () else on_fs (ParentDir (butlast p)) (create_dir_all F (butlast p))) (\<lambda>_.
     bind_io (on_fs (OpenFile p) (open_truncate F p)) (\<lambda>_.
       on_fs (WriteFile p) (write_all F p data)))"

definition save_config ::
  "('f, 'd, 'y) file_lib_scheme \<Rightarrow> Path \<Rightarrow> 'd Config \<Rightarrow> (('r, 'f) cli_world, CliError, unit) io" where
  "save_config F p c = bind_io (lift_io (lift_lib ToJSON (config_text F c))) (save F p)"

definition save_genesis ::
  "('f, 'd, 'y) file_lib_scheme \<Rightarrow> Path \<Rightarrow> Genesis \<Rightarrow> (('r, 'f) cli_world, CliError, unit) io" where
  "save_genesis F p g = bind_io (lift_io (lift_lib ToJSON (genesis_text F g))) (save F p)"

definition save_priv_validator_key ::
  "('f, 'd, 'y) file_lib_scheme \<Rightarrow> Path \<Rightarrow> PrivateKey \<Rightarrow> (('r, 'f) cli_world, CliError, unit) io" where
  "save_priv_validator_key F p k = bind_io (lift_io (lift_lib ToJSON (key_text F k))) (save F p)"

section \<open>\<open>init.rs\<close>\<close>

text \<open>An existing file is kept unless it is to be overwritten.\<close>

definition unless_kept ::
  "('f, 'd, 'y) file_lib_scheme \<Rightarrow> Path \<Rightarrow> bool \<Rightarrow> (('r, 'f) cli_world, CliError, unit) io \<Rightarrow>
    (('r, 'f) cli_world, CliError, unit) io" where
  "unless_kept F p overwrite m =
     bind_io get_io (\<lambda>w. if path_exists F p (cli_fs w) \<and> \<not> overwrite then return_io () else m)"

definition init ::
  "'z lib_scheme \<Rightarrow> ('r, 'x) cli_random_scheme \<Rightarrow> ('f, 'd, 'y) file_lib_scheme \<Rightarrow> 'd Config \<Rightarrow>
    Path \<Rightarrow> Path \<Rightarrow> Path \<Rightarrow> bool \<Rightarrow> (('r, 'f) cli_world, CliError, unit) io" where
  "init L R F cfg config_file genesis_file priv_validator_key_file overwrite =
     bind_io (unless_kept F config_file overwrite (save_config F config_file cfg)) (\<lambda>_.
     bind_io (unless_kept F priv_validator_key_file overwrite
       (bind_io (generate_private_keys R 1 False) (\<lambda>private_keys.
          save_priv_validator_key F priv_validator_key_file (private_keys ! 0)))) (\<lambda>_.
       unless_kept F genesis_file overwrite
       (bind_io (generate_private_keys R 1 False) (\<lambda>private_keys.
        let public_keys = map (sk_public_key (crypto L)) private_keys in
        bind_io (generate_genesis L R public_keys False) (save_genesis F genesis_file)))))"

record InitCmd =
  ic_overwrite :: bool
  ic_enable_discovery :: bool
  ic_bootstrap_protocol :: BootstrapProtocol
  ic_selector :: Selector
  ic_num_outbound_peers :: usize
  ic_num_inbound_peers :: usize
  ic_ephemeral_connection_timeout_ms :: u64

definition InitCmd_run ::
  "'z lib_scheme \<Rightarrow> ('d, 'v) config_lib_scheme \<Rightarrow> ('r, 'x) cli_random_scheme \<Rightarrow> ('f, 'd, 'y) file_lib_scheme \<Rightarrow>
    InitCmd \<Rightarrow> Path \<Rightarrow> Path \<Rightarrow> Path \<Rightarrow> 'd \<Rightarrow> (('r, 'f) cli_world, CliError, unit) io" where
  "InitCmd_run L C R F cmd config_file genesis_file priv_validator_key_file lg =
     bind_io (generate_config C R 0 1 RuntimeSingleThreaded (ic_enable_discovery cmd) (ic_bootstrap_protocol cmd)
       (ic_selector cmd) (ic_num_outbound_peers cmd) (ic_num_inbound_peers cmd)
       (ic_ephemeral_connection_timeout_ms cmd) Tcp lg) (\<lambda>cfg.
       init L R F cfg config_file genesis_file priv_validator_key_file (ic_overwrite cmd))"

section \<open>\<open>testnet.rs\<close>\<close>

datatype RuntimeFlavour = SingleThreaded | MultiThreaded usize

text \<open>\<open>split_once\<close> at a character, and \<open>parse::<usize>\<close>: an optional plus sign and decimal digits.\<close>

fun split_once :: "char \<Rightarrow> string \<Rightarrow> (string \<times> string) option" where
  "split_once c [] = None"
| "split_once c (x # xs) = (if x = c then Some ([], xs) else map_option (\<lambda>(a, b). (x # a, b)) (split_once c xs))"

definition digit_value :: "char \<Rightarrow> nat option" where
  "digit_value c = (let n = of_char c :: nat in if 48 \<le> n \<and> n \<le> 57 then Some (n - 48) else None)"

fun parse_digits :: "nat \<Rightarrow> string \<Rightarrow> nat option" where
  "parse_digits acc [] = Some acc"
| "parse_digits acc (c # cs) = Option.bind (digit_value c) (\<lambda>d. parse_digits (10 * acc + d) cs)"

definition parse_usize :: "string \<Rightarrow> usize option" where
  "parse_usize s = (let t = (case s of c # cs \<Rightarrow> if c = CHR ''+'' then cs else s | [] \<Rightarrow> s) in
     if t = [] then None
     else Option.bind (parse_digits 0 t) (\<lambda>n. if n < 2 ^ 64 then Some (of_nat n) else None))"

definition RuntimeFlavour_from_str :: "string \<Rightarrow> (string, RuntimeFlavour) result" where
  "RuntimeFlavour_from_str s =
     (if CHR '':'' \<in> set s then (case split_once CHR '':'' s of
        Some (a, n) \<Rightarrow> if a = ''multi-threaded''
          then and_then (ok_or ''Invalid number of threads'' (parse_usize n)) (\<lambda>n. Inr (MultiThreaded n))
          else fail (''Invalid runtime flavour: '' @ s)
      | None \<Rightarrow> fail (''Invalid runtime flavour: '' @ s))
      else if s = ''single-threaded'' then Inr SingleThreaded
      else if s = ''multi-threaded'' then Inr (MultiThreaded 0)
      else fail (''Invalid runtime flavour: '' @ s))"

fun runtime_config :: "RuntimeFlavour \<Rightarrow> RuntimeConfig" where
  "runtime_config SingleThreaded = RuntimeSingleThreaded"
| "runtime_config (MultiThreaded n) = RuntimeMultiThreaded n"

record TestnetCmd =
  tn_nodes :: usize
  tn_deterministic :: bool
  tn_runtime :: RuntimeFlavour
  tn_enable_discovery :: bool
  tn_bootstrap_protocol :: BootstrapProtocol
  tn_selector :: Selector
  tn_num_outbound_peers :: usize
  tn_num_inbound_peers :: usize
  tn_ephemeral_connection_timeout_ms :: u64
  tn_transport :: TransportProtocol

text \<open>The files of one node, below its home directory.\<close>

definition save_node ::
  "('f, 'd, 'y) file_lib_scheme \<Rightarrow> Path \<Rightarrow> (('r, 'f) cli_world, CliError, 'd Config) io \<Rightarrow> PrivateKey \<Rightarrow> Genesis \<Rightarrow>
    (('r, 'f) cli_world, CliError, unit) io" where
  "save_node F node_home_dir cfg sk g =
     (let args = \<lparr>home = Some node_home_dir\<rparr> in
      bind_io (lift_io (get_config_file_path F args)) (\<lambda>config_file.
      bind_io cfg (\<lambda>c.
      bind_io (save_config F config_file c) (\<lambda>_.
      bind_io (lift_io (get_priv_validator_key_file_path F args)) (\<lambda>key_file.
      bind_io (save_priv_validator_key F key_file sk) (\<lambda>_.
      bind_io (lift_io (get_genesis_file_path F args)) (\<lambda>genesis_file.
        save_genesis F genesis_file g)))))))"

definition testnet ::
  "'z lib_scheme \<Rightarrow> ('d, 'v) config_lib_scheme \<Rightarrow> ('r, 'x) cli_random_scheme \<Rightarrow> ('f, 'd, 'y) file_lib_scheme \<Rightarrow>
    TestnetCmd \<Rightarrow> Path \<Rightarrow> 'd \<Rightarrow> (('r, 'f) cli_world, CliError, unit) io" where
  "testnet L C R F cmd home_dir lg =
     bind_io (generate_private_keys R (tn_nodes cmd) (tn_deterministic cmd)) (\<lambda>private_keys.
     let public_keys = map (sk_public_key (crypto L)) private_keys in
     bind_io (generate_genesis L R public_keys (tn_deterministic cmd)) (\<lambda>g.
     bind_io (for_each (\<lambda>(i, sk).
         save_node F (home_dir @ [show_nat i])
           (generate_config C R (of_nat i) (tn_nodes cmd) (runtime_config (tn_runtime cmd)) (tn_enable_discovery cmd)
             (tn_bootstrap_protocol cmd) (tn_selector cmd) (tn_num_outbound_peers cmd) (tn_num_inbound_peers cmd)
             (tn_ephemeral_connection_timeout_ms cmd) (tn_transport cmd) lg) sk g)
       (take (unat (tn_nodes cmd)) (enumerate 0 private_keys))) (\<lambda>_.
       return_io ())))"

definition TestnetCmd_run ::
  "'z lib_scheme \<Rightarrow> ('d, 'v) config_lib_scheme \<Rightarrow> ('r, 'x) cli_random_scheme \<Rightarrow> ('f, 'd, 'y) file_lib_scheme \<Rightarrow>
    (CliError \<Rightarrow> string) \<Rightarrow> TestnetCmd \<Rightarrow> Path \<Rightarrow> 'd \<Rightarrow> (('r, 'f) cli_world, Report, unit) io" where
  "TestnetCmd_run L C R F debug cmd home_dir lg =
     (\<lambda>w. apfst (map_err (\<lambda>e. Eyre (''Failed to generate testnet configuration: '' @ debug e)))
       (testnet L C R F cmd home_dir lg w))"

section \<open>\<open>distributed_testnet.rs\<close>\<close>

record DistributedTestnetCmd = TestnetCmd +
  dt_machines :: "string list"
  dt_bootstrap_set_size :: usize

definition distributed_testnet ::
  "'z lib_scheme \<Rightarrow> ('d, 'v) config_lib_scheme \<Rightarrow> ('r, 'x) cli_random_scheme \<Rightarrow> ('f, 'd, 'y) file_lib_scheme \<Rightarrow>
    DistributedTestnetCmd \<Rightarrow> Path \<Rightarrow> 'd \<Rightarrow> (('r, 'f) cli_world, CliError, unit) io" where
  "distributed_testnet L C R F cmd home_dir lg =
     bind_io (generate_private_keys R (tn_nodes cmd) (tn_deterministic cmd)) (\<lambda>private_keys.
     let public_keys = map (sk_public_key (crypto L)) private_keys in
     bind_io (generate_genesis L R public_keys (tn_deterministic cmd)) (\<lambda>g.
     bind_io (for_each (\<lambda>(i, sk).
         bind_io (lift_io (rem_chk (of_nat i :: usize) (of_nat (length (dt_machines cmd))))) (\<lambda>machine.
           save_node F (home_dir @ [show_nat (unat machine), show_nat i])
             (lift_io (generate_distributed_config C (of_nat i) (tn_nodes cmd) (runtime_config (tn_runtime cmd))
               (dt_machines cmd) (tn_enable_discovery cmd) (tn_bootstrap_protocol cmd) (tn_selector cmd)
               (tn_num_outbound_peers cmd) (tn_num_inbound_peers cmd) (tn_ephemeral_connection_timeout_ms cmd)
               (dt_bootstrap_set_size cmd) (tn_transport cmd) lg)) sk g))
       (take (unat (tn_nodes cmd)) (enumerate 0 private_keys))) (\<lambda>_.
       return_io ())))"

definition DistributedTestnetCmd_run ::
  "'z lib_scheme \<Rightarrow> ('d, 'v) config_lib_scheme \<Rightarrow> ('r, 'x) cli_random_scheme \<Rightarrow> ('f, 'd, 'y) file_lib_scheme \<Rightarrow>
    (CliError \<Rightarrow> string) \<Rightarrow> DistributedTestnetCmd \<Rightarrow> Path \<Rightarrow> 'd \<Rightarrow> (('r, 'f) cli_world, Report, unit) io" where
  "DistributedTestnetCmd_run L C R F debug cmd home_dir lg =
     (\<lambda>w. apfst (map_err (\<lambda>e. Eyre (''Failed to generate distributed testnet configuration: '' @ debug e)))
       (distributed_testnet L C R F cmd home_dir lg w))"

end
