(* ===== verification/Cli_Correct.thy ===== *)
theory Cli_Correct
  imports Cli
begin

text \<open>
  The properties of the commands: the addresses of the nodes of a testnet and where they collide, the
  peers a node is given, the files that \<open>testnet\<close> writes, and what \<open>init\<close> keeps and makes.
\<close>

section \<open>Configurations\<close>

lemma generate_config_Inr:
  assumes "generate_config C R i tot rt d b s no ni t transport lg w = (Inr cfg :: ('e, 'd Config) result, w')"
  shows "moniker cfg = ''test-'' @ show_nat (unat i)"
    and "multiaddr C transport ''127.0.0.1'' (27000 + i) = Some (p2p_listen_addr (consensus_p2p cfg))"
    and "multiaddr C transport ''127.0.0.1'' (28000 + i) = Some (p2p_listen_addr (mempool_p2p cfg))"
    and "socket_addr C (''127.0.0.1:'' @ show_nat (unat (29000 + i))) = Some (metrics_listen_addr cfg)"
    and "\<exists>chosen. (chosen_peers R i tot d w :: ('e, usize list) result \<times> _) = (Inr chosen, w') \<and>
      collect (local_peer C transport CONSENSUS_BASE_PORT) chosen =
        (Inr (p2p_persistent_peers (consensus_p2p cfg)) :: ('e, string list) result)"
    and "collect (local_peer C transport MEMPOOL_BASE_PORT) (filter (\<lambda>j. j \<noteq> i) (usize_range 0 tot)) =
        (Inr (p2p_persistent_peers (mempool_p2p cfg)) :: ('e, string list) result)"
    and "unat i < 2 ^ 64 - 29000"
  using assms
  by (auto simp: generate_config_def bind_io_Inr lift_io_Inr return_io_Inr add_chk_Inr host_addr_def Let_def
      CONSENSUS_BASE_PORT_def MEMPOOL_BASE_PORT_def METRICS_BASE_PORT_def)

lemma config_lawsD:
  assumes "config_laws C" and "multiaddr C t ''127.0.0.1'' p = Some a"
  shows "unat p < 2 ^ 16" and "multiaddr C t ''127.0.0.1'' q = Some a \<Longrightarrow> q = p"
proof -
  from assms show p: "unat p < 2 ^ 16" unfolding config_laws_def by blast
  assume "multiaddr C t ''127.0.0.1'' q = Some a"
  with assms(2) have "multiaddr C t ''127.0.0.1'' p = multiaddr C t ''127.0.0.1'' q" by simp
  with assms(1) p show "q = p" unfolding config_laws_def by blast
qed

lemma unat_port: "unat (i :: usize) < 2 ^ 64 - 29000 \<Longrightarrow> k \<le> 29000 \<Longrightarrow> unat (of_nat k + i) = k + unat i"
  by (simp add: unat_word_ariths unsigned_of_nat take_bit_nat_eq_self)

text \<open>The addresses of two nodes of a local testnet differ for each of the three services, and the
  only ones in conflict are those of nodes a thousand indices apart: the consensus address of one is
  the mempool address of the other; every port has 16 bits.\<close>

theorem node_addresses:
  assumes "config_laws C"
    and "generate_config C R i tot rt d b s no ni t transport lg w = (Inr ci :: ('e, 'd Config) result, w1)"
    and "generate_config C R j tot rt d b s no ni t transport lg w = (Inr cj :: ('e, 'd Config) result, w2)"
  shows "(p2p_listen_addr (consensus_p2p ci) = p2p_listen_addr (consensus_p2p cj) \<longleftrightarrow> i = j) \<and>
    (p2p_listen_addr (mempool_p2p ci) = p2p_listen_addr (mempool_p2p cj) \<longleftrightarrow> i = j) \<and>
    (p2p_listen_addr (consensus_p2p ci) = p2p_listen_addr (mempool_p2p cj) \<longleftrightarrow> unat i = unat j + 1000) \<and>
    29000 + unat i < 2 ^ 16"
proof -
  note ci = generate_config_Inr [OF assms(2)] and cj = generate_config_Inr [OF assms(3)]
  note inj = config_lawsD(2) [OF assms(1)]
  have u: "unat (27000 + i) = 27000 + unat i" "unat (28000 + j) = 28000 + unat j" "unat (29000 + i) = 29000 + unat i"
    using unat_port [OF ci(7), of 27000] unat_port [OF cj(7), of 28000] unat_port [OF ci(7), of 29000] by simp_all
  have 1: "p2p_listen_addr (consensus_p2p ci) = p2p_listen_addr (consensus_p2p cj) \<longleftrightarrow> i = j"
    using ci(2) cj(2) inj [OF ci(2), of "27000 + j"] by auto
  have 2: "p2p_listen_addr (mempool_p2p ci) = p2p_listen_addr (mempool_p2p cj) \<longleftrightarrow> i = j"
    using ci(3) cj(3) inj [OF ci(3), of "28000 + j"] by auto
  have "p2p_listen_addr (consensus_p2p ci) = p2p_listen_addr (mempool_p2p cj) \<longleftrightarrow> 27000 + i = 28000 + j"
    using ci(2) cj(3) inj [OF ci(2), of "28000 + j"] by auto
  also have "\<dots> \<longleftrightarrow> unat (27000 + i) = unat (28000 + j)" by (rule word_eq_iff_unsigned)
  also have "\<dots> \<longleftrightarrow> unat i = unat j + 1000" unfolding u by linarith
  finally have 3: "p2p_listen_addr (consensus_p2p ci) = p2p_listen_addr (mempool_p2p cj) \<longleftrightarrow> unat i = unat j + 1000" .
  have "unat (29000 + i) < 2 ^ 16" using ci(4) assms(1) by (auto simp: config_laws_def split: if_splits)
  with 1 2 3 u(3) show ?thesis by simp
qed

text \<open>A node chooses its execution layer by its moniker, and the testnet names nodes by their index: the
  first three nodes get execution layers of their own, and all further ones that of the first.\<close>

theorem execution_layer_shared:
  assumes "generate_config C R i tot rt d b s no ni t transport lg w = (Inr ci :: ('e, 'd Config) result, w1)"
    and "generate_config C R j tot rt d b s no ni t transport lg w = (Inr cj :: ('e, 'd Config) result, w2)"
  shows "engine_url (moniker ci) = engine_url (moniker cj) \<longleftrightarrow>
    i = j \<or> (unat i \<in> {0} \<union> {3..} \<and> unat j \<in> {0} \<union> {3..})"
proof -
  have digits: "show_nat 0 = ''0''" "show_nat 1 = ''1''" "show_nat 2 = ''2''"
    by code_simp+
  have named: "show_nat n = ''0'' \<longleftrightarrow> n = 0" "show_nat n = ''1'' \<longleftrightarrow> n = 1" "show_nat n = ''2'' \<longleftrightarrow> n = 2" for n
    by (metis digits show_nat_inject)+
  have port: "engine_port (''test-'' @ show_nat n) = (if n = 1 then 18551 else if n = 2 then 28551 else 8551)" for n
    by (simp add: engine_port_def named)
  have "engine_url (moniker ci) = engine_url (moniker cj) \<longleftrightarrow> engine_port (moniker ci) = engine_port (moniker cj)"
    by (simp add: engine_url_def)
  moreover have "unat i = unat j \<longleftrightarrow> i = j" by (rule word_eq_iff_unsigned [symmetric])
  ultimately show ?thesis
    unfolding generate_config_Inr(1) [OF assms(1)] generate_config_Inr(1) [OF assms(2)] port by auto
qed

section \<open>Peers\<close>

lemma cli_draw_apply: "cli_draw f w = (Inr (fst (f (cli_rng w))), w\<lparr>cli_rng := snd (f (cli_rng w))\<rparr>)"
  by (simp add: cli_draw_def split: prod.splits)

lemma set_usize_range: "set (usize_range 0 b) = {j. j < b}"
proof -
  have "j \<in> of_nat ` {0..<unat b} \<longleftrightarrow> j < b" for j :: usize
  proof
    assume "j < b"
    then have "unat j \<in> {0..<unat b}" by (simp add: word_less_nat_alt)
    then have "of_nat (unat j) \<in> (of_nat ` {0..<unat b} :: usize set)" by (rule imageI)
    then show "j \<in> of_nat ` {0..<unat b}" by simp
  next
    assume "j \<in> of_nat ` {0..<unat b}"
    then obtain n where "n < unat b" "j = of_nat n" by auto
    moreover from this(1) have "n < 2 ^ 64" using unat_u64_less [of b] by linarith
    ultimately show "j < b" by (simp add: word_less_nat_alt unsigned_of_nat take_bit_nat_eq_self)
  qed
  then show ?thesis by (auto simp: usize_range_def)
qed

lemma usize_of_nat: "n < 2 ^ 64 \<Longrightarrow> unat (of_nat n :: usize) = n"
  by (simp add: unsigned_of_nat take_bit_nat_eq_self)

lemma distinct_usize_range: "distinct (usize_range 0 b)"
proof -
  have "inj_on (of_nat :: nat \<Rightarrow> usize) {0..<unat b}"
  proof (rule inj_onI)
    fix m n assume "m \<in> {0..<unat b}" "n \<in> {0..<unat b}"
    then have "m < 2 ^ 64" "n < 2 ^ 64" using unat_u64_less [of b] by auto
    moreover assume "(of_nat m :: usize) = of_nat n"
    ultimately show "m = n" using usize_of_nat by metis
  qed
  then show ?thesis by (simp add: usize_range_def distinct_map)
qed

lemma set_unique [simp]: "set (unique xs) = set xs"
  by (simp add: unique_def)

lemma length_unique_distinct: "distinct xs \<Longrightarrow> unique xs = xs"
  by (simp add: unique_def distinct_remdups_id)

lemma collect_Inr_set: "collect f xs = Inr ys \<Longrightarrow> y \<in> set ys \<longleftrightarrow> (\<exists>x\<in>set xs. f x = Inr y)"
proof (induction xs arbitrary: ys)
  case (Cons x xs)
  then obtain z zs where "f x = Inr z" "collect f xs = Inr zs" "ys = z # zs" by auto
  with Cons.IH [OF this(2)] show ?case by auto
qed simp

text \<open>The addresses of a set of nodes for a service.\<close>

definition addresses :: "('d, 'y) config_lib_scheme \<Rightarrow> TransportProtocol \<Rightarrow> usize \<Rightarrow> usize set \<Rightarrow> string set" where
  "addresses C transport base js = {a. \<exists>j\<in>js. multiaddr C transport ''127.0.0.1'' (base + j) = Some a}"

lemma local_peers_set:
  "collect (local_peer C transport base) js = (Inr ps :: ('e, string list) result) \<Longrightarrow>
    set ps = addresses C transport base (set js)"
proof -
  assume c: "collect (local_peer C transport base) js = (Inr ps :: ('e, string list) result)"
  have "(local_peer C transport base j :: ('e, string) result) = Inr a \<longleftrightarrow>
      multiaddr C transport ''127.0.0.1'' (base + j) = Some a" if "j \<in> set js" for j a
  proof -
    from c that obtain b where "(local_peer C transport base j :: ('e, string) result) = Inr b"
      using collect_Inr_nth [OF c] by (metis collect_Inr_length in_set_conv_nth)
    then show ?thesis by (auto simp: local_peer_def add_chk_Inr host_addr_def)
  qed
  with collect_Inr_set [OF c] show ?thesis by (auto simp: addresses_def)
qed

text \<open>A random choice is one of the others, of a size from one to half of the nodes.\<close>

lemma range_lawsD:
  assumes "cli_random_laws R" and "lo \<le> hi"
  shows "lo \<le> fst (range_u64 R lo hi r)" and "fst (range_u64 R lo hi r) \<le> hi"
  using assms unfolding cli_random_laws_def by blast+

lemma chosen_peers_Inr:
  assumes "cli_random_laws R" and "chosen_peers R i tot d w = (Inr chosen :: ('e, usize list) result, w')" and "i < tot"
  shows "set chosen \<subseteq> {j. j < tot \<and> j \<noteq> i}" and "\<not> d \<Longrightarrow> set chosen = {j. j < tot \<and> j \<noteq> i}"
    and "d \<Longrightarrow> 1 < tot \<Longrightarrow> 1 \<le> length chosen \<and> length chosen \<le> unat (tot div 2)"
proof -
  let ?others = "filter (\<lambda>j. j \<noteq> i) (usize_range 0 tot)"
  have others: "set ?others = {j. j < tot \<and> j \<noteq> i}" "distinct ?others"
    by (auto simp: set_usize_range distinct_usize_range)
  have law: "length (fst (choose_multiple R ?others n r)) = min (unat n) (length ?others)"
    "set (fst (choose_multiple R ?others n r)) \<subseteq> set ?others" "distinct (fst (choose_multiple R ?others n r))" for n r
    using assms(1) others(2) unfolding cli_random_laws_def by blast+
  show "\<not> d \<Longrightarrow> set chosen = {j. j < tot \<and> j \<noteq> i}"
    using assms(2) others(1) by (simp add: chosen_peers_def Let_def return_io_def)
  have drawn: "\<exists>n r. chosen = unique (fst (choose_multiple R ?others n r)) \<and>
      (1 < tot \<longrightarrow> n = fst (range_u64 R 1 (tot div 2) (cli_rng w)))" if d
  proof (cases "1 < tot")
    case True
    let ?n = "fst (range_u64 R 1 (tot div 2) (cli_rng w))" and ?r = "snd (range_u64 R 1 (tot div 2) (cli_rng w))"
    from assms(2) that True have "chosen = unique (fst (choose_multiple R ?others ?n ?r))"
      by (simp add: chosen_peers_def Let_def return_io_def bind_io_def cli_draw_apply)
    then show ?thesis by blast
  next
    case False
    from assms(2) that False have "chosen = unique (fst (choose_multiple R ?others 0 (cli_rng w)))"
      by (simp add: chosen_peers_def Let_def return_io_def bind_io_def cli_draw_apply)
    with False show ?thesis by blast
  qed
  show "set chosen \<subseteq> {j. j < tot \<and> j \<noteq> i}"
  proof (cases d)
    case True
    from drawn [OF True] obtain n r where c: "chosen = unique (fst (choose_multiple R ?others n r))" by blast
    from law(2) [of n r] show ?thesis unfolding c set_unique others(1) .
  next
    case False
    with assms(2) others(1) show ?thesis by (simp add: chosen_peers_def Let_def return_io_def)
  qed
  assume d: d and n: "1 < tot"
  let ?count = "fst (range_u64 R 1 (tot div 2) (cli_rng w))"
  have half: "unat (tot div 2) = unat tot div 2" by (simp add: unat_div)
  have "1 \<le> tot div 2" using n by (simp add: word_le_nat_alt word_less_nat_alt half)
  from range_lawsD [OF assms(1) this] have c: "1 \<le> ?count" "?count \<le> tot div 2" .
  have "length ?others = card {j. j < tot \<and> j \<noteq> i}" using distinct_card [OF others(2)] unfolding others(1) by (rule sym)
  also have "\<dots> = card ({j. j < tot} - {i})" by (rule arg_cong [where f = card]) auto
  also have "\<dots> = unat tot - 1"
    using assms(3) distinct_card [OF distinct_usize_range [of tot]]
    by (simp add: set_usize_range card_Diff_singleton) (simp add: usize_range_def)
  finally have "length ?others = unat tot - 1" .
  moreover have "length chosen = min (unat ?count) (length ?others)"
  proof -
    from drawn [OF d] n obtain r where "chosen = unique (fst (choose_multiple R ?others ?count r))" by blast
    with law(1) [of ?count r] law(3) [of ?count r] show ?thesis by (simp only: length_unique_distinct)
  qed
  ultimately show "1 \<le> length chosen \<and> length chosen \<le> unat (tot div 2)"
    using c n half by (auto simp: word_le_nat_alt word_less_nat_alt)
qed

text \<open>C38: a node of a local testnet is never given its own address as a peer. Its mempool peers are all
  others; its consensus peers are all others without discovery, and with discovery some of them, at
  least one and at most half as many as there are nodes.\<close>

theorem peers_of_node:
  assumes "config_laws C" and "cli_random_laws R" and "i < tot"
    and "generate_config C R i tot rt d b s no ni t transport lg w = (Inr cfg :: ('e, 'd Config) result, w')"
  shows "p2p_listen_addr (consensus_p2p cfg) \<notin> set (p2p_persistent_peers (consensus_p2p cfg)) \<and>
    set (p2p_persistent_peers (mempool_p2p cfg)) = addresses C transport 28000 {j. j < tot \<and> j \<noteq> i} \<and>
    set (p2p_persistent_peers (consensus_p2p cfg)) \<subseteq> addresses C transport 27000 {j. j < tot \<and> j \<noteq> i} \<and>
    (\<not> d \<longrightarrow> set (p2p_persistent_peers (consensus_p2p cfg)) = addresses C transport 27000 {j. j < tot \<and> j \<noteq> i}) \<and>
    (d \<longrightarrow> 1 < tot \<longrightarrow> 1 \<le> length (p2p_persistent_peers (consensus_p2p cfg)) \<and>
      length (p2p_persistent_peers (consensus_p2p cfg)) \<le> unat (tot div 2))"
proof -
  note g = generate_config_Inr [OF assms(4)]
  from g(5) obtain chosen where p: "(chosen_peers R i tot d w :: ('e, usize list) result \<times> _) = (Inr chosen, w')"
    "collect (local_peer C transport CONSENSUS_BASE_PORT) chosen =
      (Inr (p2p_persistent_peers (consensus_p2p cfg)) :: ('e, string list) result)" by blast
  note c = chosen_peers_Inr [OF assms(2) p(1) assms(3)]
  have cons: "set (p2p_persistent_peers (consensus_p2p cfg)) = addresses C transport 27000 (set chosen)"
    using local_peers_set [OF p(2)] by (simp add: CONSENSUS_BASE_PORT_def)
  have sub: "set (p2p_persistent_peers (consensus_p2p cfg)) \<subseteq> addresses C transport 27000 {j. j < tot \<and> j \<noteq> i}"
    unfolding cons using c(1) by (auto simp: addresses_def)
  moreover have "p2p_listen_addr (consensus_p2p cfg) \<notin> addresses C transport 27000 {j. j < tot \<and> j \<noteq> i}"
    using config_lawsD(2) [OF assms(1) g(2)] by (fastforce simp: addresses_def)
  moreover have "set (p2p_persistent_peers (mempool_p2p cfg)) = addresses C transport 28000 {j. j < tot \<and> j \<noteq> i}"
    using local_peers_set [OF g(6)] by (simp add: MEMPOOL_BASE_PORT_def set_usize_range Collect_conj_eq)
  moreover have "\<not> d \<longrightarrow> set (p2p_persistent_peers (consensus_p2p cfg)) = addresses C transport 27000 {j. j < tot \<and> j \<noteq> i}"
    unfolding cons using c(2) by simp
  moreover have "d \<longrightarrow> 1 < tot \<longrightarrow> 1 \<le> length (p2p_persistent_peers (consensus_p2p cfg)) \<and>
      length (p2p_persistent_peers (consensus_p2p cfg)) \<le> unat (tot div 2)"
    using c(3) collect_Inr_length [OF p(2)] by simp
  ultimately show ?thesis by blast
qed

end
