(* ===== verification/Cli_Files.thy ===== *)
theory Cli_Files
  imports Cli_Correct
begin

text \<open>
  What the commands leave on disk: the files of a testnet, which agree with each other, and those of
  \<open>init\<close>, which keeps what exists but makes a genesis for another key.
\<close>

section \<open>Saving files\<close>

abbreviation text_at :: "('f, 'd, 'y) file_lib_scheme \<Rightarrow> Path \<Rightarrow> ('r, 'f) cli_world \<Rightarrow> string option" where
  "text_at F q w \<equiv> file_text F q (cli_fs w)"

lemma file_lawsD:
  assumes "file_laws F"
  shows "file_text F q (snd (create_dir_all F p f)) = file_text F q f"
    and "q \<noteq> p \<Longrightarrow> file_text F q (snd (open_truncate F p f)) = file_text F q f"
    and "q \<noteq> p \<Longrightarrow> file_text F q (snd (write_all F p s f)) = file_text F q f"
    and "fst (write_all F p s f) \<Longrightarrow> file_text F p (snd (write_all F p s f)) = Some s"
    and "file_text F p f \<noteq> None \<Longrightarrow> path_exists F p f"
  using assms unfolding file_laws_def by blast+

lemma on_fs_apply: "on_fs e f w = (if fst (f (cli_fs w)) then Inr () else fail e, w\<lparr>cli_fs := snd (f (cli_fs w))\<rparr>)"
  by (simp add: on_fs_def split: prod.splits)

text \<open>A call on a path leaves the text of every other path.\<close>

lemma keeps_on_fs: "(\<And>fs. file_text F q (snd (f fs)) = file_text F q fs) \<Longrightarrow> keeps (=) (text_at F q) (on_fs e f)"
  by (rule keeps_same) (simp add: on_fs_apply)

lemma keeps_save:
  assumes "file_laws F" and "q \<noteq> p"
  shows "keeps (=) (text_at F q) (save F p data)"
  unfolding save_def
  by (intro keeps_bind keeps_on_fs file_lawsD(2,3) [OF assms]) (simp add: keeps_on_fs file_lawsD(1) [OF assms(1)])

lemma keeps_saves:
  assumes "file_laws F" and "q \<noteq> p"
  shows "keeps (=) (text_at F q) (save_config F p c)" "keeps (=) (text_at F q) (save_genesis F p g)"
    "keeps (=) (text_at F q) (save_priv_validator_key F p k)"
  unfolding save_config_def save_genesis_def save_priv_validator_key_def
  by (auto intro!: keeps_bind keeps_save [OF assms])

lemma save_Inr:
  "file_laws F \<Longrightarrow> save F p data w = (Inr u, w') \<Longrightarrow> text_at F p w' = Some data \<and> cli_rng w' = cli_rng w"
  by (auto simp: save_def bind_io_Inr on_fs_apply return_io_Inr file_lawsD(4) split: if_splits)

lemma saves_Inr:
  assumes "file_laws F"
  shows "save_config F p c w = (Inr u, w') \<Longrightarrow>
      \<exists>s. config_text F c = Inr s \<and> text_at F p w' = Some s \<and> cli_rng w' = cli_rng w"
    and "save_genesis F p g w = (Inr u, w') \<Longrightarrow>
      \<exists>s. genesis_text F g = Inr s \<and> text_at F p w' = Some s \<and> cli_rng w' = cli_rng w"
    and "save_priv_validator_key F p k w = (Inr u, w') \<Longrightarrow>
      \<exists>s. key_text F k = Inr s \<and> text_at F p w' = Some s \<and> cli_rng w' = cli_rng w"
  by (auto simp: save_config_def save_genesis_def save_priv_validator_key_def bind_io_Inr lift_io_Inr lift_lib_def
      split: sum.splits dest: save_Inr [OF assms])

text \<open>Randomness leaves the files.\<close>

lemma keeps_draws: "keeps (=) (text_at F q) (cli_draw f)"
  by (rule keeps_same) (simp add: cli_draw_apply)

lemma keeps_for_each: "(\<And>x. keeps R view (f x)) \<Longrightarrow> keeps R view (for_each f xs)"
  by (induction xs) (auto intro!: keeps_bind)

lemma keeps_with_generator:
  assumes "keeps (=) (text_at F q) m"
  shows "keeps (=) (text_at F q) (with_generator r m)"
proof (rule keeps_same)
  fix w
  obtain x w' where run: "m (w\<lparr>cli_rng := r\<rparr>) = (x, w')" by fastforce
  with keepsD [OF assms run] show "text_at F q (snd (with_generator r m w)) = text_at F q w"
    by (simp add: with_generator_def)
qed

lemma keeps_generated:
  "keeps (=) (text_at F q) (generate_private_keys R n deterministic)"
  "keeps (=) (text_at F q) (generate_genesis L R pks deterministic)"
  "keeps (=) (text_at F q) (generate_config C R i tot rt d b s no ni t transport lg)"
  unfolding generate_private_keys_def generate_genesis_def generate_config_def chosen_peers_def Let_def
  by (auto intro!: keeps_bind keeps_for_each keeps_draws keeps_with_generator)

section \<open>The files of a testnet\<close>

definition node_file :: "Path \<Rightarrow> nat \<Rightarrow> string \<Rightarrow> Path" where
  "node_file home_dir i name = home_dir @ [show_nat i, ''config'', name]"

lemma node_paths:
  "get_config_file_path F \<lparr>home = Some (home_dir @ [show_nat i])\<rparr> = Inr (node_file home_dir i CONFIG_FILE)"
  "get_genesis_file_path F \<lparr>home = Some (home_dir @ [show_nat i])\<rparr> = Inr (node_file home_dir i GENESIS_FILE)"
  "get_priv_validator_key_file_path F \<lparr>home = Some (home_dir @ [show_nat i])\<rparr> =
    Inr (node_file home_dir i PRIV_VALIDATOR_KEY_FILE)"
  by (simp_all add: get_config_file_path_def get_genesis_file_path_def get_priv_validator_key_file_path_def
      get_config_dir_def get_home_dir_def node_file_def)

lemma node_file_inject: "node_file h i m = node_file h j n \<longleftrightarrow> i = j \<and> m = n"
  by (simp add: node_file_def)

lemma file_names: "CONFIG_FILE \<noteq> GENESIS_FILE" "CONFIG_FILE \<noteq> PRIV_VALIDATOR_KEY_FILE" "GENESIS_FILE \<noteq> PRIV_VALIDATOR_KEY_FILE"
  by (simp_all add: CONFIG_FILE_def GENESIS_FILE_def PRIV_VALIDATOR_KEY_FILE_def)

text \<open>What saving one node leaves: its three files, and the others as they were.\<close>

definition node_saved ::
  "('f, 'd, 'y) file_lib_scheme \<Rightarrow> Path \<Rightarrow> nat \<Rightarrow> 'd Config \<Rightarrow> PrivateKey \<Rightarrow> Genesis \<Rightarrow> ('r, 'f) cli_world \<Rightarrow> bool" where
  "node_saved F home_dir i c k g w \<longleftrightarrow>
     (\<exists>s. config_text F c = Inr s \<and> text_at F (node_file home_dir i CONFIG_FILE) w = Some s) \<and>
     (\<exists>s. key_text F k = Inr s \<and> text_at F (node_file home_dir i PRIV_VALIDATOR_KEY_FILE) w = Some s) \<and>
     (\<exists>s. genesis_text F g = Inr s \<and> text_at F (node_file home_dir i GENESIS_FILE) w = Some s)"

lemma keeps_eqD: "keeps (=) view f \<Longrightarrow> f w = (r, w') \<Longrightarrow> view w' = view w"
  using keepsD [of "(=)" view f w r w'] by simp

lemma bind_lift_Inr: "bind_io (lift_io (Inr x)) f = f x"
  by (simp add: bind_io_def lift_io_def)

lemma save_node_Inr:
  assumes "file_laws F" and "save_node F (home_dir @ [show_nat i]) cfg k g w = (Inr u, w')"
  shows "\<exists>c w1. cfg w = (Inr c, w1) \<and> node_saved F home_dir i c k g w'"
proof -
  obtain c w1 w2 w3 where run: "cfg w = (Inr c, w1)"
    "save_config F (node_file home_dir i CONFIG_FILE) c w1 = (Inr (), w2)"
    "save_priv_validator_key F (node_file home_dir i PRIV_VALIDATOR_KEY_FILE) k w2 = (Inr (), w3)"
    "save_genesis F (node_file home_dir i GENESIS_FILE) g w3 = (Inr (), w')"
    using assms(2) by (auto simp: save_node_def Let_def node_paths bind_io_Inr lift_io_Inr)
  have "text_at F (node_file home_dir i CONFIG_FILE) w3 = text_at F (node_file home_dir i CONFIG_FILE) w2"
    by (rule keeps_eqD [OF keeps_saves(3) run(3)]) (simp_all add: assms(1) node_file_inject file_names)
  moreover have "text_at F (node_file home_dir i n) w' = text_at F (node_file home_dir i n) w3" if "n \<noteq> GENESIS_FILE" for n
    by (rule keeps_eqD [OF keeps_saves(2) run(4)]) (simp_all add: assms(1) node_file_inject that)
  ultimately show ?thesis
    using saves_Inr(1) [OF assms(1) run(2)] saves_Inr(3) [OF assms(1) run(3)] saves_Inr(2) [OF assms(1) run(4)] run(1)
      file_names by (auto simp: node_saved_def)
qed

lemma keeps_save_node:
  assumes "file_laws F" and "i \<noteq> j" and "\<And>q. keeps (=) (text_at F q) cfg"
  shows "keeps (=) (text_at F (node_file home_dir j n)) (save_node F (home_dir @ [show_nat i]) cfg k g)"
  unfolding save_node_def Let_def node_paths bind_lift_Inr
  by (intro keeps_bind keeps_saves keeps_io assms(1,3)) (use assms(2) in \<open>simp_all add: node_file_inject\<close>)

lemma save_nodes:
  assumes "file_laws F" and "\<And>i q. keeps (=) (text_at F q) (cfg i :: (('r, 'f) cli_world, CliError, 'd Config) io)"
    and "for_each (\<lambda>(i, k). save_node F (home_dir @ [show_nat i]) (cfg i) k g) xs w = (Inr us, w')"
    and "distinct (map fst xs)" and "(i, k) \<in> set xs"
  shows "\<exists>c w0 w1. cfg i w0 = (Inr c, w1) \<and> node_saved F home_dir i c k g w'"
  using assms(3-)
proof (induction xs arbitrary: w us)
  case (Cons x xs)
  obtain j l where x: "x = (j, l)" by fastforce
  with Cons.prems(1) obtain w1 vs where run: "save_node F (home_dir @ [show_nat j]) (cfg j) l g w = (Inr (), w1)"
    "for_each (\<lambda>(i, k). save_node F (home_dir @ [show_nat i]) (cfg i) k g) xs w1 = (Inr vs, w')"
    by (auto simp: bind_io_Inr return_io_Inr)
  show ?case
  proof (cases "(i, k) = x")
    case True
    from save_node_Inr [OF assms(1) run(1)] obtain c w2 where c: "cfg j w = (Inr c, w2)" "node_saved F home_dir j c l g w1"
      by blast
    have notin: "j \<noteq> fst y" if "y \<in> set xs" for y using Cons.prems(2) that x by force
    have "text_at F (node_file home_dir j n) w' = text_at F (node_file home_dir j n) w1" for n
      using run(2) notin
    proof (induction xs arbitrary: w1 vs)
      case (Cons y ys)
      then obtain w3 us where r: "save_node F (home_dir @ [show_nat (fst y)]) (cfg (fst y)) (snd y) g w1 = (Inr (), w3)"
        "for_each (\<lambda>(i, k). save_node F (home_dir @ [show_nat i]) (cfg i) k g) ys w3 = (Inr us, w')"
        by (auto simp: bind_io_Inr return_io_Inr split: prod.splits)
      have "text_at F (node_file home_dir j n) w3 = text_at F (node_file home_dir j n) w1"
        by (rule keeps_eqD [OF keeps_save_node r(1)]) (use Cons.prems(2) [of y] assms(1,2) in auto)
      with Cons.IH [OF r(2)] Cons.prems(2) show ?case by simp
    qed (simp add: return_io_Inr)
    with c True x show ?thesis by (auto simp: node_saved_def)
  next
    case False
    with Cons.prems x run(2) Cons.IH show ?thesis by auto
  qed
qed simp

text \<open>Keys are as many as asked for, and every power is one.\<close>

lemma for_each_length: "for_each f xs w = (Inr ys, w') \<Longrightarrow> length ys = length xs"
  by (induction xs arbitrary: w ys) (auto simp: bind_io_Inr return_io_Inr)

lemma with_generator_Inr: "with_generator r m w = (Inr x, w') \<Longrightarrow> \<exists>w1 w2. m w1 = (Inr x, w2)"
  by (auto simp: with_generator_def split: prod.splits)

lemma generated_keys_length:
  "generate_private_keys R n deterministic w = (Inr keys, w') \<Longrightarrow> length keys = unat n"
  by (auto simp: generate_private_keys_def Let_def dest!: with_generator_Inr for_each_length split: if_splits)

lemma powers_one:
  fixes w :: "('r, 'f) cli_world"
  assumes "cli_random_laws R"
  shows "for_each (\<lambda>pk. bind_io (cli_draw (range_u64 R MIN_VOTING_POWER MAX_VOTING_POWER)) (\<lambda>p. return_io (pk, p))) pks w =
    (Inr vals :: ('e, _) result, w') \<Longrightarrow> vals = map (\<lambda>pk. (pk, 1)) pks"
proof (induction pks arbitrary: w vals)
  case (Cons pk pks)
  let ?f = "\<lambda>pk. bind_io (cli_draw (range_u64 R MIN_VOTING_POWER MAX_VOTING_POWER)) (\<lambda>p. return_io (pk, p)) ::
    (('r, 'f) cli_world, 'e, _) io"
  let ?p = "fst (range_u64 R 1 1 (cli_rng w))"
  have "1 \<le> ?p" "?p \<le> 1" using range_lawsD [OF assms, of 1 1] by simp_all
  then have p: "?p = 1" by (rule order.antisym [rotated])
  have one: "?f pk w = (Inr (pk, ?p), w\<lparr>cli_rng := snd (range_u64 R 1 1 (cli_rng w))\<rparr>)"
    by (simp add: bind_io_def return_io_def cli_draw_apply MIN_VOTING_POWER_def MAX_VOTING_POWER_def)
  from Cons.prems [unfolded for_each.simps bind_io_Inr [of "?f pk"] one] obtain vs w1 where
    "vals = (pk, ?p) # vs" "for_each ?f pks w1 = (Inr vs, w')"
    by (auto simp: bind_io_Inr [of "for_each ?f pks"] return_io_Inr simp del: for_each.simps)
  moreover from this(2) have "vs = map (\<lambda>pk. (pk, 1)) pks" by (rule Cons.IH)
  ultimately show ?case using p by simp
qed (simp add: return_io_Inr)

lemma generated_genesis:
  fixes w :: "('r, 'f) cli_world"
  assumes "cli_random_laws R" and "generate_genesis L R pks deterministic w = (Inr g :: ('e, Genesis) result, w')"
  shows "set (validators (validator_set g)) = (\<lambda>pk. Validator_new L pk 1) ` set pks"
proof -
  let ?powers = "for_each (\<lambda>pk. bind_io (cli_draw (range_u64 R MIN_VOTING_POWER MAX_VOTING_POWER))
    (\<lambda>p. return_io (pk, p))) pks :: (('r, 'f) cli_world, 'e, _) io"
  obtain vals w1 w2 where v: "?powers w1 = (Inr vals :: ('e, _) result, w2)" "make_genesis L vals = (Inr g :: ('e, _) result)"
    using assms(2) by (auto simp: generate_genesis_def Let_def bind_io_Inr lift_io_Inr dest!: with_generator_Inr split: if_splits)
  from powers_one [OF assms(1) v(1)] v(2) show ?thesis
    by (auto simp: make_genesis_def ValidatorSet_new_def sort_validators_def Let_def set_dedup and_then_Inr_iff o_def
        assert_that_def split: if_splits)
qed

text \<open>A testnet that is written is complete and consistent: the node i has in its directory the key i of
  those generated for the command, a configuration with its own name, and the one genesis file, in which the public key of every node is a
  validator with voting power one, and which has no other validators.\<close>

lemma testnet_files:
  fixes w :: "('r, 'f) cli_world"
  assumes "file_laws F" and "cli_random_laws R" and "testnet L C R F cmd home_dir lg w = (Inr (), w')"
  shows "\<exists>keys w1 g. generate_private_keys R (tn_nodes cmd) (tn_deterministic cmd) w = (Inr keys :: (CliError, _) result, w1) \<and>
    length keys = unat (tn_nodes cmd) \<and>
    set (validators (validator_set g)) = (\<lambda>k. Validator_new L (sk_public_key (crypto L) k) 1) ` set keys \<and>
    (\<forall>i<length keys. \<exists>c. moniker c = ''test-'' @ show_nat i \<and> node_saved F home_dir i c (keys ! i) g w')"
proof -
  let ?cfg = "\<lambda>i. generate_config C R (of_nat i) (tn_nodes cmd) (runtime_config (tn_runtime cmd)) (tn_enable_discovery cmd)
    (tn_bootstrap_protocol cmd) (tn_selector cmd) (tn_num_outbound_peers cmd) (tn_num_inbound_peers cmd)
    (tn_ephemeral_connection_timeout_ms cmd) (tn_transport cmd) lg :: (('r, 'f) cli_world, CliError, _) io"
  obtain keys g w1 w2 us where run: "generate_private_keys R (tn_nodes cmd) (tn_deterministic cmd) w = (Inr keys :: (CliError, _) result, w1)"
    "generate_genesis L R (map (sk_public_key (crypto L)) keys) (tn_deterministic cmd) w1 = (Inr g :: (CliError, _) result, w2)"
    "for_each (\<lambda>(i, k). save_node F (home_dir @ [show_nat i]) (?cfg i) k g)
      (take (unat (tn_nodes cmd)) (enumerate 0 keys)) w2 = (Inr us, w')"
    using assms(3) by (auto simp: testnet_def Let_def bind_io_Inr return_io_Inr)
  have n: "length keys = unat (tn_nodes cmd)" using generated_keys_length [OF run(1)] .
  let ?xs = "take (unat (tn_nodes cmd)) (enumerate 0 keys)"
  have xs: "?xs = enumerate 0 keys" using n by simp
  have "\<exists>c. moniker c = ''test-'' @ show_nat i \<and> node_saved F home_dir i c (keys ! i) g w'" if i: "i < length keys" for i
  proof -
    have mem: "(i, keys ! i) \<in> set (enumerate 0 keys)" using i by (simp add: in_set_enumerate_eq)
    have dist: "distinct (map fst (enumerate 0 keys))" by simp
    from save_nodes [OF assms(1) keeps_generated(3) run(3) [unfolded xs] dist mem]
    obtain c w3 w4 where c: "?cfg i w3 = (Inr c, w4)" "node_saved F home_dir i c (keys ! i) g w'" by blast
    have "i < 2 ^ 64" using i n unat_u64_less [of "tn_nodes cmd"] by simp
    then have "moniker c = ''test-'' @ show_nat i" using generate_config_Inr(1) [OF c(1)] by (simp add: usize_of_nat)
    with c(2) show ?thesis by blast
  qed
  moreover have "set (validators (validator_set g)) = (\<lambda>k. Validator_new L (sk_public_key (crypto L) k) 1) ` set keys"
    using generated_genesis [OF assms(2) run(2)] by (simp add: image_image)
  ultimately show ?thesis using n run(1) by blast
qed

section \<open>\<open>init\<close>\<close>

lemma keeps_unless:
  assumes "file_laws F" and "q \<noteq> p \<or> \<not> overwrite" and "q \<noteq> p \<Longrightarrow> keeps (=) (text_at F q) m"
  shows "keeps (\<lambda>x y. x = None \<or> y = x) (text_at F q) (unless_kept F p overwrite m)"
proof (cases "q = p")
  case True
  have none: "file_text F p f = None" if "\<not> path_exists F p f" for f using that file_lawsD(5) [OF assms(1)] by blast
  from True assms(2) show ?thesis
    by (auto simp: keeps_def unless_kept_def bind_io_def get_io_def return_io_def none intro!: r_into_rtranclp)
next
  case False
  from assms(3) [OF this] have same: "keeps (=) (text_at F q) (unless_kept F p overwrite m)"
    unfolding unless_kept_def by (auto intro!: keeps_bind)
  show ?thesis unfolding keeps_def
  proof (intro allI impI)
    fix w r w' assume "unless_kept F p overwrite m w = (r, w')"
    with same have "text_at F q w' = text_at F q w" by (rule keeps_eqD)
    then show "(\<lambda>x y. x = None \<or> y = x)\<^sup>*\<^sup>* (text_at F q w) (text_at F q w')" by simp
  qed
qed

lemma some_star: "(\<lambda>x y. x = None \<or> y = x)\<^sup>*\<^sup>* x y \<Longrightarrow> x = None \<or> y = x"
  by (induction rule: rtranclp_induct) auto

text \<open>C40: without the overwrite flag init loses nothing: a file that has a text keeps it, whether init
  succeeds or fails, and also with the flag only its three files change.\<close>

theorem init_keeps_files:
  assumes "file_laws F" and "init L R F cfg cf gf kf overwrite w = (r, w')"
    and "text_at F q w = Some s" and "\<not> overwrite \<or> q \<notin> {cf, gf, kf}"
  shows "text_at F q w' = Some s"
proof -
  have "keeps (\<lambda>x y. x = None \<or> y = x) (text_at F q) (init L R F cfg cf gf kf overwrite)"
    unfolding init_def Let_def
    by (intro keeps_bind keeps_unless keeps_saves keeps_generated) (use assms(1,4) in auto)
  from keepsD [OF this assms(2)] assms(3) show ?thesis by (auto dest: some_star)
qed

text \<open>Saving brings only the path and the directories above it into being.\<close>

lemma file_exists_lawsD:
  assumes "file_laws F" and "take (length q) p \<noteq> q"
  shows "path_exists F q (snd (create_dir_all F p f)) = path_exists F q f"
    and "path_exists F q (snd (open_truncate F p f)) = path_exists F q f"
    and "path_exists F q (snd (write_all F p s f)) = path_exists F q f"
  using assms unfolding file_laws_def by blast+

lemma save_exists:
  assumes "file_laws F" and "take (length q) p \<noteq> q" and "save F p data w = (Inr u, w')"
  shows "path_exists F q (cli_fs w') = path_exists F q (cli_fs w)"
proof -
  have "take (length q) (butlast p) \<noteq> q"
  proof
    assume "take (length q) (butlast p) = q"
    then have q: "take (length q) (butlast p) = q" .
    then have "length q \<le> length p - 1" by (metis length_butlast length_take min.cobounded1)
    have "take (length q) p = q"
    proof (cases "p = []")
      case True
      with q show ?thesis by simp
    next
      case False
      with \<open>length q \<le> length p - 1\<close> have "length q < length p" by (cases p) auto
      from take_butlast [OF this] q show ?thesis by simp
    qed
    with assms(2) show False ..
  qed
  with assms show ?thesis
    by (auto simp: save_def bind_io_Inr on_fs_apply return_io_Inr file_exists_lawsD split: if_splits)
qed

lemma saved_Inr:
  assumes "file_laws F"
  shows "save_config F p c w = (Inr u, w') \<Longrightarrow> cli_rng w' = cli_rng w \<and>
      (\<forall>q. take (length q) p \<noteq> q \<longrightarrow> path_exists F q (cli_fs w') = path_exists F q (cli_fs w))"
    and "save_priv_validator_key F p k w = (Inr u, w') \<Longrightarrow> cli_rng w' = cli_rng w \<and>
      (\<exists>s. key_text F k = Inr s \<and> text_at F p w' = Some s) \<and>
      (\<forall>q. take (length q) p \<noteq> q \<longrightarrow> path_exists F q (cli_fs w') = path_exists F q (cli_fs w))"
  by (auto simp: save_config_def save_priv_validator_key_def bind_io_Inr lift_io_Inr lift_lib_def
      split: sum.splits dest: save_Inr [OF assms] save_exists [OF assms])

text \<open>C39: in a fresh directory init writes a genesis for another key than the node's: the key file holds the
  first key drawn, the only validator of the genesis is the second, and unless the two have the same
  public key the node is not a validator of its own genesis.\<close>

theorem init_genesis_of_other_key:
  fixes w :: "('r, 'f) cli_world"
  assumes "file_laws F" and "cli_random_laws R"
    and "cf = dir @ [CONFIG_FILE]" and "gf = dir @ [GENESIS_FILE]" and "kf = dir @ [PRIV_VALIDATOR_KEY_FILE]"
    and "overwrite \<or> (\<forall>p\<in>{kf, gf}. \<not> path_exists F p (cli_fs w))"
    and "generate_key R (cli_rng w) = (k1, r1)" and "generate_key R r1 = (k2, r2)"
    and "init L R F cfg cf gf kf overwrite w = (Inr (), w')"
  shows "\<exists>g s t. key_text F k1 = Inr s \<and> text_at F kf w' = Some s \<and> genesis_text F g = Inr t \<and> text_at F gf w' = Some t \<and>
    set (validators (validator_set g)) = {Validator_new L (sk_public_key (crypto L) k2) 1} \<and>
    (sk_public_key (crypto L) k1 \<noteq> sk_public_key (crypto L) k2 \<longrightarrow>
      get_by_public_key (validator_set g) (sk_public_key (crypto L) k1) = None)"
proof -
  let ?pk = "sk_public_key (crypto L)"
  have names: "cf \<noteq> kf" "gf \<noteq> kf" "gf \<noteq> cf" "take (length kf) cf \<noteq> kf" "take (length gf) cf \<noteq> gf" "take (length gf) kf \<noteq> gf"
    using assms(3-5) file_names by simp_all
  obtain w1 w2 where run: "unless_kept F cf overwrite (save_config F cf cfg) w = (Inr (), w1)"
    "unless_kept F kf overwrite (bind_io (generate_private_keys R 1 False) (\<lambda>ks. save_priv_validator_key F kf (ks ! 0))) w1 =
      (Inr (), w2)"
    "unless_kept F gf overwrite (bind_io (generate_private_keys R 1 False) (\<lambda>ks.
      bind_io (generate_genesis L R (map ?pk ks) False) (save_genesis F gf))) w2 = (Inr (), w')"
    using assms(9) by (auto simp: init_def Let_def bind_io_Inr)
  have w1: "cli_rng w1 = cli_rng w \<and> (overwrite \<or> (\<forall>p\<in>{kf, gf}. \<not> path_exists F p (cli_fs w1)))"
    using run(1) assms(6) saved_Inr(1) [OF assms(1)] names(4,5) by (auto simp: unless_kept_def bind_io_Inr get_io_Inr return_io_Inr split: if_splits)
  have draw: "generate_private_keys R 1 False v = (Inr [fst (generate_key R (cli_rng v))] :: (CliError, _) result,
      v\<lparr>cli_rng := snd (generate_key R (cli_rng v))\<rparr>)" for v :: "('r, 'f) cli_world"
    by (simp add: generate_private_keys_def Let_def bind_io_def return_io_def cli_draw_apply)
  from run(2) w1 have "save_priv_validator_key F kf k1 (w1\<lparr>cli_rng := r1\<rparr>) = (Inr (), w2)"
    using assms(7) by (simp add: unless_kept_def bind_io_def draw return_io_def get_io_def split: if_splits)
  from saved_Inr(2) [OF assms(1) this] w1 names(6) obtain s where k: "key_text F k1 = Inr s" "text_at F kf w2 = Some s"
    "cli_rng w2 = r1" "overwrite \<or> \<not> path_exists F gf (cli_fs w2)" by auto
  from run(3) k(3,4) assms(8) obtain g w3 where g:
    "generate_genesis L R [?pk k2] False (w2\<lparr>cli_rng := r2\<rparr>) = (Inr g :: (CliError, _) result, w3)"
    "save_genesis F gf g w3 = (Inr (), w')"
    by (auto simp: unless_kept_def bind_io_def draw return_io_def get_io_def split: if_splits prod.splits sum.splits)
  have "text_at F kf w3 = text_at F kf w2" using keeps_eqD [OF keeps_generated(2) g(1), of F kf] by simp
  moreover have "text_at F kf w' = text_at F kf w3"
    by (rule keeps_eqD [OF keeps_saves(2) g(2)]) (use assms(1) names in auto)
  ultimately have key: "text_at F kf w' = Some s" using k(2) by simp
  from saves_Inr(2) [OF assms(1) g(2)] obtain t where t: "genesis_text F g = Inr t" "text_at F gf w' = Some t" by blast
  have vs: "set (validators (validator_set g)) = {Validator_new L (?pk k2) 1}" using generated_genesis [OF assms(2) g(1)] by simp
  then have "?pk k1 \<noteq> ?pk k2 \<longrightarrow> get_by_public_key (validator_set g) (?pk k1) = None"
    by (auto simp: get_by_public_key_def find_None_iff Validator_new_def)
  with k(1) key t vs show ?thesis by blast
qed

end
