(* ===== verification/Node.thy ===== *)
theory Node
  imports Cli
begin

text \<open>
  The node of \<open>app/src/node.rs\<close>, how it starts from its files, and the commands of \<open>app/src/main.rs\<close>. The
  consensus engine that \<open>start\<close> launches, and the parsers of the files, are functions of libraries;
  the command line is parsed.
\<close>

section \<open>\<open>node.rs\<close>\<close>

record 'd App =
  app_config :: "'d Config"
  app_home_dir :: Path
  app_genesis_file :: Path
  app_private_key_file :: Path
  app_start_height :: "Height option"

record ('f, 'd) node_lib = "('f, 'd) file_lib" +
  parse_private_key :: "string \<Rightarrow> string + PrivateKey"
  parse_genesis :: "string \<Rightarrow> string + Genesis"
  load_config :: "Path \<Rightarrow> 'f \<Rightarrow> string + 'd Config"
  jwt_from_file :: "Path \<Rightarrow> 'f \<Rightarrow> string + bytes"
  start_engine :: "'d Config \<Rightarrow> Height option \<Rightarrow> ValidatorSet \<Rightarrow> string + unit"
  path_text :: "Path \<Rightarrow> string"
  cannot_read :: "Path \<Rightarrow> string"
  show_cli_error :: "CliError \<Rightarrow> string"
  show_report :: "Report \<Rightarrow> string"
  default_config :: "'d Config"

text \<open>What is written is read back, by serde and by the loader of configurations.\<close>

definition startup_laws :: "('f, 'd, 'y) node_lib_scheme \<Rightarrow> bool" where
  "startup_laws N \<longleftrightarrow>
     (\<forall>k s. key_text N k = Inr s \<longrightarrow> parse_private_key N s = Inr k) \<and>
     (\<forall>g s. genesis_text N g = Inr s \<longrightarrow> parse_genesis N s = Inr g) \<and>
     (\<forall>c s p fs. config_text N c = Inr s \<longrightarrow> file_text N p fs = Some s \<longrightarrow> load_config N p fs = Inr c)"

definition read_to_string :: "('f, 'd, 'y) node_lib_scheme \<Rightarrow> Path \<Rightarrow> 'f \<Rightarrow> (Report, string) result" where
  "read_to_string N p fs = ok_or (LibError (cannot_read N p)) (file_text N p fs)"

definition load_private_key_file :: "('f, 'd, 'y) node_lib_scheme \<Rightarrow> 'd App \<Rightarrow> 'f \<Rightarrow> (Report, PrivateKey) result" where
  "load_private_key_file N a fs =
     and_then (read_to_string N (app_private_key_file a) fs) (\<lambda>text. lift_lib LibError (parse_private_key N text))"

definition load_genesis :: "('f, 'd, 'y) node_lib_scheme \<Rightarrow> 'd App \<Rightarrow> 'f \<Rightarrow> (Report, Genesis) result" where
  "load_genesis N a fs =
     and_then (read_to_string N (app_genesis_file a) fs) (\<lambda>text. lift_lib LibError (parse_genesis N text))"

definition get_signing_provider :: "PrivateKey \<Rightarrow> Ed25519Provider" where
  "get_signing_provider k = \<lparr>private_key = k\<rparr>"

definition get_public_key :: "'z lib_scheme \<Rightarrow> PrivateKey \<Rightarrow> PublicKey" where
  "get_public_key L k = sk_public_key (crypto L) k"

text \<open>\<open>Auth::new_from_path\<close> and the constructors of the clients.\<close>

definition Auth_new :: "bytes \<Rightarrow> Auth" where
  "Auth_new secret = \<lparr>auth_key = secret\<rparr>"

definition Auth_new_from_path :: "('f, 'd, 'y) node_lib_scheme \<Rightarrow> Path \<Rightarrow> 'f \<Rightarrow> (Report, Auth) result" where
  "Auth_new_from_path N jwt_path fs = and_then (lift_lib LibError (jwt_from_file N jwt_path fs)) (\<lambda>secret. Inr (Auth_new secret))"

definition EngineRPC_new :: "('f, 'd, 'y) node_lib_scheme \<Rightarrow> string \<Rightarrow> Path \<Rightarrow> 'f \<Rightarrow> (Report, EngineRPC) result" where
  "EngineRPC_new N url jwt_path fs =
     and_then (map_err (\<lambda>e. Eyre (''Failed to load configuration file: '' @ show_report N e)) (Auth_new_from_path N jwt_path fs))
       (\<lambda>auth. Inr \<lparr>er_url = url, er_auth = auth\<rparr>)"

definition EthereumRPC_new :: "string \<Rightarrow> EthereumRPC" where
  "EthereumRPC_new url = \<lparr>eth_url = url\<rparr>"

definition Engine_new :: "EngineRPC \<Rightarrow> EthereumRPC \<Rightarrow> Engine" where
  "Engine_new api eth = \<lparr>eng_api = api, eng_eth = eth\<rparr>"

text \<open>\<open>start\<close>, up to the task that runs the application on the state and the engine it returns.\<close>

definition App_start ::
  "('db, 'tx, 'z) store_lib_scheme \<Rightarrow> ('f, 'd, 'y) node_lib_scheme \<Rightarrow> 'd App \<Rightarrow> 'f \<Rightarrow>
    (Report, 'db State \<times> Engine) result" where
  "App_start L N a fs =
     and_then (load_private_key_file N a fs) (\<lambda>sk.
     let public_key = get_public_key L sk;
         addr = get_address L public_key;
         signing_provider = get_signing_provider sk in
     and_then (load_genesis N a fs) (\<lambda>genesis.
     let initial_validator_set = validator_set genesis in
     and_then (lift_lib LibError (start_engine N (app_config a) (app_start_height a) initial_validator_set)) (\<lambda>_.
     and_then (map_err FromStoreError (Store_open L (path_text N (app_home_dir a @ [''store.db''])) DbMetrics_new)) (\<lambda>store.
     let height = (case app_start_height a of Some h \<Rightarrow> h | None \<Rightarrow> Height_default);
         state = State_new genesis signing_provider addr height store L;
         jwt_path = [''.'', ''assets'', ''jwtsecret''] in
     and_then (EngineRPC_new N (engine_url (moniker (app_config a))) jwt_path fs) (\<lambda>api.
       Inr (state, Engine_new api (EthereumRPC_new (eth_endpoint (moniker (app_config a))))))))))"

section \<open>\<open>main.rs\<close>\<close>

datatype Commands = StartCommand "u64 option" | InitCommand InitCmd | TestnetCommand TestnetCmd
  | DistributedTestnetCommand DistributedTestnetCmd

text \<open>The paths of the node; a failure is an error of the command.\<close>

definition app_paths :: "('f, 'd, 'y) node_lib_scheme \<Rightarrow> Args \<Rightarrow> (Report, Path \<times> Path \<times> Path) result" where
  "app_paths N args =
     map_err (\<lambda>e. LibError (show_cli_error N e))
       (and_then (get_home_dir N args) (\<lambda>h.
        and_then (get_genesis_file_path N args) (\<lambda>g.
        and_then (get_priv_validator_key_file_path N args) (\<lambda>k. Inr (h, g, k)))))"

definition main_start ::
  "('db, 'tx, 'z) store_lib_scheme \<Rightarrow> ('f, 'd, 'y) node_lib_scheme \<Rightarrow> Args \<Rightarrow> u64 option \<Rightarrow> 'd \<Rightarrow> 'f \<Rightarrow>
    (Report, 'db State \<times> Engine) result" where
  "main_start L N args height lg fs =
     and_then (map_err (\<lambda>e. Eyre (''Failed to get configuration file path: '' @ show_cli_error N e))
       (get_config_file_path N args)) (\<lambda>config_file.
     and_then (lift_lib (\<lambda>e. Eyre (''Failed to load configuration file: '' @ e)) (load_config N config_file fs)) (\<lambda>cfg.
     and_then (app_paths N args) (\<lambda>(h, g, k).
     let app = \<lparr>app_config = cfg\<lparr>logging := lg\<rparr>, app_home_dir = h, app_genesis_file = g, app_private_key_file = k,
           app_start_height = map_option Height_new height\<rparr> in
       map_err (\<lambda>e. Eyre (''Failed to run the application node: '' @ show_report N e)) (App_start L N app fs))))"

definition report_cli ::
  "(CliError \<Rightarrow> Report) \<Rightarrow> (('r, 'f) cli_world, CliError, 'a) io \<Rightarrow> (('r, 'f) cli_world, Report, 'a) io" where
  "report_cli f m = (\<lambda>w. apfst (map_err f) (m w))"

definition main_init ::
  "'z lib_scheme \<Rightarrow> ('d, 'v) config_lib_scheme \<Rightarrow> ('r, 'x) cli_random_scheme \<Rightarrow> ('f, 'd, 'y) node_lib_scheme \<Rightarrow>
    Args \<Rightarrow> InitCmd \<Rightarrow> 'd \<Rightarrow> (('r, 'f) cli_world, Report, unit) io" where
  "main_init L C R N args cmd lg =
     bind_io (lift_io (app_paths N args)) (\<lambda>(h, g, k).
     bind_io (report_cli (\<lambda>e. LibError (show_cli_error N e)) (lift_io (get_config_file_path N args))) (\<lambda>config_file.
       report_cli (\<lambda>e. Eyre (''Failed to run init command '' @ show_cli_error N e))
         (InitCmd_run L C R N cmd config_file g k lg)))"

definition main_testnet ::
  "'z lib_scheme \<Rightarrow> ('d, 'v) config_lib_scheme \<Rightarrow> ('r, 'x) cli_random_scheme \<Rightarrow> ('f, 'd, 'y) node_lib_scheme \<Rightarrow>
    Args \<Rightarrow> TestnetCmd \<Rightarrow> 'd \<Rightarrow> (('r, 'f) cli_world, Report, unit) io" where
  "main_testnet L C R N args cmd lg =
     bind_io (lift_io (app_paths N args)) (\<lambda>(h, g, k). \<lambda>w.
       apfst (map_err (\<lambda>e. Eyre (''Failed to run testnet command '' @ show_report N e)))
         (TestnetCmd_run L C R N (show_cli_error N) cmd h lg w))"

text \<open>The dispatch; the last command is not implemented.\<close>

fun main_command ::
  "('db, 'tx, 'z) store_lib_scheme \<Rightarrow> ('d, 'v) config_lib_scheme \<Rightarrow> ('r, 'x) cli_random_scheme \<Rightarrow>
    ('f, 'd, 'y) node_lib_scheme \<Rightarrow> Args \<Rightarrow> 'd \<Rightarrow> Commands \<Rightarrow>
    (('r, 'f) cli_world, Report, ('db State \<times> Engine) option) io" where
  "main_command L C R N args lg (StartCommand h) =
     bind_io get_io (\<lambda>w. bind_io (lift_io (main_start L N args h lg (cli_fs w))) (\<lambda>n. return_io (Some n)))"
| "main_command L C R N args lg (InitCommand cmd) = bind_io (main_init L C R N args cmd lg) (\<lambda>_. return_io None)"
| "main_command L C R N args lg (TestnetCommand cmd) = bind_io (main_testnet L C R N args cmd lg) (\<lambda>_. return_io None)"
| "main_command L C R N args lg (DistributedTestnetCommand cmd) = lift_io (panic ''not implemented'')"

end
