(* ===== verification/Node_Correct.thy ===== *)
theory Node_Correct
  imports Node Cli_Files
begin

text \<open>
  The commands and the node together: the nodes of a testnet start from the files that the command
  \<open>testnet\<close> writes, as validators of one genesis, and a node from \<open>init\<close> starts, but not as one.
\<close>

lemma startup_lawsD:
  assumes "startup_laws N"
  shows "key_text N k = Inr s \<Longrightarrow> parse_private_key N s = Inr k"
    and "genesis_text N g = Inr s \<Longrightarrow> parse_genesis N s = Inr g"
    and "config_text N c = Inr s \<Longrightarrow> file_text N p fs = Some s \<Longrightarrow> load_config N p fs = Inr c"
  using assms unfolding startup_laws_def by blast+

lemma app_paths_home:
  "app_paths N \<lparr>home = Some h\<rparr> = Inr (h, h @ [''config'', GENESIS_FILE], h @ [''config'', PRIV_VALIDATOR_KEY_FILE])"
  by (simp add: app_paths_def get_home_dir_def get_genesis_file_path_def get_priv_validator_key_file_path_def get_config_dir_def)

text \<open>The state that a node has when it starts: the keys of its file, the genesis of its file, at the start height.\<close>

definition started :: "'z lib_scheme \<Rightarrow> PrivateKey \<Rightarrow> Genesis \<Rightarrow> Height \<Rightarrow> string \<Rightarrow> 'db State \<times> Engine \<Rightarrow> bool" where
  "started L k g height name n \<longleftrightarrow>
     genesis (fst n) = g \<and> private_key (signing_provider (fst n)) = k \<and>
     State.address (fst n) = Address_from_public_key L (sk_public_key (crypto L) k) \<and>
     current_height (fst n) = height \<and> er_url (eng_api (snd n)) = engine_url name \<and> eth_url (eng_eth (snd n)) = eth_endpoint name"

lemma App_start_ok:
  assumes "startup_laws N"
    and "key_text N k = Inr s" and "file_text N (app_private_key_file a) fs = Some s"
    and "genesis_text N g = Inr t" and "file_text N (app_genesis_file a) fs = Some t"
    and "start_engine N (app_config a) (app_start_height a) (validator_set g) = Inr ()"
    and "Store_open L (path_text N (app_home_dir a @ [''store.db''])) DbMetrics_new = Inr db"
    and "jwt_from_file N [''.'', ''assets'', ''jwtsecret''] fs = Inr secret"
  shows "\<exists>n. App_start L N a fs = Inr n \<and>
    started L k g (case app_start_height a of Some h \<Rightarrow> h | None \<Rightarrow> Height_default) (moniker (app_config a)) n"
  using assms(3,5-) startup_lawsD(1) [OF assms(1,2)] startup_lawsD(2) [OF assms(1,4)]
  by (simp add: App_start_def load_private_key_file_def load_genesis_def read_to_string_def Let_def EngineRPC_new_def
      Auth_new_from_path_def started_def State_new_def get_signing_provider_def get_public_key_def get_address_def
      Engine_new_def EthereumRPC_new_def)

lemma main_start_ok:
  assumes "startup_laws N"
    and "config_text N c = Inr r" and "file_text N (h @ [''config'', CONFIG_FILE]) fs = Some r"
    and "key_text N k = Inr s" and "file_text N (h @ [''config'', PRIV_VALIDATOR_KEY_FILE]) fs = Some s"
    and "genesis_text N g = Inr t" and "file_text N (h @ [''config'', GENESIS_FILE]) fs = Some t"
    and "start_engine N (c\<lparr>logging := lg\<rparr>) (map_option Height_new height) (validator_set g) = Inr ()"
    and "Store_open L (path_text N (h @ [''store.db''])) DbMetrics_new = Inr db"
    and "jwt_from_file N [''.'', ''assets'', ''jwtsecret''] fs = Inr secret"
  shows "\<exists>n. main_start L N \<lparr>home = Some h\<rparr> height lg fs = Inr n \<and>
    started L k g (case height of Some x \<Rightarrow> Height_new x | None \<Rightarrow> Height_default) (moniker c) n"
proof -
  let ?a = "\<lparr>app_config = c\<lparr>logging := lg\<rparr>, app_home_dir = h, app_genesis_file = h @ [''config'', GENESIS_FILE],
    app_private_key_file = h @ [''config'', PRIV_VALIDATOR_KEY_FILE], app_start_height = map_option Height_new height\<rparr>"
  obtain n where n: "App_start L N ?a fs = Inr n"
    "started L k g (case map_option Height_new height of Some h \<Rightarrow> h | None \<Rightarrow> Height_default) (moniker c) n"
    using App_start_ok [of N k s ?a fs g t L db secret] assms by auto
  moreover have "load_config N (h @ [''config'', CONFIG_FILE]) fs = Inr c" by (rule startup_lawsD(3) [OF assms(1-3)])
  ultimately show ?thesis
    by (cases height) (simp_all add: main_start_def app_paths_home get_config_file_path_def get_config_dir_def get_home_dir_def)
qed

text \<open>C29: every node of a testnet starts: after the command testnet has written its files, the command start with the
  directory of any node succeeds where the consensus engine, the database and the token file are
  available; the node i signs with the key i of those that the command generated; all nodes have the same genesis, whose validators are these keys and no others, and the
  node's address is that of the validator with its public key, whose voting power is one; it talks to
  the execution layer that belongs to its name.\<close>

theorem testnet_nodes_start:
  fixes w :: "('r, 'f) cli_world"
  assumes "file_laws N" and "startup_laws N" and "cli_random_laws R"
    and "testnet L C R N cmd dir lg w = (Inr (), w')"
    and "\<And>c h vs. start_engine N c h vs = Inr ()" and "\<And>p. \<exists>db. Store_open L p DbMetrics_new = Inr (db :: 'db Db)"
    and "jwt_from_file N [''.'', ''assets'', ''jwtsecret''] (cli_fs w') = Inr secret"
  shows "\<exists>keys w1 g.
    generate_private_keys R (tn_nodes cmd) (tn_deterministic cmd) w = (Inr keys :: (CliError, _) result, w1) \<and>
    length keys = unat (tn_nodes cmd) \<and>
    set (validators (validator_set g)) = (\<lambda>k. Validator_new L (sk_public_key (crypto L) k) 1) ` set keys \<and>
    (\<forall>i<length keys. \<exists>n.
      main_start L N \<lparr>home = Some (dir @ [show_nat i])\<rparr> None lg' (cli_fs w') = Inr (n :: 'db State \<times> Engine) \<and>
      started L (keys ! i) g Height_INITIAL (''test-'' @ show_nat i) n \<and>
      (\<exists>v. get_by_public_key (get_validator_set (fst n)) (sk_public_key (crypto L) (keys ! i)) = Some v \<and>
        validator_address v = State.address (fst n) \<and> validator_voting_power v = 1))"
proof -
  let ?pk = "sk_public_key (crypto L)"
  obtain keys w1 g where gen: "generate_private_keys R (tn_nodes cmd) (tn_deterministic cmd) w = (Inr keys :: (CliError, _) result, w1)"
    and keys: "length keys = unat (tn_nodes cmd)"
    and vs: "set (validators (validator_set g)) = (\<lambda>k. Validator_new L (?pk k) 1) ` set keys"
    and files: "\<And>i. i < length keys \<Longrightarrow> \<exists>c. moniker c = ''test-'' @ show_nat i \<and> node_saved N dir i c (keys ! i) g w'"
    using testnet_files [OF assms(1,3,4)] by blast
  have "\<exists>n. main_start L N \<lparr>home = Some (dir @ [show_nat i])\<rparr> None lg' (cli_fs w') = Inr (n :: 'db State \<times> Engine) \<and>
      started L (keys ! i) g Height_INITIAL (''test-'' @ show_nat i) n \<and>
      (\<exists>v. get_by_public_key (get_validator_set (fst n)) (?pk (keys ! i)) = Some v \<and>
        validator_address v = State.address (fst n) \<and> validator_voting_power v = 1)" if i: "i < length keys" for i
  proof -
    let ?h = "dir @ [show_nat i]"
    from files [of i] i obtain c where c: "moniker c = ''test-'' @ show_nat i" "node_saved N dir i c (keys ! i) g w'" by auto
    from c(2) obtain r s t where saved: "config_text N c = Inr r" "text_at N (?h @ [''config'', CONFIG_FILE]) w' = Some r"
      "key_text N (keys ! i) = Inr s" "text_at N (?h @ [''config'', PRIV_VALIDATOR_KEY_FILE]) w' = Some s"
      "genesis_text N g = Inr t" "text_at N (?h @ [''config'', GENESIS_FILE]) w' = Some t"
      by (auto simp: node_saved_def node_file_def)
    obtain db where db: "Store_open L (path_text N (?h @ [''store.db''])) DbMetrics_new = Inr (db :: 'db Db)" using assms(6) by blast
    obtain n where n: "main_start L N \<lparr>home = Some ?h\<rparr> None lg' (cli_fs w') = Inr n"
      "started L (keys ! i) g Height_INITIAL (moniker c) (n :: 'db State \<times> Engine)"
      using main_start_ok [OF assms(2) saved assms(5) db assms(7), where lg = lg' and height = None] that
      by (simp add: Height_default_def Height_INITIAL_def Height_new_def) blast
    let ?v = "Validator_new L (?pk (keys ! i)) 1"
    have found: "get_by_public_key (validator_set g) (?pk (keys ! i)) = Some ?v"
    proof -
      have mem: "?v \<in> set (validators (validator_set g))" using vs i by auto
      have all: "v = ?v" if "v \<in> set (validators (validator_set g))" "validator_public_key v = ?pk (keys ! i)" for v
        using that vs by (auto simp: Validator_new_def)
      have "get_by_public_key (validator_set g) (?pk (keys ! i)) \<noteq> None"
        using mem by (auto simp: get_by_public_key_def find_None_iff Validator_new_def)
      then obtain v where v: "get_by_public_key (validator_set g) (?pk (keys ! i)) = Some v" by blast
      then have "v \<in> set (validators (validator_set g))" "validator_public_key v = ?pk (keys ! i)"
        by (auto simp: get_by_public_key_def find_Some_iff)
      from all [OF this] v show ?thesis by simp
    qed
    have "get_validator_set (fst n) = validator_set g" "State.address (fst n) = validator_address ?v"
      using n(2) by (simp_all add: started_def get_validator_set_def Validator_new_def)
    with n found c(1) show ?thesis by (intro exI [of _ n]) (auto simp: Validator_new_def)
  qed
  with gen keys vs show ?thesis by blast
qed

end
