(* ===== verification/Reference_Cli.thy ===== *)
theory Reference_Cli
  imports Node_Correct Reference_Db
begin

text \<open>
  Concrete libraries for the commands: addresses that are text, random numbers that count, and files
  that are a map from paths to texts; with them the witnesses of the properties of the commands.
\<close>

section \<open>Libraries\<close>

definition loopback :: "unit config_lib" where
  "loopback = \<lparr>
     multiaddr = (\<lambda>t host port. if unat port < 2 ^ 16 then Some (host @ '':'' @ show_nat (unat port)) else None),
     socket_addr = (\<lambda>s. if \<exists>n<2 ^ 16. s = ''127.0.0.1:'' @ show_nat n then Some s else None),
     default_timeouts = (), default_protocol = (), default_p2p = (),
     default_sync = \<lparr>sync_enabled = True, sync_status_update_interval = 5, sync_request_timeout = 10\<rparr>,
     default_test = ()\<rparr>"

lemma loopback_laws: "config_laws loopback"
proof -
  have "unat p = unat q \<Longrightarrow> p = q" for p q :: usize by (rule word_eq_iff_unsigned [THEN iffD2])
  then show ?thesis unfolding config_laws_def by (auto simp: loopback_def split: if_splits)
qed

text \<open>The generator counts: key \<open>n\<close> is the \<open>n\<close>-th byte, a range gives its lower end, a choice the first elements.\<close>

definition counting :: "nat cli_random" where
  "counting = \<lparr>range_u64 = (\<lambda>lo hi r. (lo, Suc r)), choose_multiple = (\<lambda>xs n r. (take (unat n) xs, Suc r)),
     generate_key = (\<lambda>r. (PrivateKey [of_nat r], Suc r)), seed_from_u64 = unat\<rparr>"

lemma counting_laws: "cli_random_laws counting"
  by (auto simp: cli_random_laws_def counting_def min.commute dest: in_set_takeD)

type_synonym files = "(string list, string) map"

definition blank :: "(nat, files) cli_world" where
  "blank = \<lparr>cli_rng = 7, cli_fs = Map.empty\<rparr>"

section \<open>The configurations of two nodes\<close>

abbreviation two_nodes :: "bool \<Rightarrow> usize \<Rightarrow> ((nat, files) cli_world, 'e, unit Config) io" where
  "two_nodes d i \<equiv> generate_config loopback counting i 2 RuntimeSingleThreaded d BootstrapFull SelectorRandom 20 20 5000 Tcp ()"

lemma usize_range_2: "usize_range 0 2 = [0, 1]"
  by (simp add: usize_range_def upt_conv_Cons)

lemma loopback_addr:
  "unat p < 2 ^ 16 \<Longrightarrow> host_addr loopback t ''127.0.0.1'' p = Inr (''127.0.0.1:'' @ show_nat (unat p))"
  "n < 2 ^ 16 \<Longrightarrow> socket_addr loopback (''127.0.0.1:'' @ show_nat n) = Some (''127.0.0.1:'' @ show_nat n)"
  by (auto simp: host_addr_def loopback_def)

lemma two_nodes_ok:
  assumes "i \<in> {0, 1}"
  shows "\<exists>c w'. (two_nodes d i w :: ('e, unit Config) result \<times> _) = (Inr c, w')"
  using assms
  by (auto simp: generate_config_def chosen_peers_def usize_range_2 bind_io_def lift_io_def return_io_def Let_def
      add_chk_def local_peer_def CONSENSUS_BASE_PORT_def MEMPOOL_BASE_PORT_def METRICS_BASE_PORT_def cli_draw_def
      counting_def unique_def loopback_addr(1) loopback_addr(2) [simplified])

section \<open>Files\<close>

text \<open>Text made of bytes.\<close>

definition bytes_text :: "bytes \<Rightarrow> string" where
  "bytes_text bs = map (\<lambda>b. char_of (unat b)) bs"

definition text_bytes :: "string \<Rightarrow> bytes" where
  "text_bytes s = map (\<lambda>c. of_nat (of_char c)) s"

lemma text_bytes_text [simp]: "text_bytes (bytes_text bs) = bs"
proof -
  have "of_nat (of_char (char_of (unat b) :: char)) = b" for b :: u8
  proof -
    have "(of_char (char_of (unat b) :: char) :: nat) = unat b" using unat_u8_less [of b] by (simp add: take_bit_nat_eq_self)
    then show ?thesis by simp
  qed
  then show ?thesis by (simp add: text_bytes_def bytes_text_def o_def map_idI)
qed

definition ser_validator :: "Validator ser" where
  "ser_validator = ser_iso
     (\<lambda>v. (address_word (validator_address v), pk_as_bytes std_crypto (validator_public_key v), validator_voting_power v))
     (\<lambda>(a, k, p). \<lparr>validator_address = Address a, validator_public_key = PublicKey k, validator_voting_power = p\<rparr>)
     (ser_pair ser_word (ser_pair ser_bytes ser_word))"

definition ser_genesis :: "Genesis ser" where
  "ser_genesis = ser_iso (\<lambda>g. validators (validator_set g)) (\<lambda>vs. \<lparr>validator_set = \<lparr>validators = vs\<rparr>\<rparr>) (ser_list ser_validator)"

lemma ser_ok_genesis: "ser_ok ser_genesis"
  unfolding ser_genesis_def ser_validator_def
  by (intro ser_intros) (auto simp: std_crypto_def split: PublicKey.split)

text \<open>The configurations of the two nodes are the ones that have a text.\<close>

definition sample_config :: "usize \<Rightarrow> unit Config" where
  "sample_config i = projr (fst (two_nodes False i blank :: (unit, unit Config) result \<times> _))"

lemma two_nodes_config:
  assumes "i \<in> {0, 1}"
  shows "(two_nodes False i w :: ('e, unit Config) result \<times> _) = (Inr (sample_config i), w)"
  using assms
  by (auto simp: sample_config_def generate_config_def chosen_peers_def usize_range_2 bind_io_def lift_io_def return_io_def Let_def
      add_chk_def local_peer_def CONSENSUS_BASE_PORT_def MEMPOOL_BASE_PORT_def METRICS_BASE_PORT_def
      loopback_addr(1) loopback_addr(2) [simplified])

lemma sample_config_names: "moniker (sample_config 0) = ''test-0''" "moniker (sample_config 1) = ''test-1''"
proof -
  have d: "show_nat 0 = ''0''" "show_nat 1 = ''1''" by code_simp+
  show "moniker (sample_config 0) = ''test-0''" "moniker (sample_config 1) = ''test-1''"
    using generate_config_Inr(1) [OF two_nodes_config [of 0 blank, where 'e = unit]]
      generate_config_Inr(1) [OF two_nodes_config [of 1 blank, where 'e = unit]] d by simp_all
qed

definition map_files :: "(files, unit) node_lib" where
  "map_files = \<lparr>create_dir_all = (\<lambda>p f. (True, f)),
     open_truncate = (\<lambda>p f. (True, f(p \<mapsto> ''''))),
     write_all = (\<lambda>p s f. (True, f(p \<mapsto> s))),
     path_exists = (\<lambda>p f. f p \<noteq> None),
     file_text = (\<lambda>p f. f p),
     config_text = (\<lambda>c. if c = sample_config 0 then Inr ''node 0'' else if c = sample_config 1 then Inr ''node 1'' else Inl ''unknown''),
     genesis_text = (\<lambda>g. Inr (bytes_text (fst ser_genesis g))),
     key_text = (\<lambda>k. case k of PrivateKey b \<Rightarrow> Inr (bytes_text b)),
     base_home = Some [''home''],
     parse_private_key = (\<lambda>s. Inr (PrivateKey (text_bytes s))),
     parse_genesis = (\<lambda>s. case snd ser_genesis (text_bytes s) of Some (g, []) \<Rightarrow> Inr g | _ \<Rightarrow> Inl ''bad genesis''),
     load_config = (\<lambda>p f. if f p = Some ''node 0'' then Inr (sample_config 0)
       else if f p = Some ''node 1'' then Inr (sample_config 1) else Inl ''bad configuration''),
     jwt_from_file = (\<lambda>p f. Inr [1, 2, 3]),
     start_engine = (\<lambda>c h vs. Inr ()),
     path_text = concat,
     cannot_read = (\<lambda>p. ''cannot read''),
     show_cli_error = (\<lambda>e. ''error''),
     show_report = (\<lambda>e. ''report''),
     default_config = sample_config 0\<rparr>"

lemma map_files_laws: "file_laws map_files"
  unfolding file_laws_def by (auto simp: map_files_def)

lemma map_files_node_laws: "startup_laws map_files"
  using ser_okD [OF ser_ok_genesis, of _ "[]"]
  unfolding startup_laws_def by (auto simp: map_files_def split: PrivateKey.splits if_splits)

section \<open>Configurations and peers\<close>

theorem node_addresses_witness:
  "\<exists>c0 c1 w0 w1. (two_nodes False 0 blank :: (unit, unit Config) result \<times> _) = (Inr c0, w0) \<and>
    (two_nodes False 1 blank :: (unit, unit Config) result \<times> _) = (Inr c1, w1) \<and>
    p2p_listen_addr (consensus_p2p c0) \<noteq> p2p_listen_addr (consensus_p2p c1) \<and>
    p2p_listen_addr (consensus_p2p c1) \<noteq> p2p_listen_addr (mempool_p2p c0)"
proof -
  obtain c0 w0 c1 w1 where c: "(two_nodes False 0 blank :: (unit, unit Config) result \<times> _) = (Inr c0, w0)"
    "(two_nodes False 1 blank :: (unit, unit Config) result \<times> _) = (Inr c1, w1)"
    using two_nodes_ok [of 0 False blank] two_nodes_ok [of 1 False blank] by blast
  have "p2p_listen_addr (consensus_p2p c0) \<noteq> p2p_listen_addr (consensus_p2p c1)"
    "p2p_listen_addr (consensus_p2p c1) \<noteq> p2p_listen_addr (mempool_p2p c0)"
    using node_addresses [OF loopback_laws c] node_addresses [OF loopback_laws c(2) c(1)] by simp_all
  with c show ?thesis by (intro exI conjI)
qed

theorem execution_layer_shared_witness:
  "\<exists>c0 c1 w0 w1. (two_nodes False 0 blank :: (unit, unit Config) result \<times> _) = (Inr c0, w0) \<and>
    (two_nodes False 1 blank :: (unit, unit Config) result \<times> _) = (Inr c1, w1) \<and>
    engine_url (moniker c0) \<noteq> engine_url (moniker c1)"
proof -
  obtain c0 w0 c1 w1 where c: "(two_nodes False 0 blank :: (unit, unit Config) result \<times> _) = (Inr c0, w0)"
    "(two_nodes False 1 blank :: (unit, unit Config) result \<times> _) = (Inr c1, w1)"
    using two_nodes_ok [of 0 False blank] two_nodes_ok [of 1 False blank] by blast
  have "engine_url (moniker c0) \<noteq> engine_url (moniker c1)" using execution_layer_shared [OF c] by simp
  with c show ?thesis by (intro exI conjI)
qed

theorem peers_of_node_witness:
  "\<exists>c w'. (two_nodes True 1 blank :: (unit, unit Config) result \<times> _) = (Inr c, w') \<and>
    length (p2p_persistent_peers (consensus_p2p c)) = 1 \<and>
    p2p_listen_addr (consensus_p2p c) \<notin> set (p2p_persistent_peers (consensus_p2p c))"
proof -
  obtain c w' where c: "(two_nodes True 1 blank :: (unit, unit Config) result \<times> _) = (Inr c, w')"
    using two_nodes_ok [of 1 True blank] by blast
  have "(1 :: usize) < 2" "unat ((2 :: usize) div 2) = 1" by simp_all
  with peers_of_node [OF loopback_laws counting_laws _ c] have
    "length (p2p_persistent_peers (consensus_p2p c)) = 1"
    "p2p_listen_addr (consensus_p2p c) \<notin> set (p2p_persistent_peers (consensus_p2p c))" by simp_all
  with c show ?thesis by (intro exI conjI)
qed

section \<open>Runs of the commands\<close>

lemma save_map_files: "save map_files p data w = (Inr (), w\<lparr>cli_fs := (cli_fs w)(p \<mapsto> data)\<rparr>)"
  by (simp add: save_def bind_io_def return_io_def on_fs_def map_files_def)

lemma saves_map_files:
  "i \<in> {0, 1} \<Longrightarrow> \<exists>w'. save_config map_files p (sample_config i) w = (Inr (), w')"
  "\<exists>w'. save_genesis map_files p g w = (Inr (), w')" "\<exists>w'. save_priv_validator_key map_files p k w = (Inr (), w')"
proof -
  have texts: "i \<in> {0, 1} \<Longrightarrow> \<exists>s. config_text map_files (sample_config i) = Inr s" "\<exists>s. genesis_text map_files g = Inr s"
    "\<exists>s. key_text map_files k = Inr s"
    by (auto simp: map_files_def split: PrivateKey.split)
  then show "i \<in> {0, 1} \<Longrightarrow> \<exists>w'. save_config map_files p (sample_config i) w = (Inr (), w')"
    "\<exists>w'. save_genesis map_files p g w = (Inr (), w')" "\<exists>w'. save_priv_validator_key map_files p k w = (Inr (), w')"
    by (auto simp: save_config_def save_genesis_def save_priv_validator_key_def bind_io_def lift_io_def lift_lib_def save_map_files)
qed

lemma save_node_ok:
  assumes "j \<in> {0, 1}"
  shows "\<exists>w'. save_node map_files (dir @ [show_nat i]) (two_nodes False j) k g w = (Inr (), w')"
proof -
  obtain w2 where 1: "save_config map_files (node_file dir i CONFIG_FILE) (sample_config j) w = (Inr (), w2)"
    using saves_map_files(1) [OF assms] by blast
  obtain w3 where 2: "save_priv_validator_key map_files (node_file dir i PRIV_VALIDATOR_KEY_FILE) k w2 = (Inr (), w3)"
    using saves_map_files(3) by blast
  obtain w4 where 3: "save_genesis map_files (node_file dir i GENESIS_FILE) g w3 = (Inr (), w4)" using saves_map_files(2) by blast
  from two_nodes_config [OF assms, of w, where 'e = CliError] 1 2 3 show ?thesis
    by (simp add: save_node_def Let_def node_paths bind_io_def lift_io_def)
qed

lemma genesis_ok:
  fixes w :: "(nat, 'f) cli_world"
  assumes "pks \<noteq> []"
  shows "\<exists>g w'. (generate_genesis L counting pks False w :: ('e, Genesis) result \<times> _) = (Inr g, w')"
proof -
  let ?powers = "for_each (\<lambda>pk. bind_io (cli_draw (range_u64 counting MIN_VOTING_POWER MAX_VOTING_POWER))
    (\<lambda>p. return_io (pk, p))) :: PublicKey list \<Rightarrow> ((nat, 'f) cli_world, 'e, _) io"
  have "\<exists>w'. ?powers pks w = (Inr (map (\<lambda>pk. (pk, 1)) pks), w')" for w
  proof (induction pks arbitrary: w)
    case (Cons pk pks)
    obtain w' where "?powers pks (w\<lparr>cli_rng := Suc (cli_rng w)\<rparr>) = (Inr (map (\<lambda>pk. (pk, 1)) pks), w')" using Cons.IH by blast
    then show ?case by (simp add: return_io_def bind_io_def cli_draw_apply counting_def MIN_VOTING_POWER_def)
  qed (simp add: return_io_def)
  then obtain w' where "?powers pks w = (Inr (map (\<lambda>pk. (pk, 1)) pks), w')" by blast
  moreover have "\<exists>g. make_genesis L (map (\<lambda>pk. (pk, 1)) pks) = (Inr g :: ('e, _) result)"
    using assms by (cases pks) (auto simp: make_genesis_def ValidatorSet_new_def Let_def and_then_Inr_iff assert_that_def sort_validators_def)
  ultimately show ?thesis by (auto simp: generate_genesis_def bind_io_def lift_io_def)
qed

definition two_nodes_cmd :: TestnetCmd where
  "two_nodes_cmd = \<lparr>tn_nodes = 2, tn_deterministic = False, tn_runtime = SingleThreaded, tn_enable_discovery = False,
     tn_bootstrap_protocol = BootstrapFull, tn_selector = SelectorRandom, tn_num_outbound_peers = 20,
     tn_num_inbound_peers = 20, tn_ephemeral_connection_timeout_ms = 5000, tn_transport = Tcp\<rparr>"

lemma two_keys: "(generate_private_keys counting 2 False blank :: ('e, _) result \<times> _) =
    (Inr [PrivateKey [7], PrivateKey [8]], blank\<lparr>cli_rng := 9\<rparr>)"
  by (simp add: generate_private_keys_def Let_def upt_conv_Cons bind_io_def return_io_def cli_draw_apply counting_def blank_def)

lemma testnet_runs: "\<exists>w'. testnet L loopback counting map_files two_nodes_cmd [''net''] () blank = (Inr (), w')"
proof -
  let ?pk = "sk_public_key (crypto L)" and ?cfg = "two_nodes False :: usize \<Rightarrow> (_, CliError, _) io"
  obtain g w2 where g: "(generate_genesis L counting [?pk (PrivateKey [7]), ?pk (PrivateKey [8])] False
      (blank\<lparr>cli_rng := 9\<rparr>) :: (CliError, _) result \<times> _) = (Inr g, w2)" using genesis_ok by blast
  obtain w4 where 0: "save_node map_files ([''net''] @ [show_nat 0]) (?cfg 0) (PrivateKey [7]) g w2 = (Inr (), w4)"
    using save_node_ok by blast
  obtain w6 where 1: "save_node map_files ([''net''] @ [show_nat 1]) (?cfg 1) (PrivateKey [8]) g w4 = (Inr (), w6)"
    using save_node_ok by blast
  have two: "take (unat (tn_nodes two_nodes_cmd)) (enumerate 0 [a, b]) = [(0, a), (1, b)]" for a b :: PrivateKey
    by (simp add: two_nodes_cmd_def)
  have cmd: "tn_nodes two_nodes_cmd = 2" "tn_deterministic two_nodes_cmd = False"
    "?cfg i = generate_config loopback counting i (tn_nodes two_nodes_cmd) (runtime_config (tn_runtime two_nodes_cmd))
      (tn_enable_discovery two_nodes_cmd) (tn_bootstrap_protocol two_nodes_cmd) (tn_selector two_nodes_cmd)
      (tn_num_outbound_peers two_nodes_cmd) (tn_num_inbound_peers two_nodes_cmd)
      (tn_ephemeral_connection_timeout_ms two_nodes_cmd) (tn_transport two_nodes_cmd) ()" for i
    by (simp_all add: two_nodes_cmd_def)
  have keys: "(generate_private_keys counting (tn_nodes two_nodes_cmd) (tn_deterministic two_nodes_cmd) blank :: (CliError, _) result \<times> _) =
      (Inr [PrivateKey [7], PrivateKey [8]], blank\<lparr>cli_rng := 9\<rparr>)" unfolding cmd(1,2) by (rule two_keys)
  have gen: "(generate_genesis L counting (map ?pk [PrivateKey [7], PrivateKey [8]]) (tn_deterministic two_nodes_cmd)
      (blank\<lparr>cli_rng := 9\<rparr>) :: (CliError, _) result \<times> _) = (Inr g, w2)" using g by (simp add: cmd)
  have word_of_nat: "(of_nat 0 :: usize) = 0" by simp
  show ?thesis unfolding testnet_def Let_def
    by (simp only: bind_io_def keys gen two prod.case sum.case for_each.simps word_of_nat of_nat_1 cmd(3) [symmetric] 0 1 return_io_def)
      (rule exI, rule refl)
qed

theorem testnet_nodes_start_witness:
  "\<exists>w' g. testnet mem_lib loopback counting map_files two_nodes_cmd [''net''] () blank = (Inr (), w') \<and>
    (\<forall>i<2. \<exists>n. main_start mem_lib map_files \<lparr>home = Some [''net'', show_nat i]\<rparr> None () (cli_fs w') = Inr (n :: mem State \<times> Engine) \<and>
      started mem_lib (PrivateKey [7 + of_nat i]) g Height_INITIAL (''test-'' @ show_nat i) n)"
proof -
  obtain w' where w': "testnet mem_lib loopback counting map_files two_nodes_cmd [''net''] () blank = (Inr (), w')"
    using testnet_runs by blast
  have engine: "start_engine map_files c h vs = Inr ()" for c h vs by (simp add: map_files_def)
  have jwt: "jwt_from_file map_files [''.'', ''assets'', ''jwtsecret''] (cli_fs w') = Inr [1, 2, 3]" by (simp add: map_files_def)
  have db: "\<exists>db. Store_open mem_lib p DbMetrics_new = Inr (db :: mem Db)" for p
    by (simp add: Store_open_def Db_new_def Db_create_tables_def)
  have cmd: "tn_nodes two_nodes_cmd = 2" "tn_deterministic two_nodes_cmd = False" by (simp_all add: two_nodes_cmd_def)
  have path: "[''net''] @ [show_nat i] = [''net'', show_nat i]" for i by simp
  note start = testnet_nodes_start [OF map_files_laws map_files_node_laws counting_laws w' engine db jwt,
      unfolded cmd path, where lg' = "()"]
  obtain keys w1 g where keys: "(generate_private_keys counting 2 False blank :: (CliError, _) result \<times> _) = (Inr keys, w1)"
    and run: "\<forall>i<length keys. \<exists>n. main_start mem_lib map_files \<lparr>home = Some [''net'', show_nat i]\<rparr> None () (cli_fs w') =
      Inr (n :: mem State \<times> Engine) \<and> started mem_lib (keys ! i) g Height_INITIAL (''test-'' @ show_nat i) n"
    using start by (elim exE conjE) (rule that, assumption, fast)
  have "keys = [PrivateKey [7], PrivateKey [8]]" using keys by (simp add: two_keys)
  then have "length keys = 2" "\<And>i. i < 2 \<Longrightarrow> keys ! i = PrivateKey [7 + of_nat i]" by (auto simp: less_2_cases_iff)
  with run have "\<forall>i<2. \<exists>n. main_start mem_lib map_files \<lparr>home = Some [''net'', show_nat i]\<rparr> None () (cli_fs w') =
      Inr (n :: mem State \<times> Engine) \<and> started mem_lib (PrivateKey [7 + of_nat i]) g Height_INITIAL (''test-'' @ show_nat i) n"
    by (metis (no_types))
  with w' show ?thesis by (intro exI conjI)
qed

definition old_key :: "(nat, files) cli_world" where
  "old_key = blank\<lparr>cli_fs := [[''key''] \<mapsto> ''old'']\<rparr>"

theorem init_keeps_files_witness:
  "\<forall>c. text_at map_files [''key'']
    (snd (init mem_lib counting map_files c [''config''] [''genesis''] [''key''] False old_key)) = Some ''old''"
proof (rule allI)
  fix c
  obtain r w' where run: "init mem_lib counting map_files c [''config''] [''genesis''] [''key''] False old_key = (r, w')" by fastforce
  have "text_at map_files [''key''] old_key = Some ''old''" by (simp add: old_key_def map_files_def)
  from init_keeps_files [OF map_files_laws run this] run show
    "text_at map_files [''key''] (snd (init mem_lib counting map_files c [''config''] [''genesis''] [''key''] False old_key)) = Some ''old''"
    by simp
qed

lemma one_key: "(generate_private_keys counting 1 False w :: ('e, _) result \<times> _) =
    (Inr [PrivateKey [of_nat (cli_rng w)]], w\<lparr>cli_rng := Suc (cli_rng w)\<rparr>)"
  by (simp add: generate_private_keys_def Let_def bind_io_def return_io_def cli_draw_apply counting_def)

lemma init_runs: "\<exists>w'. init mem_lib counting map_files (sample_config 0) [CONFIG_FILE] [GENESIS_FILE] [PRIV_VALIDATOR_KEY_FILE] True blank = (Inr (), w')"
proof -
  obtain w1 where 1: "save_config map_files [CONFIG_FILE] (sample_config 0) blank = (Inr (), w1)" using saves_map_files(1) by blast
  obtain w2 where 2: "save_priv_validator_key map_files [PRIV_VALIDATOR_KEY_FILE] (PrivateKey [of_nat (cli_rng w1)])
      (w1\<lparr>cli_rng := Suc (cli_rng w1)\<rparr>) = (Inr (), w2)" using saves_map_files(3) by blast
  obtain g w3 where 3: "(generate_genesis mem_lib counting [sk_public_key (crypto mem_lib) (PrivateKey [of_nat (cli_rng w2)])] False
      (w2\<lparr>cli_rng := Suc (cli_rng w2)\<rparr>) :: (CliError, _) result \<times> _) = (Inr g, w3)" using genesis_ok by blast
  obtain w4 where 4: "save_genesis map_files [GENESIS_FILE] g w3 = (Inr (), w4)" using saves_map_files(2) by blast
  from 1 2 3 4 show ?thesis
    by (simp add: init_def unless_kept_def bind_io_def get_io_def one_key Let_def)
qed

theorem init_genesis_of_other_key_witness:
  "\<exists>w' (g :: Genesis). init mem_lib counting map_files (sample_config 0) [CONFIG_FILE] [GENESIS_FILE] [PRIV_VALIDATOR_KEY_FILE] True blank =
      (Inr (), w') \<and>
    set (validators (validator_set g)) = {Validator_new mem_lib (PublicKey [8]) 1} \<and>
    get_by_public_key (validator_set g) (PublicKey [7]) = None"
proof -
  obtain w' where w': "init mem_lib counting map_files (sample_config 0) [CONFIG_FILE] [GENESIS_FILE] [PRIV_VALIDATOR_KEY_FILE] True blank =
      (Inr (), w')"
    using init_runs by blast
  have keys: "generate_key counting (cli_rng blank) = (PrivateKey [7], 8)" "generate_key counting 8 = (PrivateKey [8], 9)"
    by (simp_all add: counting_def blank_def)
  have pk: "sk_public_key (crypto mem_lib) (PrivateKey b) = PublicKey b" for b by (simp add: std_crypto_def)
  have names: "[CONFIG_FILE] = [] @ [CONFIG_FILE]" "[GENESIS_FILE] = [] @ [GENESIS_FILE]"
    "[PRIV_VALIDATOR_KEY_FILE] = [] @ [PRIV_VALIDATOR_KEY_FILE]" by simp_all
  note made = init_genesis_of_other_key [OF map_files_laws counting_laws names disjI1 [OF TrueI] keys w', unfolded pk]
  obtain g :: Genesis where "set (validators (validator_set g)) = {Validator_new mem_lib (PublicKey [8]) 1}"
    "PublicKey [7] \<noteq> PublicKey [8] \<longrightarrow> get_by_public_key (validator_set g) (PublicKey [7]) = None"
    using made by blast
  then have g: "set (validators (validator_set g)) = {Validator_new mem_lib (PublicKey [8]) 1}"
    "get_by_public_key (validator_set g) (PublicKey [7]) = None" by simp_all
  show ?thesis by (rule exI [of _ w'], rule exI [of _ g]) (intro conjI w' g)
qed

end
