(* ===== verification/Transactions.thy ===== *)
theory Transactions
  imports Cli Http
begin

text \<open>
  The transactions of the spammer, \<open>utils/src/tx.rs\<close>, and the genesis of the execution layer that
  funds their senders, \<open>utils/src/genesis.rs\<close>. Wallets, signatures, the calendar and the text of a
  genesis are functions of libraries; amounts are in wei.
\<close>

section \<open>\<open>tx.rs\<close>\<close>

type_synonym u128 = "128 word"

record TxEip1559 =
  tx_chain_id :: u64
  tx_nonce :: u64
  tx_max_priority_fee_per_gas :: u128
  tx_max_fee_per_gas :: u128
  tx_gas_limit :: u64
  tx_to :: Address
  tx_value :: U256
  tx_input :: bytes
  tx_access_list :: "bytes list"

record TxEip4844 = TxEip1559 +
  tx_blob_versioned_hashes :: "B256 list"
  tx_max_fee_per_blob_gas :: u128

datatype Transaction = Eip4844 TxEip4844 | Eip1559 TxEip1559

text \<open>\<open>Address::left_padding_from\<close>.\<close>

definition left_padding_from :: "bytes \<Rightarrow> Address" where
  "left_padding_from bs = Address_new (replicate (Address_LENGTH - length bs) 0 @ bs)"

text \<open>The hash of the blob is random; \<open>10e15\<close> is a floating point number without fraction.\<close>

definition make_eip4844_tx :: "B256 \<Rightarrow> u64 \<Rightarrow> Transaction" where
  "make_eip4844_tx blob_hash nonce = Eip4844
     \<lparr>tx_chain_id = 1,
      tx_nonce = nonce,
      tx_max_priority_fee_per_gas = 1000000000000,
      tx_max_fee_per_gas = 50000000000,
      tx_gas_limit = 21000,
      tx_to = left_padding_from [5],
      tx_value = 10 * 10 ^ 15,
      tx_input = [],
      tx_access_list = [],
      tx_blob_versioned_hashes = [blob_hash],
      tx_max_fee_per_blob_gas = 0\<rparr>"

definition make_eip1559_tx :: "u64 \<Rightarrow> Transaction" where
  "make_eip1559_tx nonce = Eip1559
     \<lparr>tx_chain_id = 1,
      tx_nonce = nonce,
      tx_max_priority_fee_per_gas = 1000000000,
      tx_max_fee_per_gas = 2000000000,
      tx_gas_limit = 21000,
      tx_to = left_padding_from [5],
      tx_value = 10 * 10 ^ 15,
      tx_input = [],
      tx_access_list = []\<rparr>"

text \<open>A wallet made from a phrase, the signed transaction in its EIP-2718 encoding, random hashes of a
  state \<open>'el\<close>, the seconds from the epoch to a date, and the text of a genesis.\<close>

record GenesisAccount = balance :: U256

record ChainConfig =
  chain_id :: u64
  homestead_block :: "u64 option"
  eip150_block :: "u64 option"
  eip155_block :: "u64 option"
  eip158_block :: "u64 option"
  byzantium_block :: "u64 option"
  constantinople_block :: "u64 option"
  petersburg_block :: "u64 option"
  istanbul_block :: "u64 option"
  berlin_block :: "u64 option"
  london_block :: "u64 option"
  shanghai_time :: "u64 option"
  cancun_time :: "u64 option"
  terminal_total_difficulty :: "U256 option"
  terminal_total_difficulty_passed :: bool

record ChainGenesis =
  cg_config :: ChainConfig
  cg_alloc :: "Address \<rightharpoonup> GenesisAccount"
  cg_gas_limit :: u64
  cg_timestamp :: u64

record ('s, 'el) wallet_lib =
  wallet :: "string \<Rightarrow> 's option"
  signer_address :: "'s \<Rightarrow> Address"
  sign_and_encode :: "'s \<Rightarrow> Transaction \<Rightarrow> string + bytes"
  random_hash :: "'el \<Rightarrow> B256 \<times> 'el"
  utc_timestamp :: "nat \<Rightarrow> nat \<Rightarrow> nat \<Rightarrow> u64 option"
  chain_genesis_text :: "ChainGenesis \<Rightarrow> string + string"

definition make_signed_eip4844_tx ::
  "('s, 'el, 'y) wallet_lib_scheme \<Rightarrow> 's \<Rightarrow> u64 \<Rightarrow> 'el \<Rightarrow> (string + bytes) \<times> 'el" where
  "make_signed_eip4844_tx W signer nonce nd =
     (case random_hash W nd of (blob_hash, nd) \<Rightarrow> (sign_and_encode W signer (make_eip4844_tx blob_hash nonce), nd))"

definition make_signed_eip1559_tx ::
  "('s, 'el, 'y) wallet_lib_scheme \<Rightarrow> 's \<Rightarrow> u64 \<Rightarrow> 'el \<Rightarrow> (string + bytes) \<times> 'el" where
  "make_signed_eip1559_tx W signer nonce nd = (sign_and_encode W signer (make_eip1559_tx nonce), nd)"

section \<open>\<open>genesis.rs\<close>\<close>

definition TEST_MNEMONICS :: "string list" where
  "TEST_MNEMONICS =
     [''test test test test test test test test test test test junk'',
      ''abandon abandon abandon abandon abandon abandon abandon abandon abandon abandon abandon about'',
      ''zero zero zero zero zero zero zero zero zero zero zero zoo'']"

definition make_signer :: "('s, 'el, 'y) wallet_lib_scheme \<Rightarrow> string \<Rightarrow> ('e, 's) result" where
  "make_signer W mnemonic = expect ''Failed to create wallet'' (wallet W mnemonic)"

definition make_signers :: "('s, 'el, 'y) wallet_lib_scheme \<Rightarrow> ('e, 's list) result" where
  "make_signers W = collect (make_signer W) TEST_MNEMONICS"

definition chain_genesis :: "('s, 'el, 'y) wallet_lib_scheme \<Rightarrow> ('e, ChainGenesis) result" where
  "chain_genesis W =
     and_then (make_signers W) (\<lambda>signers.
     let signer_addresses = map (signer_address W) signers;
         alloc = foldl (\<lambda>m a. m(a \<mapsto> \<lparr>balance = 15000000000000000000000\<rparr>)) Map.empty signer_addresses in
     and_then (expect ''called `Option::unwrap()` on a `None` value'' (utc_timestamp W 2024 3 14)) (\<lambda>valid_cancun_timestamp.
       Inr
        \<lparr>cg_config =
           \<lparr>chain_id = 1,
            homestead_block = Some 0, eip150_block = Some 0, eip155_block = Some 0, eip158_block = Some 0,
            byzantium_block = Some 0, constantinople_block = Some 0, petersburg_block = Some 0,
            istanbul_block = Some 0, berlin_block = Some 0, london_block = Some 0,
            shanghai_time = Some 0, cancun_time = Some 0,
            terminal_total_difficulty = Some 0, terminal_total_difficulty_passed = True\<rparr>,
         cg_alloc = alloc,
         cg_gas_limit = 30000000,
         cg_timestamp = valid_cancun_timestamp\<rparr>))"

text \<open>The command \<open>genesis\<close> writes it to a file; \<open>fs::write\<close> opens the file and writes the text.\<close>

definition generate_chain_genesis ::
  "('s, 'el, 'y) wallet_lib_scheme \<Rightarrow> ('f, 'd, 'x) file_lib_scheme \<Rightarrow> (('r, 'f) cli_world, CliError, unit) io" where
  "generate_chain_genesis W F =
     bind_io (lift_io (chain_genesis W)) (\<lambda>genesis.
     bind_io (on_fs (ParentDir [''.'', ''assets'']) (create_dir_all F [''.'', ''assets''])) (\<lambda>_.
     bind_io (lift_io (lift_lib ToJSON (chain_genesis_text W genesis))) (\<lambda>genesis_json.
     let genesis_file = [''.'', ''assets'', ''genesis.json''] in
     bind_io (on_fs (OpenFile genesis_file) (open_truncate F genesis_file)) (\<lambda>_.
       on_fs (WriteFile genesis_file) (write_all F genesis_file genesis_json)))))"

end
