(* ===== verification/Spammer.thy ===== *)
theory Spammer
  imports Transactions
begin

text \<open>
  \<open>utils/src/spammer.rs\<close>. The spammer and the tracker are two tasks that share three bounded
  channels. A task runs from one \<open>await\<close> to the next in one step: \<open>spammer_step\<close> gives the state
  after the step, or nothing where the task waits; \<open>tracker_choices\<close> lists the states after a step of
  the tracker, one for each branch of its \<open>select!\<close> that is ready. \<open>spam_step\<close> interleaves them with
  the passing of time, in which the execution layer may change in any way. Instants are nanoseconds.
\<close>

section \<open>The JSON-RPC client\<close>

type_synonym Instant = nat

abbreviation (input) second :: nat where "second \<equiv> 1000000000"

abbreviation (input) millisecond :: nat where "millisecond \<equiv> 1000000"

record ('s, 'el) spam_lib = "('s, 'el) wallet_lib" +
  post_request :: "string \<Rightarrow> JsonValue \<Rightarrow> 'el \<Rightarrow> (string + JsonValue JsonResponseBody) \<times> 'el"
  not_a_string :: "JsonValue \<Rightarrow> string"
  not_a_number :: "string \<Rightarrow> string"
  decode_pool_status :: "JsonValue \<Rightarrow> string + string"
  hex_encode :: "bytes \<Rightarrow> string"
  show_address :: "Address \<Rightarrow> string"
  show_millis :: "nat \<Rightarrow> string"
  show_counts :: "(string \<times> u64) list \<Rightarrow> string"

definition show_i64_dec :: "i64 \<Rightarrow> string" where
  "show_i64_dec n = (if sint n < 0 then ''-'' @ show_nat (nat (- sint n)) else show_nat (nat (sint n)))"

definition spam_request_body :: "string \<Rightarrow> JsonValue \<Rightarrow> JsonValue" where
  "spam_request_body meth params =
     json_object [(''jsonrpc'', JString ''2.0''), (''method'', JString meth), (''params'', params), (''id'', JInt 1)]"

definition RpcClient_rpc_request ::
  "('s, 'el, 'y) spam_lib_scheme \<Rightarrow> string \<Rightarrow> string \<Rightarrow> JsonValue \<Rightarrow> (JsonValue \<Rightarrow> string + 'a) \<Rightarrow> 'el \<Rightarrow> (string + 'a) \<times> 'el" where
  "RpcClient_rpc_request X url meth params from_value nd =
     (case post_request X url (spam_request_body meth params) nd of
        (Inl e, nd) \<Rightarrow> (Inl e, nd)
      | (Inr body, nd) \<Rightarrow> (case rs_error body of
            Some err \<Rightarrow> (Inl (''Server Error '' @ show_i64_dec (je_code err) @ '': '' @ je_message err), nd)
          | None \<Rightarrow> (from_value (rs_result body), nd)))"

definition value_string :: "('s, 'el, 'y) spam_lib_scheme \<Rightarrow> JsonValue \<Rightarrow> string + string" where
  "value_string X v = (case as_str v of Some s \<Rightarrow> Inr s | None \<Rightarrow> Inl (not_a_string X v))"

section \<open>Statistics\<close>

record Stats =
  stats_id :: string
  stats_start_time :: Instant
  succeed :: u64
  stats_bytes :: u64
  errors_counter :: "(string \<times> u64) list"

definition Stats_new :: "string \<Rightarrow> Instant \<Rightarrow> Stats" where
  "Stats_new i t = \<lparr>stats_id = i, stats_start_time = t, succeed = 0, stats_bytes = 0, errors_counter = []\<rparr>"

text \<open>\<open>entry\<close>, \<open>and_modify\<close> and \<open>or_insert\<close>.\<close>

fun entry_add :: "string \<Rightarrow> u64 \<Rightarrow> (string \<times> u64) list \<Rightarrow> ('e, (string \<times> u64) list) result" where
  "entry_add e c [] = Inr [(e, c)]"
| "entry_add e c ((k, n) # m) =
     (if k = e then and_then (add_chk n c) (\<lambda>n'. Inr ((k, n') # m))
      else and_then (entry_add e c m) (\<lambda>m'. Inr ((k, n) # m')))"

definition Stats_incr_ok :: "u64 \<Rightarrow> Stats \<Rightarrow> ('e, Stats) result" where
  "Stats_incr_ok tx_length s =
     and_then (add_chk (succeed s) 1) (\<lambda>n.
     and_then (add_chk (stats_bytes s) tx_length) (\<lambda>b.
       Inr (s\<lparr>succeed := n, stats_bytes := b\<rparr>)))"

definition Stats_incr_err :: "string \<Rightarrow> Stats \<Rightarrow> ('e, Stats) result" where
  "Stats_incr_err e s = and_then (entry_add e 1 (errors_counter s)) (\<lambda>m. Inr (s\<lparr>errors_counter := m\<rparr>))"

fun add_entries :: "(string \<times> u64) list \<Rightarrow> (string \<times> u64) list \<Rightarrow> ('e, (string \<times> u64) list) result" where
  "add_entries m [] = Inr m"
| "add_entries m ((e, c) # cs) = and_then (entry_add e c m) (\<lambda>m. add_entries m cs)"

definition Stats_add :: "Stats \<Rightarrow> Stats \<Rightarrow> ('e, Stats) result" where
  "Stats_add s other =
     and_then (add_chk (succeed s) (succeed other)) (\<lambda>n.
     and_then (add_chk (stats_bytes s) (stats_bytes other)) (\<lambda>b.
     and_then (add_entries (errors_counter s) (errors_counter other)) (\<lambda>m.
       Inr (s\<lparr>succeed := n, stats_bytes := b, errors_counter := m\<rparr>))))"

definition Stats_reset :: "Stats \<Rightarrow> Stats" where
  "Stats_reset s = s\<lparr>succeed := 0, stats_bytes := 0, errors_counter := []\<rparr>"

definition Stats_fmt :: "('s, 'el, 'y) spam_lib_scheme \<Rightarrow> Instant \<Rightarrow> Stats \<Rightarrow> ('e, string) result" where
  "Stats_fmt X now s =
     (let stats = ''['' @ stats_id s @ ''] elapsed '' @ show_millis X ((now - stats_start_time s) div millisecond) @
            ''s: Sent '' @ show_nat (unat (succeed s)) @ '' txs ('' @ show_nat (unat (stats_bytes s)) @ '' bytes)'' in
      if errors_counter s = [] then Inr stats
      else and_then (sum_chk (map snd (errors_counter s))) (\<lambda>failed.
        Inr (stats @ ''; '' @ show_nat (unat failed) @ '' failed with '' @ show_counts X (errors_counter s))))"

section \<open>The state\<close>

record 's Spammer =
  sp_id :: string
  sp_url :: string
  sp_signer :: 's
  max_num_txs :: u64
  max_time :: u64
  max_rate :: u64
  blobs :: bool

definition Spammer_new ::
  "('s, 'el, 'y) wallet_lib_scheme \<Rightarrow> string \<Rightarrow> usize \<Rightarrow> u64 \<Rightarrow> u64 \<Rightarrow> u64 \<Rightarrow> bool \<Rightarrow> ('e, 's Spammer) result" where
  "Spammer_new W url signer_index num time rate blob_txs =
     and_then (make_signers W) (\<lambda>signers.
       if unat signer_index < length signers
       then Inr \<lparr>sp_id = show_nat (unat signer_index), sp_url = url, sp_signer = signers ! unat signer_index,
         max_num_txs = num, max_time = time, max_rate = rate, blobs = blob_txs\<rparr>
       else panic ''index out of bounds'')"

text \<open>Where the tasks are. The spammer: before its first request, waiting for a tick, in a batch that
  began at an instant and has sent a number of transactions, with a result to send, resting after
  the batch, before the test of the exit conditions, with the end to signal, at its end. The
  tracker: in its \<open>select!\<close>, waiting until an instant to report, at its end.\<close>

datatype spammer_pc = Connecting | Ticking | Batching u64 Instant | Pushing "string + u64" u64 Instant
  | Resting Instant Instant | Checking | Finishing | SpammerEnded "(string, unit) result"

datatype tracker_pc = Selecting | Waiting Instant | TrackerEnded "(string, unit) result"

text \<open>The state of both tasks, the channels, what has been printed, and the nonces of the transactions
  that were sent to the execution layer with their results.\<close>

record 'el spam_world =
  sw_clock :: Instant
  sw_node :: 'el
  result_channel :: "(string + u64) list"
  report_channel :: "Instant list"
  finish_channel :: nat
  spammer :: spammer_pc
  sp_nonce :: u64
  txs_sent_total :: u64
  sp_start_time :: Instant
  next_tick :: Instant
  tracker :: tracker_pc
  stats_total :: Stats
  stats_last_second :: Stats
  printed :: "string list"
  submitted :: "(u64 \<times> (string + u64)) list"

definition spam_init :: "'s Spammer \<Rightarrow> Instant \<Rightarrow> 'el \<Rightarrow> 'el spam_world" where
  "spam_init P now nd =
     \<lparr>sw_clock = now, sw_node = nd, result_channel = [], report_channel = [], finish_channel = 0,
      spammer = Connecting, sp_nonce = 0, txs_sent_total = 0, sp_start_time = now, next_tick = now,
      tracker = Selecting, stats_total = Stats_new (sp_id P) now, stats_last_second = Stats_new (sp_id P) now,
      printed = [], submitted = []\<rparr>"

fun tracker_ended :: "tracker_pc \<Rightarrow> bool" where
  "tracker_ended (TrackerEnded r) = True"
| "tracker_ended _ = False"

fun spammer_ended :: "spammer_pc \<Rightarrow> bool" where
  "spammer_ended (SpammerEnded r) = True"
| "spammer_ended _ = False"

section \<open>The spammer\<close>

text \<open>\<open>u64::from_str_radix\<close> with radix 16: an optional plus sign and hexadecimal digits.\<close>

definition hex_value :: "char \<Rightarrow> nat option" where
  "hex_value c = (let n = of_char c :: nat in
     if 48 \<le> n \<and> n \<le> 57 then Some (n - 48)
     else if 97 \<le> n \<and> n \<le> 102 then Some (n - 87)
     else if 65 \<le> n \<and> n \<le> 70 then Some (n - 55) else None)"

fun hex_digits :: "nat \<Rightarrow> string \<Rightarrow> nat option" where
  "hex_digits acc [] = Some acc"
| "hex_digits acc (c # cs) = Option.bind (hex_value c) (\<lambda>d. hex_digits (16 * acc + d) cs)"

definition u64_from_hex :: "string \<Rightarrow> u64 option" where
  "u64_from_hex s = (let t = (case s of c # cs \<Rightarrow> if c = CHR ''+'' then cs else s | [] \<Rightarrow> s) in
     if t = [] then None
     else Option.bind (hex_digits 0 t) (\<lambda>n. if n < 2 ^ 64 then Some (of_nat n) else None))"

definition get_latest_nonce ::
  "('s, 'el, 'y) spam_lib_scheme \<Rightarrow> 's Spammer \<Rightarrow> Address \<Rightarrow> 'el \<Rightarrow> (string, u64) result \<times> 'el" where
  "get_latest_nonce X P sender nd =
     (case RpcClient_rpc_request X (sp_url P) ''eth_getTransactionCount'' (JArray [JString (show_address X sender)])
         (value_string X) nd of
        (Inl e, nd) \<Rightarrow> (fail e, nd)
      | (Inr response, nd) \<Rightarrow>
          (if take 2 response = ''0x'' then
             (case u64_from_hex (drop 2 response) of
                Some n \<Rightarrow> Inr n | None \<Rightarrow> fail (not_a_number X (drop 2 response)))
           else panic ''called `Option::unwrap()` on a `None` value'', nd))"

text \<open>The exit conditions.\<close>

definition limit_reached :: "'s Spammer \<Rightarrow> 'el spam_world \<Rightarrow> bool" where
  "limit_reached P w \<longleftrightarrow> 0 < max_num_txs P \<and> max_num_txs P \<le> txs_sent_total w \<or>
     0 < max_time P \<and> unat (max_time P) \<le> (sw_clock w - sp_start_time w) div second"

definition spammer_connect :: "('s, 'el, 'y) spam_lib_scheme \<Rightarrow> 's Spammer \<Rightarrow> 'el spam_world \<Rightarrow> 'el spam_world" where
  "spammer_connect X P w =
     (let sender = signer_address X (sp_signer P) in
      case get_latest_nonce X P sender (sw_node w) of
        (Inl e, nd) \<Rightarrow> w\<lparr>sw_node := nd, spammer := SpammerEnded (Inl e)\<rparr>
      | (Inr latest_nonce, nd) \<Rightarrow> w\<lparr>sw_node := nd, spammer := Ticking, sp_nonce := latest_nonce, txs_sent_total := 0,
          sp_start_time := sw_clock w, next_tick := sw_clock w,
          printed := printed w @ [''Spamming '' @ show_address X sender @ '' starting from nonce='' @
            show_nat (unat latest_nonce)]\<rparr>)"

definition spammer_submit ::
  "('s, 'el, 'y) spam_lib_scheme \<Rightarrow> 's Spammer \<Rightarrow> u64 \<Rightarrow> Instant \<Rightarrow> 'el spam_world \<Rightarrow> 'el spam_world" where
  "spammer_submit X P sent interval_start w =
     (case (if blobs P then make_signed_eip4844_tx X (sp_signer P) (sp_nonce w) (sw_node w)
            else make_signed_eip1559_tx X (sp_signer P) (sp_nonce w) (sw_node w)) of
        (Inl e, nd) \<Rightarrow> w\<lparr>sw_node := nd, spammer := SpammerEnded (fail e)\<rparr>
      | (Inr tx_bytes, nd) \<Rightarrow>
          (case RpcClient_rpc_request X (sp_url P) ''eth_sendRawTransaction'' (JArray [JString (hex_encode X tx_bytes)])
              (value_string X) nd of
             (res, nd) \<Rightarrow>
               (let result = map_sum id (\<lambda>_. of_nat (length tx_bytes)) res in
                w\<lparr>sw_node := nd, spammer := Pushing result sent interval_start,
                  submitted := submitted w @ [(sp_nonce w, result)]\<rparr>)))"

definition spammer_count :: "u64 \<Rightarrow> Instant \<Rightarrow> 'el spam_world \<Rightarrow> 'el spam_world" where
  "spammer_count sent interval_start w =
     (case and_then (add_chk sent 1) (\<lambda>sent'. and_then (add_chk (sp_nonce w) 1) (\<lambda>nonce.
         and_then (add_chk (txs_sent_total w) 1) (\<lambda>n. Inr (sent', nonce, n)))) of
        Inl e \<Rightarrow> w\<lparr>spammer := SpammerEnded (Inl e)\<rparr>
      | Inr (sent', nonce, n) \<Rightarrow>
          w\<lparr>spammer := Batching sent' interval_start, sp_nonce := nonce, txs_sent_total := n\<rparr>)"

abbreviation (input) RESULTS :: nat where "RESULTS \<equiv> 10000"

fun spammer_step :: "('s, 'el, 'y) spam_lib_scheme \<Rightarrow> 's Spammer \<Rightarrow> 'el spam_world \<Rightarrow> 'el spam_world option" where
  "spammer_step X P w = (case spammer w of
     Connecting \<Rightarrow> Some (spammer_connect X P w)
   | Ticking \<Rightarrow>
       (if next_tick w \<le> sw_clock w
        then Some (w\<lparr>spammer := Batching 0 (sw_clock w), next_tick := next_tick w + second\<rparr>) else None)
   | Batching sent interval_start \<Rightarrow>
       (if sent < max_rate P \<and> \<not> limit_reached P w then Some (spammer_submit X P sent interval_start w)
        else Some (w\<lparr>spammer := Resting (sw_clock w + 20 * millisecond) interval_start\<rparr>))
   | Pushing result sent interval_start \<Rightarrow>
       (if tracker_ended (tracker w) then Some (w\<lparr>spammer := SpammerEnded (fail ''channel closed'')\<rparr>)
        else if length (result_channel w) < RESULTS
        then Some (spammer_count sent interval_start (w\<lparr>result_channel := result_channel w @ [result]\<rparr>))
        else None)
   | Resting wake interval_start \<Rightarrow>
       (if sw_clock w < wake then None
        else if tracker_ended (tracker w) then Some (w\<lparr>spammer := SpammerEnded (fail ''channel closed'')\<rparr>)
        else if length (report_channel w) < 1
        then Some (w\<lparr>report_channel := report_channel w @ [interval_start], spammer := Checking\<rparr>)
        else Some (w\<lparr>spammer := SpammerEnded (fail ''no available capacity'')\<rparr>))
   | Checking \<Rightarrow> Some (w\<lparr>spammer := if limit_reached P w then Finishing else Ticking\<rparr>)
   | Finishing \<Rightarrow>
       (if tracker_ended (tracker w) then Some (w\<lparr>spammer := SpammerEnded (fail ''channel closed'')\<rparr>)
        else if finish_channel w < 1
        then Some (w\<lparr>finish_channel := finish_channel w + 1, spammer := SpammerEnded (Inr ())\<rparr>) else None)
   | SpammerEnded r \<Rightarrow> None)"

section \<open>The tracker\<close>

definition tracker_result :: "(string + u64) \<Rightarrow> 'el spam_world \<Rightarrow> 'el spam_world" where
  "tracker_result res w =
     (case (case res of Inr tx_length \<Rightarrow> Stats_incr_ok tx_length (stats_last_second w)
                      | Inl error \<Rightarrow> Stats_incr_err error (stats_last_second w)) of
        Inl e \<Rightarrow> w\<lparr>tracker := TrackerEnded (Inl e)\<rparr>
      | Inr s \<Rightarrow> w\<lparr>stats_last_second := s\<rparr>)"

definition tracker_report :: "('s, 'el, 'y) spam_lib_scheme \<Rightarrow> 's Spammer \<Rightarrow> 'el spam_world \<Rightarrow> 'el spam_world" where
  "tracker_report X P w =
     (case RpcClient_rpc_request X (sp_url P) ''txpool_status'' (JArray []) (decode_pool_status X) (sw_node w) of
        (Inl e, nd) \<Rightarrow> w\<lparr>sw_node := nd, tracker := TrackerEnded (fail e)\<rparr>
      | (Inr pool_status, nd) \<Rightarrow>
          (case Stats_fmt X (sw_clock w) (stats_last_second w) of
             Inl e \<Rightarrow> w\<lparr>sw_node := nd, tracker := TrackerEnded (Inl e)\<rparr>
           | Inr line \<Rightarrow>
               (let w = w\<lparr>sw_node := nd, printed := printed w @ [line @ ''; '' @ pool_status]\<rparr> in
                case Stats_add (stats_total w) (stats_last_second w) of
                  Inl e \<Rightarrow> w\<lparr>tracker := TrackerEnded (Inl e)\<rparr>
                | Inr s \<Rightarrow> w\<lparr>stats_total := s, stats_last_second := Stats_reset (stats_last_second w),
                    tracker := Selecting\<rparr>)))"

definition tracker_finish :: "('s, 'el, 'y) spam_lib_scheme \<Rightarrow> 'el spam_world \<Rightarrow> 'el spam_world" where
  "tracker_finish X w =
     (case Stats_fmt X (sw_clock w) (stats_total w) of
        Inl e \<Rightarrow> w\<lparr>finish_channel := finish_channel w - 1, tracker := TrackerEnded (Inl e)\<rparr>
      | Inr line \<Rightarrow> w\<lparr>finish_channel := finish_channel w - 1, printed := printed w @ [''Total: '' @ line],
          tracker := TrackerEnded (Inr ())\<rparr>)"

text \<open>A report waits for what is missing to one second.\<close>

definition report_time :: "Instant \<Rightarrow> Instant \<Rightarrow> Instant" where
  "report_time now interval_start =
     (let elapsed = now - interval_start in now + (if elapsed < second then second - elapsed else 0))"

text \<open>A closed channel disables the first two branches and makes the third one ready.\<close>

fun tracker_choices :: "('s, 'el, 'y) spam_lib_scheme \<Rightarrow> 's Spammer \<Rightarrow> 'el spam_world \<Rightarrow> 'el spam_world list" where
  "tracker_choices X P w = (case tracker w of
     Selecting \<Rightarrow>
       (case result_channel w of [] \<Rightarrow> [] | res # rest \<Rightarrow> [tracker_result res (w\<lparr>result_channel := rest\<rparr>)]) @
       (case report_channel w of [] \<Rightarrow> [] | interval_start # rest \<Rightarrow>
          [w\<lparr>report_channel := rest, tracker := Waiting (report_time (sw_clock w) interval_start)\<rparr>]) @
       (if 0 < finish_channel w \<or> spammer_ended (spammer w) then [tracker_finish X w] else [])
   | Waiting wake \<Rightarrow> if wake \<le> sw_clock w then [tracker_report X P w] else []
   | TrackerEnded r \<Rightarrow> [])"

section \<open>Runs\<close>

datatype actor = Time | SpammerTask | TrackerTask

inductive spam_step ::
  "('s, 'el, 'y) spam_lib_scheme \<Rightarrow> 's Spammer \<Rightarrow> actor \<Rightarrow> 'el spam_world \<Rightarrow> 'el spam_world \<Rightarrow> bool"
  for X :: "('s, 'el, 'y) spam_lib_scheme" and P :: "'s Spammer" where
  time: "spam_step X P Time w (w\<lparr>sw_clock := sw_clock w + d, sw_node := nd\<rparr>)"
| spam: "spammer_step X P w = Some w' \<Longrightarrow> spam_step X P SpammerTask w w'"
| track: "w' \<in> set (tracker_choices X P w) \<Longrightarrow> spam_step X P TrackerTask w w'"

inductive spam_trace ::
  "('s, 'el, 'y) spam_lib_scheme \<Rightarrow> 's Spammer \<Rightarrow> actor list \<Rightarrow> 'el spam_world \<Rightarrow> 'el spam_world \<Rightarrow> bool"
  for X :: "('s, 'el, 'y) spam_lib_scheme" and P :: "'s Spammer" where
  stop: "spam_trace X P [] w w"
| step: "spam_trace X P as w w' \<Longrightarrow> spam_step X P a w' w'' \<Longrightarrow> spam_trace X P (as @ [a]) w w''"

text \<open>\<open>run\<close> waits for both tasks and forgets what they return.\<close>

definition Spammer_run :: "'el spam_world \<Rightarrow> (string, unit) result option" where
  "Spammer_run w = (if spammer_ended (spammer w) \<and> tracker_ended (tracker w) then Some (Inr ()) else None)"

inductive_cases spam_stepE: "spam_step X P a w w'"

inductive_simps spam_step_simps: "spam_step X P Time w w'" "spam_step X P SpammerTask w w'" "spam_step X P TrackerTask w w'"

end
