(* ===== verification/Spammer_Correct.thy ===== *)
theory Spammer_Correct
  imports Spammer
begin

text \<open>
  The properties of the spammer: what it sends, how fast and how much; that its statistics account for
  every result as long as the tracker runs, that a limit on the number ends it, and that neither the
  total it prints nor what \<open>run\<close> returns can be relied on.
\<close>

section \<open>Traces\<close>

lemma spam_trace_invariant:
  assumes "spam_trace X P as w w'" and "I w"
    and "\<And>w d nd. I w \<Longrightarrow> I (w\<lparr>sw_clock := sw_clock w + d, sw_node := nd\<rparr>)"
    and "\<And>w w'. I w \<Longrightarrow> spammer_step X P w = Some w' \<Longrightarrow> I w'"
    and "\<And>w w'. I w \<Longrightarrow> w' \<in> set (tracker_choices X P w) \<Longrightarrow> I w'"
  shows "I w'"
  using assms(1,2) by (induction rule: spam_trace.induct) (auto elim!: spam_stepE intro: assms(3-5))

lemma spam_trace_append:
  assumes "spam_trace X P bs w' w''" and "spam_trace X P as w w'"
  shows "spam_trace X P (as @ bs) w w''"
  using assms by (induction rule: spam_trace.induct) (auto simp flip: append_assoc intro: spam_trace.intros)

lemma spam_trace_one: "spam_step X P a w w' \<Longrightarrow> spam_trace X P [a] w w'"
  using spam_trace.step [OF spam_trace.stop] by fastforce

text \<open>The steps of the tracker: a result, a report to wait for, a report, the end.\<close>

lemma tracker_step_cases [consumes 1, case_names result wait report finish]:
  assumes "w' \<in> set (tracker_choices X P w)"
    and "\<And>res rest. tracker w = Selecting \<Longrightarrow> result_channel w = res # rest \<Longrightarrow>
      w' = tracker_result res (w\<lparr>result_channel := rest\<rparr>) \<Longrightarrow> Q"
    and "\<And>t rest. tracker w = Selecting \<Longrightarrow> report_channel w = t # rest \<Longrightarrow>
      w' = w\<lparr>report_channel := rest, tracker := Waiting (report_time (sw_clock w) t)\<rparr> \<Longrightarrow> Q"
    and "\<And>wake. tracker w = Waiting wake \<Longrightarrow> wake \<le> sw_clock w \<Longrightarrow> w' = tracker_report X P w \<Longrightarrow> Q"
    and "tracker w = Selecting \<Longrightarrow> 0 < finish_channel w \<or> spammer_ended (spammer w) \<Longrightarrow> w' = tracker_finish X w \<Longrightarrow> Q"
  shows Q
proof (cases "tracker w")
  case Selecting
  with assms(1) consider res rest where "result_channel w = res # rest" "w' = tracker_result res (w\<lparr>result_channel := rest\<rparr>)"
    | t rest where "report_channel w = t # rest" "w' = w\<lparr>report_channel := rest, tracker := Waiting (report_time (sw_clock w) t)\<rparr>"
    | "0 < finish_channel w \<or> spammer_ended (spammer w)" "w' = tracker_finish X w"
    by (cases "result_channel w"; cases "report_channel w") (auto split: if_splits)
  then show ?thesis using Selecting assms(2,3,5) by cases
next
  case (Waiting wake)
  with assms(1,4) show ?thesis by (simp split: if_splits)
next
  case (TrackerEnded r)
  with assms(1) show ?thesis by simp
qed

section \<open>Statistics\<close>

lemma stats_measure_words:
  "Stats_incr_ok n s = Inr s' \<Longrightarrow> unat (succeed s') = unat (succeed s) + 1 \<and> unat (stats_bytes s') = unat (stats_bytes s) + unat n \<and>
    errors_counter s' = errors_counter s"
  "Stats_incr_err e s = Inr s' \<Longrightarrow> succeed s' = succeed s \<and> stats_bytes s' = stats_bytes s"
  "Stats_add s r = Inr s' \<Longrightarrow> unat (succeed s') = unat (succeed s) + unat (succeed r) \<and>
    unat (stats_bytes s') = unat (stats_bytes s) + unat (stats_bytes r)"
  by (auto simp: Stats_incr_ok_def Stats_incr_err_def Stats_add_def dest!: unat_add_chk)

text \<open>How often an error has been counted.\<close>

definition error_count :: "string \<Rightarrow> (string \<times> u64) list \<Rightarrow> nat" where
  "error_count e m = (\<Sum>(k, n)\<leftarrow>m. if k = e then unat n else 0)"

lemma error_count_simps [simp]:
  "error_count e [] = 0" "error_count e ((k, n) # m) = (if k = e then unat n else 0) + error_count e m"
  by (simp_all add: error_count_def)

lemma error_count_entry_add: "entry_add k c m = Inr m' \<Longrightarrow> error_count e m' = error_count e m + (if k = e then unat c else 0)"
  by (induction m arbitrary: m') (auto split: if_splits dest!: unat_add_chk)

lemma error_count_add_entries: "add_entries m cs = Inr m' \<Longrightarrow> error_count e m' = error_count e m + error_count e cs"
  by (induction cs arbitrary: m) (auto dest!: error_count_entry_add [where e = e])

lemma error_count_stats:
  "Stats_incr_err k s = Inr s' \<Longrightarrow> error_count e (errors_counter s') = error_count e (errors_counter s) + (if k = e then 1 else 0)"
  "Stats_add s r = Inr s' \<Longrightarrow> error_count e (errors_counter s') = error_count e (errors_counter s) + error_count e (errors_counter r)"
  by (auto simp: Stats_incr_err_def Stats_add_def error_count_entry_add [where e = e] error_count_add_entries [where e = e])

text \<open>The result being handed to the channel.\<close>

fun pending :: "spammer_pc \<Rightarrow> (string + u64) list" where
  "pending (Pushing r sent t) = [r]"
| "pending _ = []"

fun is_err :: "'a + 'b \<Rightarrow> bool" where
  "is_err (Inl e) = True"
| "is_err (Inr x) = False"

text \<open>A quantity that the statistics count: what one result adds to it.\<close>

locale stats_measure =
  fixes count :: "Stats \<Rightarrow> nat" and weight :: "string + u64 \<Rightarrow> nat"
  assumes count_ok: "Stats_incr_ok n s = (Inr s' :: (string, Stats) result) \<Longrightarrow> count s' = count s + weight (Inr n)"
    and count_err: "Stats_incr_err e s = (Inr s' :: (string, Stats) result) \<Longrightarrow> count s' = count s + weight (Inl e)"
    and count_add: "Stats_add s r = (Inr s' :: (string, Stats) result) \<Longrightarrow> count s' = count s + count r"
    and count_reset [simp]: "count (Stats_reset s) = 0"
    and count_new [simp]: "count (Stats_new i t) = 0"
begin

definition weights :: "(string + u64) list \<Rightarrow> nat" where
  "weights rs = (\<Sum>r\<leftarrow>rs. weight r)"

lemma weights_simps [simp]: "weights [] = 0" "weights (r # rs) = weight r + weights rs" "weights (rs @ qs) = weights rs + weights qs"
  by (simp_all add: weights_def)

definition counted :: "'el spam_world \<Rightarrow> nat" where
  "counted w = count (stats_total w) + count (stats_last_second w) + weights (result_channel w) + weights (pending (spammer w))"

definition accounted :: "'el spam_world \<Rightarrow> bool" where
  "accounted w \<longleftrightarrow> counted w \<le> weights (map snd (submitted w)) \<and>
     (\<not> tracker_ended (tracker w) \<longrightarrow> counted w = weights (map snd (submitted w)))"

lemma accounted_spammer: "accounted w \<Longrightarrow> spammer_step X P w = Some w' \<Longrightarrow> accounted w'"
  by (cases "spammer w")
    (auto simp: accounted_def counted_def spammer_connect_def spammer_submit_def spammer_count_def Let_def
      split: if_splits prod.splits sum.splits)

lemma accounted_result: "accounted w \<Longrightarrow> result_channel w = res # rest \<Longrightarrow> accounted (tracker_result res (w\<lparr>result_channel := rest\<rparr>))"
  by (cases res) (auto simp: accounted_def counted_def tracker_result_def split: sum.splits dest!: count_ok count_err)

lemma accounted_report: "accounted w \<Longrightarrow> tracker w = Waiting t \<Longrightarrow> accounted (tracker_report X P w)"
  by (auto simp: accounted_def counted_def tracker_report_def Let_def split: prod.splits sum.splits dest!: count_add)

lemma accounted_finish: "accounted w \<Longrightarrow> accounted (tracker_finish X w)"
  by (auto simp: accounted_def counted_def tracker_finish_def split: sum.splits)

lemma accounted_tracker: "accounted w \<Longrightarrow> w' \<in> set (tracker_choices X P w) \<Longrightarrow> accounted w'"
  by (erule tracker_step_cases)
    (simp_all add: accounted_result accounted_report accounted_finish, simp add: accounted_def counted_def)

lemma always_accounted:
  assumes "spam_trace X P as (spam_init P now nd) w"
  shows "accounted w"
proof (rule spam_trace_invariant [where I = accounted, OF assms])
  show "accounted (spam_init P now nd)" by (simp add: spam_init_def accounted_def counted_def)
qed (rule accounted_spammer accounted_tracker; assumption | simp add: accounted_def counted_def)+

end

interpretation sm_ok: stats_measure "\<lambda>s. unat (succeed s)" "case_sum (\<lambda>_. 0) (\<lambda>_. 1)"
  by unfold_locales (auto simp: Stats_reset_def Stats_new_def dest: stats_measure_words)

interpretation sm_bytes: stats_measure "\<lambda>s. unat (stats_bytes s)" "case_sum (\<lambda>_. 0) unat"
  by unfold_locales (auto simp: Stats_reset_def Stats_new_def dest: stats_measure_words)

interpretation sm_err: stats_measure "\<lambda>s. error_count e (errors_counter s)" "case_sum (\<lambda>k. if k = e then 1 else 0) (\<lambda>_. 0)" for e
  by unfold_locales (auto simp: Stats_reset_def Stats_new_def stats_measure_words error_count_stats)

text \<open>C30: while the tracker runs its statistics account for every transaction sent: successes, bytes and each
  error counted in total and in the last second, together with the results still in the channel and
  the one being handed over, are exactly those of the transactions sent; and they never exceed them,
  whatever happens to the tasks.\<close>

theorem statistics_account_for_results:
  assumes "spam_trace X P as (spam_init P now nd) w"
  shows "let waiting = result_channel w @ pending (spammer w); results = map snd (submitted w);
      oks = (\<lambda>rs. length (filter (\<lambda>r. \<not> is_err r) rs)); errs = (\<lambda>e rs. length (filter ((=) (Inl e)) rs));
      ok_count = unat (succeed (stats_total w)) + unat (succeed (stats_last_second w));
      err_count = (\<lambda>e. error_count e (errors_counter (stats_total w)) + error_count e (errors_counter (stats_last_second w))) in
    ok_count + oks waiting \<le> oks results \<and> (\<forall>e. err_count e + errs e waiting \<le> errs e results) \<and>
    (\<not> tracker_ended (tracker w) \<longrightarrow>
      ok_count + oks waiting = oks results \<and> (\<forall>e. err_count e + errs e waiting = errs e results))"
proof -
  have oks: "sm_ok.weights rs = length (filter (\<lambda>r. \<not> is_err r) rs)" for rs
    by (induction rs) (auto split: sum.splits)
  have errs: "sm_err.weights e rs = length (filter ((=) (Inl e)) rs)" for e rs
    by (induction rs) (auto split: sum.splits)
  note ok = sm_ok.always_accounted [OF assms, unfolded sm_ok.accounted_def sm_ok.counted_def oks]
    and err = sm_err.always_accounted [OF assms, unfolded sm_err.accounted_def sm_err.counted_def errs]
  show ?thesis using ok err by (simp add: Let_def add.assoc)
qed

section \<open>What is sent\<close>

text \<open>The tracker leaves the state of the spammer and the clock.\<close>

lemma tracker_frame:
  assumes "w' \<in> set (tracker_choices X P w)"
  shows "spammer w' = spammer w \<and> sp_nonce w' = sp_nonce w \<and> txs_sent_total w' = txs_sent_total w \<and>
    sp_start_time w' = sp_start_time w \<and> next_tick w' = next_tick w \<and> submitted w' = submitted w \<and> sw_clock w' = sw_clock w"
  using assms
  by (elim tracker_step_cases)
    (auto simp: tracker_result_def tracker_report_def tracker_finish_def Let_def split: sum.splits prod.splits)

text \<open>The ticks so far, and how many transactions the schedule allows at each point.\<close>

definition ticks :: "'el spam_world \<Rightarrow> nat" where
  "ticks w = (next_tick w - sp_start_time w) div second"

lemma ticks_next:
  "next_tick w = sp_start_time w + ticks w * second \<Longrightarrow> next_tick w' = next_tick w + second \<Longrightarrow>
    sp_start_time w' = sp_start_time w \<Longrightarrow> ticks w' = ticks w + 1"
proof -
  assume "next_tick w = sp_start_time w + ticks w * second" "next_tick w' = next_tick w + second"
    "sp_start_time w' = sp_start_time w"
  then have "next_tick w' - sp_start_time w' = (ticks w + 1) * second" by simp
  then show "ticks w' = ticks w + 1" unfolding ticks_def [of w'] by simp
qed

fun batch_ok :: "'s Spammer \<Rightarrow> 'el spam_world \<Rightarrow> spammer_pc \<Rightarrow> bool" where
  "batch_ok P w Connecting \<longleftrightarrow> ticks w = 0 \<and> submitted w = []"
| "batch_ok P w Ticking \<longleftrightarrow> length (submitted w) = ticks w * unat (max_rate P)"
| "batch_ok P w (Batching sent t) \<longleftrightarrow> 0 < ticks w \<and> sent \<le> max_rate P \<and>
     length (submitted w) = (ticks w - 1) * unat (max_rate P) + unat sent"
| "batch_ok P w (Pushing r sent t) \<longleftrightarrow> 0 < ticks w \<and> sent < max_rate P \<and>
     length (submitted w) = (ticks w - 1) * unat (max_rate P) + unat sent + 1"
| "batch_ok P w (SpammerEnded (Inl e)) \<longleftrightarrow> length (submitted w) \<le> ticks w * unat (max_rate P)"
| "batch_ok P w (Resting u t) \<longleftrightarrow> length (submitted w) = ticks w * unat (max_rate P) \<or>
     limit_reached P w \<and> length (submitted w) \<le> ticks w * unat (max_rate P)"
| "batch_ok P w Checking \<longleftrightarrow> length (submitted w) = ticks w * unat (max_rate P) \<or>
     limit_reached P w \<and> length (submitted w) \<le> ticks w * unat (max_rate P)"
| "batch_ok P w Finishing \<longleftrightarrow> limit_reached P w \<and> length (submitted w) \<le> ticks w * unat (max_rate P)"
| "batch_ok P w (SpammerEnded (Inr u)) \<longleftrightarrow> limit_reached P w \<and> length (submitted w) \<le> ticks w * unat (max_rate P)"

definition on_schedule :: "'s Spammer \<Rightarrow> 'el spam_world \<Rightarrow> bool" where
  "on_schedule P w \<longleftrightarrow>
     next_tick w = sp_start_time w + ticks w * second \<and> next_tick w \<le> sw_clock w + second \<and>
     sp_start_time w \<le> sw_clock w \<and> batch_ok P w (spammer w)"

text \<open>The nonces of the transactions sent are consecutive, and their number has the limit.\<close>

definition numbered :: "(u64 \<times> 'a) list \<Rightarrow> u64 \<Rightarrow> u64 \<Rightarrow> bool" where
  "numbered xs nonce n \<longleftrightarrow> (\<exists>n0. map fst xs = map (\<lambda>i. n0 + of_nat i) [0..<length xs] \<and> unat nonce = unat n0 + unat n)"

definition in_order :: "'s Spammer \<Rightarrow> 'el spam_world \<Rightarrow> bool" where
  "in_order P w \<longleftrightarrow>
     numbered (submitted w) (sp_nonce w) (txs_sent_total w) \<and>
     unat (txs_sent_total w) \<le> length (submitted w) \<and> length (submitted w) \<le> unat (txs_sent_total w) + 1 \<and>
     (\<not> spammer_ended (spammer w) \<longrightarrow> length (submitted w) = unat (txs_sent_total w) + length (pending (spammer w))) \<and>
     (0 < max_num_txs P \<longrightarrow> length (submitted w) \<le> unat (max_num_txs P)) \<and>
     (spammer w = Connecting \<longrightarrow> submitted w = [])"

lemma limit_reached_later: "limit_reached P w \<Longrightarrow> limit_reached P (w\<lparr>sw_clock := sw_clock w + d, sw_node := nd\<rparr>)"
  by (auto simp: limit_reached_def intro: order_trans div_le_mono)

lemma on_schedule_time: "on_schedule P w \<Longrightarrow> on_schedule P (w\<lparr>sw_clock := sw_clock w + d, sw_node := nd\<rparr>)"
proof -
  have "batch_ok P w pc \<Longrightarrow> batch_ok P (w\<lparr>sw_clock := sw_clock w + d, sw_node := nd\<rparr>) pc" for pc
    using limit_reached_later [where P = P and w = w and d = d and nd = nd] by (cases "(P, w, pc)" rule: batch_ok.cases) (auto simp: ticks_def)
  then show "on_schedule P w \<Longrightarrow> ?thesis" by (auto simp: on_schedule_def ticks_def)
qed

lemma limit_reached_cong: "sw_clock v = sw_clock w \<Longrightarrow> sp_start_time v = sp_start_time w \<Longrightarrow> txs_sent_total v = txs_sent_total w \<Longrightarrow>
    limit_reached P v = limit_reached P w"
  by (simp add: limit_reached_def)

lemma batch_ok_cong: "submitted v = submitted w \<Longrightarrow> sw_clock v = sw_clock w \<Longrightarrow> sp_start_time v = sp_start_time w \<Longrightarrow>
    next_tick v = next_tick w \<Longrightarrow> txs_sent_total v = txs_sent_total w \<Longrightarrow> batch_ok P v pc = batch_ok P w pc"
  using limit_reached_cong [of v w P] by (cases "(P, w, pc)" rule: batch_ok.cases) (auto simp: ticks_def)

lemma on_schedule_tracker: "on_schedule P w \<Longrightarrow> w' \<in> set (tracker_choices X P w) \<Longrightarrow> on_schedule P w'"
  using tracker_frame [of w' X P w] batch_ok_cong [of w' w P] by (simp add: on_schedule_def ticks_def del: tracker_choices.simps)

lemma in_order_tracker: "in_order P w \<Longrightarrow> w' \<in> set (tracker_choices X P w) \<Longrightarrow> in_order P w'"
  using tracker_frame [of w' X P w] by (simp add: in_order_def del: tracker_choices.simps)

text \<open>What the larger steps of the spammer do to the counters.\<close>

lemma spammer_connect_cases:
  obtains e nd where "spammer_connect X P w = w\<lparr>sw_node := nd, spammer := SpammerEnded (Inl e)\<rparr>"
  | n nd out where "spammer_connect X P w = w\<lparr>sw_node := nd, spammer := Ticking, sp_nonce := n, txs_sent_total := 0,
      sp_start_time := sw_clock w, next_tick := sw_clock w, printed := out\<rparr>"
proof -
  obtain r nd where r: "get_latest_nonce X P (signer_address X (sp_signer P)) (sw_node w) = (r, nd)" by fastforce
  show ?thesis
  proof (cases r)
    case (Inl e)
    with r show ?thesis by (intro that(1)) (simp add: spammer_connect_def)
  next
    case (Inr n)
    with r show ?thesis by (intro that(2)) (simp add: spammer_connect_def Let_def)
  qed
qed

lemma spammer_submit_cases:
  obtains e nd where "spammer_submit X P sent t w = w\<lparr>sw_node := nd, spammer := SpammerEnded (fail e)\<rparr>"
  | r nd where "spammer_submit X P sent t w = w\<lparr>sw_node := nd, spammer := Pushing r sent t,
      submitted := submitted w @ [(sp_nonce w, r)]\<rparr>"
proof -
  obtain b nd where b: "(if blobs P then make_signed_eip4844_tx X (sp_signer P) (sp_nonce w) (sw_node w)
      else make_signed_eip1559_tx X (sp_signer P) (sp_nonce w) (sw_node w)) = (b, nd)" by fastforce
  show ?thesis
  proof (cases b)
    case (Inl e)
    with b show ?thesis by (intro that(1)) (simp add: spammer_submit_def)
  next
    case (Inr bs)
    obtain res nd' where "RpcClient_rpc_request X (sp_url P) ''eth_sendRawTransaction'' (JArray [JString (hex_encode X bs)])
        (value_string X) nd = (res, nd')" by fastforce
    with b Inr show ?thesis by (intro that(2)) (simp add: spammer_submit_def Let_def)
  qed
qed

lemma spammer_count_cases:
  obtains e where "spammer_count sent t w = w\<lparr>spammer := SpammerEnded (Inl e)\<rparr>"
  | sent' n m where "spammer_count sent t w = w\<lparr>spammer := Batching sent' t, sp_nonce := n, txs_sent_total := m\<rparr>"
    "unat sent' = unat sent + 1" "unat n = unat (sp_nonce w) + 1" "unat m = unat (txs_sent_total w) + 1"
proof (cases "and_then (add_chk sent 1) (\<lambda>sent'. and_then (add_chk (sp_nonce w) 1) (\<lambda>nonce.
    and_then (add_chk (txs_sent_total w) 1) (\<lambda>n. Inr (sent', nonce, n)))) :: (string, u64 \<times> u64 \<times> u64) result")
  case (Inl e)
  then show ?thesis by (intro that(1) [of e]) (simp add: spammer_count_def)
next
  case (Inr x)
  then obtain sent' n m where "x = (sent', n, m)" "add_chk sent 1 = (Inr sent' :: (string, u64) result)"
    "add_chk (sp_nonce w) 1 = (Inr n :: (string, u64) result)" "add_chk (txs_sent_total w) 1 = (Inr m :: (string, u64) result)" by auto
  with Inr show ?thesis by (intro that(2)) (auto simp: spammer_count_def dest: unat_add_chk)
qed

lemma on_schedule_spammer:
  assumes "on_schedule P w" and "spammer_step X P w = Some w'"
  shows "on_schedule P w'"
proof (cases "spammer w")
  case Connecting
  then show ?thesis using assms
    by (cases rule: spammer_connect_cases [of X P w]) (auto simp: on_schedule_def ticks_def)
next
  case Ticking
  then have w': "next_tick w \<le> sw_clock w" "w' = w\<lparr>spammer := Batching 0 (sw_clock w), next_tick := next_tick w + second\<rparr>"
    using assms(2) by (auto split: if_splits)
  have n: "next_tick w = sp_start_time w + ticks w * second" using assms(1) by (simp add: on_schedule_def)
  then have t: "ticks w' = ticks w + 1" by (rule ticks_next) (simp_all add: w'(2))
  have f: "next_tick w' = next_tick w + second" "sp_start_time w' = sp_start_time w" "sw_clock w' = sw_clock w"
    "spammer w' = Batching 0 (sw_clock w)" "submitted w' = submitted w" by (simp_all add: w'(2))
  from n show ?thesis unfolding on_schedule_def t f batch_ok.simps using assms(1) Ticking w'(1)
    by (simp add: on_schedule_def)
next
  case (Batching sent t)
  from assms(1) Batching have "length (submitted w) \<le> ticks w * unat (max_rate P)"
    by (cases "ticks w") (auto simp: on_schedule_def word_le_nat_alt)
  then have ended: "on_schedule P (w\<lparr>sw_node := nd, spammer := SpammerEnded (Inl e)\<rparr>)" for nd e
    using assms(1) by (simp add: on_schedule_def ticks_def)
  show ?thesis
  proof (cases "sent < max_rate P \<and> \<not> limit_reached P w")
    case True
    then show ?thesis using assms Batching ended
      by (cases rule: spammer_submit_cases [of X P sent t w])
        (auto simp: on_schedule_def ticks_def word_less_nat_alt)
  next
    case False
    then have w': "w' = w\<lparr>spammer := Resting (sw_clock w + 20 * millisecond) t\<rparr>" using assms(2) Batching by auto
    from assms(1) Batching have s: "0 < ticks w" "sent \<le> max_rate P"
      "length (submitted w) = (ticks w - 1) * unat (max_rate P) + unat sent" by (simp_all add: on_schedule_def)
    have "ticks w * unat (max_rate P) = (ticks w - 1) * unat (max_rate P) + unat (max_rate P)"
      using s(1) by (cases "ticks w") simp_all
    moreover have "sent = max_rate P \<or> limit_reached P w" using False s(2) by auto
    moreover have "unat sent \<le> unat (max_rate P)" using s(2) by (simp add: word_le_nat_alt)
    ultimately have "batch_ok P w (Resting (sw_clock w + 20 * millisecond) t)" using s(3) by auto
    with assms(1) show ?thesis unfolding w' by (simp add: on_schedule_def ticks_def limit_reached_def)
  qed
next
  case (Pushing r sent t)
  let ?w = "w\<lparr>result_channel := result_channel w @ [r]\<rparr>"
  from assms(1) Pushing have s: "0 < ticks w" "sent < max_rate P"
    "length (submitted w) = (ticks w - 1) * unat (max_rate P) + unat sent + 1" by (simp_all add: on_schedule_def)
  have r: "ticks w * unat (max_rate P) = (ticks w - 1) * unat (max_rate P) + unat (max_rate P)"
    using s(1) by (cases "ticks w") simp_all
  have room: "unat sent + 1 \<le> unat (max_rate P)" using s(2) by (simp add: word_less_nat_alt)
  have ended: "on_schedule P (w\<lparr>spammer := SpammerEnded (Inl e)\<rparr>)" "on_schedule P (?w\<lparr>spammer := SpammerEnded (Inl e)\<rparr>)" for e
    using assms(1) s(3) r room by (simp_all add: on_schedule_def ticks_def)
  show ?thesis
  proof (cases "tracker_ended (tracker w)")
    case True
    with assms(2) Pushing have "w' = w\<lparr>spammer := SpammerEnded (fail ''channel closed'')\<rparr>" by simp
    with ended show ?thesis by simp
  next
    case False
    with assms(2) Pushing have w': "w' = spammer_count sent t ?w" by (simp split: if_splits)
    show ?thesis
    proof (cases rule: spammer_count_cases [of sent t ?w])
      case (1 e)
      with ended w' show ?thesis by simp
    next
      case (2 sent' n m)
      then have "batch_ok P w (Batching sent' t)" using s room by (simp add: word_le_nat_alt)
      with assms(1) show ?thesis unfolding w' 2(1) by (simp add: on_schedule_def ticks_def)
    qed
  qed
next
  case (Resting u t)
  then show ?thesis using assms by (auto simp: on_schedule_def ticks_def limit_reached_def split: if_splits)
next
  case Checking
  then show ?thesis using assms by (auto simp: on_schedule_def ticks_def limit_reached_def split: if_splits)
next
  case Finishing
  then show ?thesis using assms by (auto simp: on_schedule_def ticks_def limit_reached_def split: if_splits)
next
  case (SpammerEnded r)
  then show ?thesis using assms by simp
qed

lemma numbered_Nil: "numbered [] n 0"
  by (auto simp: numbered_def)

lemma numbered_submit: "numbered xs nonce n \<Longrightarrow> length xs = unat n \<Longrightarrow> numbered (xs @ [(nonce, r)]) nonce n"
proof -
  assume "numbered xs nonce n" "length xs = unat n"
  then obtain n0 where n0: "map fst xs = map (\<lambda>i. n0 + of_nat i) [0..<length xs]" "unat nonce = unat n0 + length xs"
    by (auto simp: numbered_def)
  have "of_nat (unat nonce) = (of_nat (unat n0 + length xs) :: u64)" by (simp only: n0(2))
  with n0(1) have "map fst (xs @ [(nonce, r)]) = map (\<lambda>i. n0 + of_nat i) [0..<length (xs @ [(nonce, r)])]" by simp
  moreover have "unat nonce = unat n0 + unat n" using n0(2) \<open>length xs = unat n\<close> by simp
  ultimately show ?thesis unfolding numbered_def by blast
qed

lemma numbered_count: "numbered xs nonce n \<Longrightarrow> unat nonce' = unat nonce + 1 \<Longrightarrow> unat n' = unat n + 1 \<Longrightarrow> numbered xs nonce' n'"
  unfolding numbered_def by force

lemma in_order_submitted:
  assumes "in_order P w" and "spammer w = Batching sent t" and "\<not> limit_reached P w"
  shows "in_order P (w\<lparr>sw_node := nd, spammer := Pushing r sent t, submitted := submitted w @ [(sp_nonce w, r)]\<rparr>)"
proof -
  from assms(1,2) have n: "numbered (submitted w) (sp_nonce w) (txs_sent_total w)" "length (submitted w) = unat (txs_sent_total w)"
    by (simp_all add: in_order_def)
  have "0 < max_num_txs P \<longrightarrow> length (submitted w) + 1 \<le> unat (max_num_txs P)"
    using assms(3) n(2) by (auto simp: limit_reached_def word_le_nat_alt)
  with numbered_submit [OF n, of r] n(2) show ?thesis by (simp add: in_order_def)
qed

lemma in_order_spammer:
  assumes "in_order P w" and "spammer_step X P w = Some w'"
  shows "in_order P w'"
proof (cases "spammer w")
  case Connecting
  with assms have "submitted w = []" "txs_sent_total w = 0" "w' = spammer_connect X P w"
    by (auto simp: in_order_def unat_eq_0)
  then show ?thesis using assms(1)
    by (cases rule: spammer_connect_cases [of X P w]) (auto simp: in_order_def numbered_Nil)
next
  case (Batching sent t)
  show ?thesis
  proof (cases "sent < max_rate P \<and> \<not> limit_reached P w")
    case True
    with assms(2) Batching have w': "w' = spammer_submit X P sent t w" by simp
    show ?thesis
    proof (cases rule: spammer_submit_cases [of X P sent t w])
      case (1 e nd)
      with assms(1) Batching show ?thesis unfolding w' by (auto simp: in_order_def)
    next
      case (2 r nd)
      with in_order_submitted [OF assms(1) Batching] True show ?thesis unfolding w' by simp
    qed
  next
    case False
    then show ?thesis using assms Batching by (auto simp: in_order_def)
  qed
next
  case (Pushing r sent t)
  let ?w = "w\<lparr>result_channel := result_channel w @ [r]\<rparr>"
  have "in_order P (spammer_count sent t ?w)" using assms(1) Pushing
    by (cases rule: spammer_count_cases [of sent t ?w]) (auto simp: in_order_def intro: numbered_count)
  then show ?thesis using assms Pushing by (auto simp: in_order_def split: if_splits)
qed (use assms in \<open>auto simp: in_order_def split: if_splits\<close>)

lemma always_in_order:
  assumes "spam_trace X P as (spam_init P now nd) w"
  shows "in_order P w" and "on_schedule P w"
proof -
  show "in_order P w"
  proof (rule spam_trace_invariant [where I = "in_order P", OF assms])
    show "in_order P (spam_init P now nd)" by (simp add: spam_init_def in_order_def numbered_Nil)
  qed (rule in_order_spammer in_order_tracker; assumption | simp add: in_order_def)+
  show "on_schedule P w"
  proof (rule spam_trace_invariant [where I = "on_schedule P", OF assms])
    show "on_schedule P (spam_init P now nd)" by (simp add: spam_init_def on_schedule_def ticks_def)
  qed (rule on_schedule_spammer on_schedule_tracker on_schedule_time; assumption)+
qed

text \<open>C33: the transactions sent carry consecutive nonces, whether the execution layer accepts them or not,
  and no more are sent than the limit on their number allows, if there is one.\<close>

theorem nonces_consecutive:
  assumes "spam_trace X P as (spam_init P now nd) w"
  shows "(\<exists>n0. map fst (submitted w) = map (\<lambda>i. n0 + of_nat i) [0..<length (submitted w)]) \<and>
    (0 < max_num_txs P \<longrightarrow> length (submitted w) \<le> unat (max_num_txs P))"
  using always_in_order(1) [OF assms] by (auto simp: in_order_def numbered_def)

lemma batch_at_most: "batch_ok P w pc \<Longrightarrow> length (submitted w) \<le> ticks w * unat (max_rate P)"
proof -
  have "ticks w * r = (ticks w - 1) * r + r" if "0 < ticks w" for r using that by (cases "ticks w") simp_all
  note this [of "unat (max_rate P)"]
  then show "batch_ok P w pc \<Longrightarrow> ?thesis"
    by (cases "(P, w, pc)" rule: batch_ok.cases) (auto simp: word_le_nat_alt word_less_nat_alt)
qed

text \<open>C34: the rate is kept on average, also when ticks are late and come in bursts: in the first s seconds
  at most (s + 1) * max_rate transactions are sent.\<close>

theorem rate_respected:
  assumes "spam_trace X P as (spam_init P now nd) w"
  shows "length (submitted w) \<le> ((sw_clock w - sp_start_time w) div second + 1) * unat (max_rate P)"
proof -
  from always_in_order(2) [OF assms] have o: "sp_start_time w + ticks w * second \<le> sw_clock w + second"
    "sp_start_time w \<le> sw_clock w" "batch_ok P w (spammer w)" by (simp_all add: on_schedule_def)
  have "ticks w \<le> (sw_clock w - sp_start_time w) div second + 1" using o(1,2) by linarith
  then have "ticks w * unat (max_rate P) \<le> ((sw_clock w - sp_start_time w) div second + 1) * unat (max_rate P)"
    by (rule mult_le_mono1)
  with batch_at_most [OF o(3)] show ?thesis by linarith
qed

text \<open>A spammer with rate zero and no limit on the time never ends by itself, and sends nothing, even
  with a limit on the number of transactions.\<close>

theorem rate_zero_never_ends:
  assumes "spam_trace X P as (spam_init P now nd) w" and "max_rate P = 0" and "max_time P = 0"
  shows "submitted w = [] \<and> spammer w \<noteq> SpammerEnded (Inr ())"
proof -
  from always_in_order [OF assms(1)] have o: "batch_ok P w (spammer w)" "unat (txs_sent_total w) \<le> length (submitted w)"
    by (simp_all add: on_schedule_def in_order_def)
  from batch_at_most [OF o(1)] assms(2) have none: "submitted w = []" by simp
  with o(2) have "txs_sent_total w = 0" by (simp add: unat_eq_0)
  then have "\<not> limit_reached P w" using assms(3) by (auto simp: limit_reached_def)
  with none o(1) show ?thesis by auto
qed

section \<open>The end of the spammer\<close>

text \<open>How many steps the spammer has left, with a limit on the number of transactions.\<close>

fun pc_rank :: "spammer_pc \<Rightarrow> nat" where
  "pc_rank Connecting = 7"
| "pc_rank (Pushing r sent t) = 6"
| "pc_rank (Batching sent t) = 5"
| "pc_rank (Resting u t) = 4"
| "pc_rank Checking = 3"
| "pc_rank Ticking = 2"
| "pc_rank Finishing = 1"
| "pc_rank (SpammerEnded r) = 0"

definition steps_left :: "'s Spammer \<Rightarrow> 'el spam_world \<Rightarrow> nat" where
  "steps_left P w = 10 * (unat (max_num_txs P) + 1 - ticks w) + 3 * (unat (max_num_txs P) - length (submitted w)) +
     pc_rank (spammer w)"

lemma steps_left_tick:
  assumes "on_schedule P w" and "in_order P w" and "0 < max_num_txs P" and "0 < max_rate P" and "spammer w = Ticking"
  shows "steps_left P (w\<lparr>spammer := Batching 0 t, next_tick := next_tick w + second\<rparr>) < steps_left P w"
proof -
  let ?w = "w\<lparr>spammer := Batching 0 t, next_tick := next_tick w + second\<rparr>"
  have n: "next_tick w = sp_start_time w + ticks w * second" "length (submitted w) = ticks w * unat (max_rate P)"
    using assms(1,5) by (simp_all add: on_schedule_def)
  have "1 \<le> unat (max_rate P)" using assms(4) by (simp add: word_less_nat_alt)
  then have "ticks w * 1 \<le> ticks w * unat (max_rate P)" by (rule mult_le_mono2)
  moreover have "length (submitted w) \<le> unat (max_num_txs P)" using assms(2,3) by (simp add: in_order_def)
  ultimately have "ticks w \<le> unat (max_num_txs P)" using n(2) by linarith
  moreover have "ticks ?w = ticks w + 1" by (rule ticks_next [OF n(1)]) simp_all
  ultimately show ?thesis using assms(5) unfolding steps_left_def by simp
qed

lemma steps_left_spammer:
  assumes "on_schedule P w" and "in_order P w" and "0 < max_num_txs P" and "0 < max_rate P"
    and "spammer_step X P w = Some w'"
  shows "steps_left P w' < steps_left P w"
proof (cases "spammer w")
  case Connecting
  with assms(1) have t: "ticks w = 0" by (simp add: on_schedule_def)
  show ?thesis using assms(5) Connecting t
    by (cases rule: spammer_connect_cases [of X P w]) (auto simp: steps_left_def ticks_def)
next
  case Ticking
  with assms steps_left_tick [OF assms(1-4)] show ?thesis by (auto split: if_splits)
next
  case (Batching sent t)
  show ?thesis
  proof (cases "sent < max_rate P \<and> \<not> limit_reached P w")
    case True
    then have w': "w' = spammer_submit X P sent t w" using assms(5) Batching by simp
    have "length (submitted w) < unat (max_num_txs P)"
      using True assms(2,3) Batching by (auto simp: in_order_def limit_reached_def word_le_nat_alt)
    then show ?thesis unfolding w' using Batching
      by (cases rule: spammer_submit_cases [of X P sent t w]) (auto simp: steps_left_def ticks_def)
  next
    case False
    then show ?thesis using assms(5) Batching by (auto simp: steps_left_def ticks_def)
  qed
next
  case (Pushing r sent t)
  let ?w = "w\<lparr>result_channel := result_channel w @ [r]\<rparr>"
  have "steps_left P (spammer_count sent t ?w) < steps_left P w" using Pushing
    by (cases rule: spammer_count_cases [of sent t ?w]) (simp_all add: steps_left_def ticks_def)
  moreover have "steps_left P (w\<lparr>spammer := SpammerEnded e\<rparr>) < steps_left P w" for e
    using Pushing by (simp add: steps_left_def ticks_def)
  ultimately show ?thesis using assms(5) Pushing by (auto split: if_splits)
qed (use assms(5) in \<open>auto simp: steps_left_def ticks_def split: if_splits\<close>)

lemma steps_left_frame:
  "steps_left P (w\<lparr>sw_clock := c, sw_node := nd\<rparr>) = steps_left P w"
  "w' \<in> set (tracker_choices X P w) \<Longrightarrow> steps_left P w' = steps_left P w"
  using tracker_frame [of w' X P w] by (simp_all add: steps_left_def ticks_def del: tracker_choices.simps)

text \<open>C31: with a limit on the number of transactions and a positive rate the spammer task ends: in any run,
  however it is interleaved with the tracker, with time and with the execution layer, it takes at most
  thirteen steps for each transaction and seventeen more.\<close>

theorem spammer_steps_bounded:
  assumes "spam_trace X P as (spam_init P now nd) w" and "0 < max_num_txs P" and "0 < max_rate P"
  shows "count_list as SpammerTask \<le> 13 * unat (max_num_txs P) + 17"
proof -
  have "count_list as SpammerTask + steps_left P w \<le> 13 * unat (max_num_txs P) + 17"
    using assms(1)
  proof (induction as "spam_init P now nd" w rule: spam_trace.induct)
    case stop
    then show ?case by (simp add: steps_left_def spam_init_def ticks_def)
  next
    case (step as w a w')
    note inv = always_in_order [OF step.hyps(1)]
    from step.hyps(3) show ?case
    proof (cases rule: spam_step.cases)
      case spam
      with steps_left_spammer [OF inv(2,1) assms(2,3)] have "steps_left P w' < steps_left P w" by blast
      with spam step.hyps(2) show ?thesis by simp
    next
      case (time d nd)
      with step.hyps(2) show ?thesis by (simp add: steps_left_frame(1))
    next
      case track
      from steps_left_frame(2) [OF track(2)] step.hyps(2) track(1) show ?thesis by simp
    qed
  qed
  then show ?thesis by linarith
qed

text \<open>The channels stay within their capacities, and nothing is in the last one before the end.\<close>

definition channels_ok :: "'el spam_world \<Rightarrow> bool" where
  "channels_ok w \<longleftrightarrow> length (result_channel w) \<le> RESULTS \<and> length (report_channel w) \<le> 1 \<and>
     (\<not> spammer_ended (spammer w) \<longrightarrow> finish_channel w = 0)"

lemma channels_ok_spammer: "channels_ok w \<Longrightarrow> spammer_step X P w = Some w' \<Longrightarrow> channels_ok w'"
  by (cases "spammer w")
    (auto simp: channels_ok_def spammer_connect_def spammer_submit_def spammer_count_def Let_def
      split: if_splits prod.splits sum.splits)

lemma channels_ok_tracker: "channels_ok w \<Longrightarrow> w' \<in> set (tracker_choices X P w) \<Longrightarrow> channels_ok w'"
  by (erule tracker_step_cases)
    (auto simp: channels_ok_def tracker_result_def tracker_report_def tracker_finish_def Let_def split: sum.splits prod.splits)

lemma always_channels_ok:
  assumes "spam_trace X P as (spam_init P now nd) w"
  shows "channels_ok w"
proof (rule spam_trace_invariant [where I = channels_ok, OF assms])
  show "channels_ok (spam_init P now nd)" by (simp add: spam_init_def channels_ok_def)
qed (rule channels_ok_spammer channels_ok_tracker; assumption | simp add: channels_ok_def)+

lemma wait_until:
  "\<exists>w'. spam_trace X P [Time] w w' \<and> w' = w\<lparr>sw_clock := sw_clock w + t\<rparr>"
  using spam_trace_one [OF spam_step.time [where w = w and d = t and nd = "sw_node w"]] by simp

text \<open>A tracker that waits comes back to its \<open>select!\<close> or ends.\<close>

definition still :: "'el spam_world \<Rightarrow> 'el spam_world \<Rightarrow> bool" where
  "still w w' \<longleftrightarrow> spammer w' = spammer w \<and> report_channel w' = report_channel w"

lemma still_refl: "still w w"
  by (simp add: still_def)

lemma tracker_returns:
  assumes "tracker w = Waiting t"
  shows "\<exists>as w'. spam_trace X P as w w' \<and> (tracker w' = Selecting \<or> tracker_ended (tracker w')) \<and>
    still w w' \<and> result_channel w' = result_channel w"
proof -
  let ?w = "w\<lparr>sw_clock := sw_clock w + t\<rparr>" and ?r = "tracker_report X P (w\<lparr>sw_clock := sw_clock w + t\<rparr>)"
  have "spam_step X P TrackerTask ?w ?r" using assms by (intro spam_step.track) simp
  then have "spam_trace X P ([Time] @ [TrackerTask]) w ?r" using wait_until by (intro spam_trace.step) blast+
  moreover have "(tracker ?r = Selecting \<or> tracker_ended (tracker ?r)) \<and> still w ?r \<and> result_channel ?r = result_channel w"
    by (auto simp: tracker_report_def still_def Let_def split: sum.splits prod.splits)
  ultimately show ?thesis by blast
qed

text \<open>A full result channel is emptied by one by a tracker that has not ended.\<close>

lemma results_taken:
  assumes "spammer w = Pushing r sent t" and "tracker w = Selecting \<or> tracker_ended (tracker w)"
    and "length (result_channel w) \<le> RESULTS"
  shows "\<exists>as w1 w2. spam_trace X P as w w1 \<and> still w w1 \<and> spammer_step X P w1 = Some w2"
proof (cases "tracker_ended (tracker w) \<or> length (result_channel w) < RESULTS")
  case True
  with assms(1) have "\<exists>w2. spammer_step X P w = Some w2" by auto
  with spam_trace.stop still_refl show ?thesis by metis
next
  case False
  then obtain res rest where c: "result_channel w = res # rest" "tracker w = Selecting" "length rest < RESULTS"
    using assms(2,3) by (cases "result_channel w") auto
  let ?v = "tracker_result res (w\<lparr>result_channel := rest\<rparr>)"
  have "spam_trace X P [TrackerTask] w ?v" using c by (intro spam_trace_one spam_step.track) simp
  moreover have "tracker_ended (tracker ?v) \<or> length (result_channel ?v) < RESULTS" "still w ?v"
    using c by (auto simp: tracker_result_def still_def split: sum.splits)
  moreover have "\<exists>w2. spammer_step X P ?v = Some w2" using calculation assms(1) by (auto simp: still_def)
  ultimately show ?thesis by metis
qed

text \<open>
  A spammer that has not ended can make a step, if need be after time has passed and the tracker has made
  steps that neither touch the spammer nor take a report.
\<close>

lemma spammer_progress:
  assumes "channels_ok w" and "\<not> spammer_ended (spammer w)"
  shows "\<exists>as w1 w2. spam_trace X P as w w1 \<and> still w w1 \<and> spammer_step X P w1 = Some w2"
proof -
  have now: ?thesis if "\<exists>w2. spammer_step X P w = Some w2" using that spam_trace.stop still_refl by metis
  have later: ?thesis if "\<exists>w2. spammer_step X P (w\<lparr>sw_clock := sw_clock w + t\<rparr>) = Some w2" for t
  proof -
    from that obtain w2 where w2: "spammer_step X P (w\<lparr>sw_clock := sw_clock w + t\<rparr>) = Some w2" by blast
    from wait_until obtain w1 where w1: "spam_trace X P [Time] w w1" "w1 = w\<lparr>sw_clock := sw_clock w + t\<rparr>" by blast
    have "still w w1" by (simp add: still_def w1(2))
    with w1 w2 show ?thesis by blast
  qed
  show ?thesis
  proof (cases "spammer w")
    case (Pushing r sent t)
    have le: "length (result_channel w) \<le> RESULTS" using assms(1) by (simp add: channels_ok_def)
    show ?thesis
    proof (cases "tracker w")
      case (Waiting u)
      from tracker_returns [OF this, of X P] obtain as w' where b: "spam_trace X P as w w'"
        "tracker w' = Selecting \<or> tracker_ended (tracker w')" "still w w'" "result_channel w' = result_channel w" by blast
      have "spammer w' = Pushing r sent t" "length (result_channel w') \<le> RESULTS" using b(3,4) Pushing le by (simp_all add: still_def)
      from results_taken [OF this(1) b(2) this(2), of X P] obtain bs w1 w2 where
        c: "spam_trace X P bs w' w1" "still w' w1" "spammer_step X P w1 = Some w2" by blast
      have "still w w1" using b(3) c(2) by (simp add: still_def)
      with spam_trace_append [OF c(1) b(1)] c(3) show ?thesis by blast
    next
      case Selecting
      then have "tracker w = Selecting \<or> tracker_ended (tracker w)" by simp
      from results_taken [OF Pushing this le] show ?thesis .
    next
      case (TrackerEnded x)
      then have "tracker w = Selecting \<or> tracker_ended (tracker w)" by simp
      from results_taken [OF Pushing this le] show ?thesis .
    qed
  next
    case Ticking
    then show ?thesis by (intro later [of "next_tick w"]) simp
  next
    case (Resting u t)
    then show ?thesis by (intro later [of u]) simp
  qed (use assms in \<open>intro now; simp add: channels_ok_def\<close>)+
qed

text \<open>
  How far the spammer is from its end if no report is taken, whatever its limits: after the report that the
  channel holds, the next one is refused.
\<close>

definition until_end :: "'s Spammer \<Rightarrow> 'el spam_world \<Rightarrow> nat" where
  "until_end P w = (let r = unat (max_rate P) in
     (if report_channel w = [] then 2 * r + 10 else 0) +
     (case spammer w of Connecting \<Rightarrow> 2 * r + 5 | Checking \<Rightarrow> 2 * r + 4 | Ticking \<Rightarrow> 2 * r + 3
      | Batching sent t \<Rightarrow> 2 * (r - unat sent) + 2 | Pushing x sent t \<Rightarrow> 2 * (r - unat sent) + 1
      | Resting u t \<Rightarrow> 1 | Finishing \<Rightarrow> 1 | SpammerEnded x \<Rightarrow> 0))"

lemma until_end_still: "still w w' \<Longrightarrow> until_end P w' = until_end P w"
  by (simp add: still_def until_end_def)

lemma until_end_step:
  assumes "on_schedule P w" and "spammer_step X P w = Some w'"
  shows "until_end P w' < until_end P w"
proof (cases "spammer w")
  case Connecting
  then have "until_end P (spammer_connect X P w) < until_end P w"
    by (cases rule: spammer_connect_cases [of X P w]) (simp_all add: until_end_def Let_def)
  with assms(2) Connecting show ?thesis by simp
next
  case (Batching sent t)
  then have "until_end P (spammer_submit X P sent t w) < until_end P w"
    by (cases rule: spammer_submit_cases [of X P sent t w]) (simp_all add: until_end_def Let_def)
  moreover have "until_end P (w\<lparr>spammer := Resting u t\<rparr>) < until_end P w" for u
    using Batching by (simp add: until_end_def Let_def)
  ultimately show ?thesis using assms(2) Batching by (auto split: if_splits)
next
  case (Pushing r sent t)
  let ?w = "w\<lparr>result_channel := result_channel w @ [r]\<rparr>"
  have "unat sent < unat (max_rate P)" using assms(1) Pushing by (simp add: on_schedule_def word_less_nat_alt)
  then have "until_end P (spammer_count sent t ?w) < until_end P w" using Pushing
    by (cases rule: spammer_count_cases [of sent t ?w]) (simp_all add: until_end_def Let_def)
  moreover have "until_end P (w\<lparr>spammer := SpammerEnded x\<rparr>) < until_end P w" for x
    using Pushing by (simp add: until_end_def Let_def)
  ultimately show ?thesis using assms(2) Pushing by (auto split: if_splits)
qed (use assms(2) in \<open>auto simp: until_end_def Let_def split: if_splits\<close>)

lemma spammer_can_end:
  assumes "spam_trace X P as (spam_init P now nd) w"
  shows "\<exists>bs w'. spam_trace X P bs w w' \<and> spammer_ended (spammer w')"
  using assms
proof (induction "until_end P w" arbitrary: as w rule: less_induct)
  case less
  show ?case
  proof (cases "spammer_ended (spammer w)")
    case True
    with spam_trace.stop show ?thesis by metis
  next
    case False
    from spammer_progress [OF always_channels_ok [OF less.prems] False, of X P] obtain bs w1 w2 where
      b: "spam_trace X P bs w w1" "still w w1" "spammer_step X P w1 = Some w2" by blast
    from spam_trace_append [OF b(1) less.prems] have r: "spam_trace X P (as @ bs) (spam_init P now nd) w1" .
    from until_end_step [OF always_in_order(2) [OF r] b(3)] until_end_still [OF b(2), of P]
    have lt: "until_end P w2 < until_end P w" by simp
    have "spam_trace X P ((as @ bs) @ [SpammerTask]) (spam_init P now nd) w2"
      using spam_trace.step [OF r spam_step.spam [OF b(3)]] .
    from less.hyps [OF lt this] obtain cs w' where c: "spam_trace X P cs w2 w'" "spammer_ended (spammer w')" by blast
    have "spam_trace X P (bs @ [SpammerTask]) w w2" using spam_trace.step [OF b(1) spam_step.spam [OF b(3)]] .
    with c show ?thesis using spam_trace_append by blast
  qed
qed

lemma tracker_can_end:
  assumes "spammer_ended (spammer w)"
  shows "\<exists>bs w'. spam_trace X P bs w w' \<and> Spammer_run w' = Some (Inr ())"
proof -
  have finish: "\<exists>bs w'. spam_trace X P bs v w' \<and> Spammer_run w' = Some (Inr ())"
    if v: "spammer_ended (spammer v)" "tracker v = Selecting \<or> tracker_ended (tracker v)" for v
  proof (cases "tracker_ended (tracker v)")
    case True
    with v(1) have "Spammer_run v = Some (Inr ())" by (simp add: Spammer_run_def)
    with spam_trace.stop show ?thesis by metis
  next
    case False
    with v have "spam_trace X P [TrackerTask] v (tracker_finish X v)" by (intro spam_trace_one spam_step.track) simp
    moreover have "Spammer_run (tracker_finish X v) = Some (Inr ())"
      using v(1) by (simp add: Spammer_run_def tracker_finish_def split: sum.splits)
    ultimately show ?thesis by blast
  qed
  show ?thesis
  proof (cases "tracker w")
    case (Waiting u)
    from tracker_returns [OF this, of X P] obtain as w' where b: "spam_trace X P as w w'" "tracker w' = Selecting \<or> tracker_ended (tracker w')"
      "spammer w' = spammer w" unfolding still_def by blast
    from finish [of w'] b assms obtain bs w'' where "spam_trace X P bs w' w''" "Spammer_run w'' = Some (Inr ())" by auto
    with spam_trace_append [OF this(1) b(1)] show ?thesis by blast
  qed (use finish assms in auto)
qed

text \<open>C32: no run gets stuck: whatever the limits and the rate, also without any limit, every state that a
  run of the two tasks can reach, in any interleaving with time and the execution layer, has a continuation in
  which both tasks end and run returns. No full channel blocks both, and no task waits for ever for one that has
  ended. The continuation of a run without limits, which is meant to go on, is one in which a request or a
  report fails: a report finds the channel of capacity one full.\<close>

theorem run_can_end:
  assumes "spam_trace X P as (spam_init P now nd) w"
  shows "\<exists>bs w' r. spam_trace X P bs w w' \<and> spammer_ended (spammer w') \<and> tracker_ended (tracker w') \<and>
    Spammer_run w' = Some r"
proof -
  from spammer_can_end [OF assms] obtain bs w1 where b: "spam_trace X P bs w w1" "spammer_ended (spammer w1)" by blast
  from tracker_can_end [OF b(2)] obtain cs w2 where c: "spam_trace X P cs w1 w2" "Spammer_run w2 = Some (Inr ())" by blast
  have "spammer_ended (spammer w2)" "tracker_ended (tracker w2)" using c(2) by (auto simp: Spammer_run_def split: if_splits)
  with spam_trace_append [OF c(1) b(1)] c(2) show ?thesis by blast
qed

section \<open>What is printed\<close>

lemma show_zero: "show_nat 0 = ''0''"
  by code_simp

lemma spam_trace_Cons:
  assumes "spam_step X P a w w'" and "spam_trace X P as w' w''"
  shows "spam_trace X P (a # as) w w''"
  using spam_trace_append [OF assms(2) spam_trace_one [OF assms(1)]] by simp

text \<open>The total that is printed at the end can miss results: with a limit of one transaction, which the
  execution layer accepts, there is a run that ends normally and prints a total of no transactions,
  because the tracker may see the end before the last report.\<close>

theorem total_can_be_zero:
  assumes "max_num_txs P = 1" and "0 < max_rate P" and "max_time P = 0" and "\<not> blobs P"
    and "get_latest_nonce X P (signer_address X (sp_signer P)) nd = (Inr n, nd1)" and "unat n + 1 < 2 ^ 64"
    and "sign_and_encode X (sp_signer P) (make_eip1559_tx n) = Inr tx"
    and "RpcClient_rpc_request X (sp_url P) ''eth_sendRawTransaction'' (JArray [JString (hex_encode X tx)])
      (value_string X) nd1 = (Inr hash, nd2)"
  shows "\<exists>as w. spam_trace X P as (spam_init P now nd) w \<and> Spammer_run w = Some (Inr ()) \<and>
    submitted w = [(n, Inr (of_nat (length tx)))] \<and>
    last (printed w) = ''Total: ['' @ sp_id P @ ''] elapsed '' @ show_millis X 20 @ ''s: Sent 0 txs (0 bytes)''"
proof -
  let ?r = "Inr (of_nat (length tx)) :: string + u64"
  let ?w0 = "spam_init P now nd"
  let ?w1 = "?w0\<lparr>sw_node := nd1, spammer := Ticking, sp_nonce := n, printed := [''Spamming '' @
    show_address X (signer_address X (sp_signer P)) @ '' starting from nonce='' @ show_nat (unat n)]\<rparr>"
  let ?w2 = "?w1\<lparr>spammer := Batching 0 now, next_tick := now + second\<rparr>"
  let ?w3 = "?w2\<lparr>sw_node := nd2, spammer := Pushing ?r 0 now, submitted := [(n, ?r)]\<rparr>"
  let ?w4 = "?w3\<lparr>result_channel := [?r], spammer := Batching 1 now, sp_nonce := n + 1, txs_sent_total := 1\<rparr>"
  let ?w5 = "?w4\<lparr>spammer := Resting (now + 20 * millisecond) now\<rparr>"
  let ?w6 = "?w5\<lparr>sw_clock := now + 20 * millisecond\<rparr>"
  let ?w7 = "?w6\<lparr>report_channel := [now], spammer := Checking\<rparr>"
  let ?w8 = "?w7\<lparr>spammer := Finishing\<rparr>"
  let ?w9 = "?w8\<lparr>finish_channel := 1, spammer := SpammerEnded (Inr ())\<rparr>"
  have s: "spam_step X P SpammerTask w w'" if "spammer_step X P w = Some w'" for w w' using that by (rule spam_step.spam)
  have 1: "spammer_step X P ?w0 = Some ?w1" using assms(5) by (simp add: spam_init_def spammer_connect_def)
  have 2: "spammer_step X P ?w1 = Some ?w2" by (simp add: spam_init_def)
  have 3: "spammer_step X P ?w2 = Some ?w3" using assms(1-4,7,8)
    by (simp add: spammer_submit_def make_signed_eip1559_tx_def spam_init_def limit_reached_def Let_def)
  have 4: "spammer_step X P ?w3 = Some ?w4" using assms(6) by (simp add: spammer_count_def spam_init_def add_chk_def)
  have 5: "spammer_step X P ?w4 = Some ?w5" using assms(1) by (simp add: spam_init_def limit_reached_def)
  have 6: "spam_step X P Time ?w5 ?w6"
    using spam_step.time [where X = X and P = P and w = ?w5 and d = "20 * millisecond" and nd = nd2] by (simp add: spam_init_def)
  have 7: "spammer_step X P ?w6 = Some ?w7" by (simp add: spam_init_def)
  have 8: "spammer_step X P ?w7 = Some ?w8" using assms(1) by (simp add: spam_init_def limit_reached_def)
  have 9: "spammer_step X P ?w8 = Some ?w9" by (simp add: spam_init_def)
  have 10: "spam_step X P TrackerTask ?w9 (tracker_finish X ?w9)" by (intro spam_step.track) (simp add: spam_init_def)
  have end_state: "Spammer_run (tracker_finish X ?w9) = Some (Inr ())" "submitted (tracker_finish X ?w9) = [(n, ?r)]"
    "last (printed (tracker_finish X ?w9)) =
      ''Total: ['' @ sp_id P @ ''] elapsed '' @ show_millis X 20 @ ''s: Sent 0 txs (0 bytes)''"
    using show_zero by (simp_all add: tracker_finish_def Stats_fmt_def Stats_new_def spam_init_def Spammer_run_def Let_def)
  note run = spam_trace_Cons [OF s [OF 1] spam_trace_Cons [OF s [OF 2] spam_trace_Cons [OF s [OF 3] spam_trace_Cons [OF s [OF 4]
    spam_trace_Cons [OF s [OF 5] spam_trace_Cons [OF 6 spam_trace_Cons [OF s [OF 7] spam_trace_Cons [OF s [OF 8]
    spam_trace_Cons [OF s [OF 9] spam_trace_one [OF 10]]]]]]]]]]
  from run end_state show ?thesis by blast
qed

text \<open>The senders of the spammer are funded: the account of the signer of a spammer has 15000 ether in the
  genesis that the tool generates.\<close>

theorem spammer_funded:
  assumes "chain_genesis W = (Inr g :: ('e, ChainGenesis) result)"
    and "Spammer_new W url i num time rate b = (Inr P :: ('e, 's Spammer) result)"
  shows "cg_alloc g (signer_address W (sp_signer P)) = Some \<lparr>balance = 15000 * 10 ^ 18\<rparr>"
proof -
  let ?a = "\<lparr>balance = 15000000000000000000000\<rparr>"
  have fold: "foldl (\<lambda>m a. m(a \<mapsto> v)) m xs a = (if a \<in> set xs then Some v else m a)" for m v a and xs :: "Address list"
    by (induction xs arbitrary: m) auto
  from assms obtain signers where s: "make_signers W = (Inr signers :: ('e, 's list) result)"
    "sp_signer P \<in> set signers" "cg_alloc g = foldl (\<lambda>m a. m(a \<mapsto> ?a)) Map.empty (map (signer_address W) signers)"
    by (auto simp: chain_genesis_def Spammer_new_def and_then_Inr_iff Let_def split: if_splits)
  then have "signer_address W (sp_signer P) \<in> set (map (signer_address W) signers)" by simp
  with s(3) show ?thesis by (simp only: fold if_True) simp
qed

end
