(* ===== verification/Reference_Spammer.thy ===== *)
theory Reference_Spammer
  imports Spammer_Correct
begin

text \<open>
  A concrete execution layer for the spammer, which answers every request with \<open>0x5\<close>, wallets that are
  numbers, and with them the witnesses of the properties of the spammer.
\<close>

definition test_node :: "(nat, unit) spam_lib" where
  "test_node = \<lparr>
     wallet = (\<lambda>phrase. Some (length phrase)),
     signer_address = (\<lambda>n. Address (of_nat n)),
     sign_and_encode = (\<lambda>_ _. Inr [1, 2, 3]),
     random_hash = (\<lambda>_. (7, ())),
     utc_timestamp = (\<lambda>y m d. Some 1710374400),
     chain_genesis_text = (\<lambda>_. Inr ''{}''),
     post_request = (\<lambda>_ _ _. (Inr \<lparr>rs_jsonrpc = ''2.0'', rs_error = None, rs_result = JString ''0x5'', rs_id = JInt 1\<rparr>, ())),
     not_a_string = (\<lambda>_. ''not a string''),
     not_a_number = (\<lambda>_. ''not a number''),
     decode_pool_status = (\<lambda>_. Inr ''pool''),
     hex_encode = (\<lambda>_. ''010203''),
     show_address = (\<lambda>_. ''0xa''),
     show_millis = show_nat,
     show_counts = (\<lambda>_. ''{}'')\<rparr>"

definition spammer_for :: "u64 \<Rightarrow> u64 \<Rightarrow> nat Spammer" where
  "spammer_for n rate = \<lparr>sp_id = ''0'', sp_url = ''http://127.0.0.1:8545'', sp_signer = 59, max_num_txs = n, max_time = 0,
     max_rate = rate, blobs = False\<rparr>"

lemma test_node_answers: "RpcClient_rpc_request test_node url m p f nd = (f (JString ''0x5''), ())"
  by (simp add: RpcClient_rpc_request_def test_node_def)

lemma test_node_nonce: "get_latest_nonce test_node P a nd = (Inr 5, ())"
  by (simp add: get_latest_nonce_def test_node_answers value_string_def as_str_def u64_from_hex_def hex_value_def Let_def)

text \<open>The spammer connects, waits for the first tick and sends one transaction.\<close>

lemma sample_trace:
  "\<exists>w. spam_trace test_node (spammer_for 1 1) [SpammerTask, SpammerTask, SpammerTask] (spam_init (spammer_for 1 1) 0 ()) w \<and>
    submitted w = [(5, Inr 3)] \<and> \<not> tracker_ended (tracker w) \<and> result_channel w = [] \<and> pending (spammer w) = [Inr 3]"
proof -
  let ?P = "spammer_for 1 1"
  have s: "spam_step test_node P SpammerTask w w'" if "spammer_step test_node P w = Some w'" for P and w w' :: "unit spam_world"
    using that by (rule spam_step.spam)
  obtain w1 where 1: "spammer_step test_node ?P (spam_init ?P 0 ()) = Some w1" "spammer w1 = Ticking" "sp_nonce w1 = 5"
    "txs_sent_total w1 = 0" "next_tick w1 = 0" "sw_clock w1 = 0" "submitted w1 = []" "tracker w1 = Selecting" "result_channel w1 = []"
    by (simp add: spam_init_def spammer_connect_def test_node_nonce Let_def)
  obtain w2 where 2: "spammer_step test_node ?P w1 = Some w2" "spammer w2 = Batching 0 0" "sp_nonce w2 = 5"
    "txs_sent_total w2 = 0" "submitted w2 = []" "tracker w2 = Selecting" "result_channel w2 = []"
    using 1 by simp
  have sign: "sign_and_encode test_node k tx = Inr [1, 2, 3]" for k tx by (simp add: test_node_def)
  have P: "max_rate ?P = 1" "max_num_txs ?P = 1" "max_time ?P = 0" "\<not> blobs ?P" by (simp_all add: spammer_for_def)
  obtain w3 where 3: "spammer_step test_node ?P w2 = Some w3" "submitted w3 = [(5, Inr 3)]" "tracker w3 = Selecting"
    "result_channel w3 = []" "pending (spammer w3) = [Inr 3]"
    using 2 P by (simp add: limit_reached_def spammer_submit_def make_signed_eip1559_tx_def test_node_answers sign value_string_def
        as_str_def Let_def)
  from spam_trace_Cons [OF s [OF 1(1)] spam_trace_Cons [OF s [OF 2(1)] spam_trace_one [OF s [OF 3(1)]]]] 3 show ?thesis by auto
qed

theorem statistics_account_for_results_witness:
  "\<exists>as w. spam_trace test_node (spammer_for 1 1) as (spam_init (spammer_for 1 1) 0 ()) w \<and> length (submitted w) = 1 \<and>
    succeed (stats_total w) = 0 \<and> succeed (stats_last_second w) = 0"
proof -
  from sample_trace obtain as w where w: "spam_trace test_node (spammer_for 1 1) as (spam_init (spammer_for 1 1) 0 ()) w"
    "submitted w = [(5, Inr 3)]" "result_channel w = []" "pending (spammer w) = [Inr 3]" by blast
  from statistics_account_for_results [OF w(1)] w have "succeed (stats_total w) = 0" "succeed (stats_last_second w) = 0"
    by (simp_all add: Let_def unat_eq_0)
  moreover have "length (submitted w) = 1" using w(2) by simp
  ultimately show ?thesis using w(1) by blast
qed

theorem nonces_consecutive_witness:
  "\<exists>as w. spam_trace test_node (spammer_for 1 1) as (spam_init (spammer_for 1 1) 0 ()) w \<and> submitted w \<noteq> [] \<and> length (submitted w) \<le> 1"
proof -
  from sample_trace obtain as w where w: "spam_trace test_node (spammer_for 1 1) as (spam_init (spammer_for 1 1) 0 ()) w"
    "submitted w = [(5, Inr 3)]" by blast
  from nonces_consecutive [OF w(1)] have "length (submitted w) \<le> 1" by (simp add: spammer_for_def)
  moreover have "submitted w \<noteq> []" using w(2) by simp
  ultimately show ?thesis using w(1) by blast
qed

theorem rate_respected_witness:
  "\<exists>as w. spam_trace test_node (spammer_for 1 1) as (spam_init (spammer_for 1 1) 0 ()) w \<and> submitted w \<noteq> [] \<and>
    length (submitted w) \<le> (sw_clock w - sp_start_time w) div second + 1"
proof -
  from sample_trace obtain as w where w: "spam_trace test_node (spammer_for 1 1) as (spam_init (spammer_for 1 1) 0 ()) w"
    "submitted w = [(5, Inr 3)]" by blast
  from rate_respected [OF w(1)] have "length (submitted w) \<le> (sw_clock w - sp_start_time w) div second + 1"
    by (simp add: spammer_for_def)
  moreover have "submitted w \<noteq> []" using w(2) by simp
  ultimately show ?thesis using w(1) by blast
qed

theorem rate_zero_never_ends_witness:
  "\<exists>w. spam_trace test_node (spammer_for 1 0) [SpammerTask] (spam_init (spammer_for 1 0) 0 ()) w \<and> submitted w = []"
proof -
  obtain w where "spammer_step test_node (spammer_for 1 0) (spam_init (spammer_for 1 0) 0 ()) = Some w"
    by (simp add: spam_init_def)
  from spam_trace_one [OF spam_step.spam [OF this]]
  have t: "spam_trace test_node (spammer_for 1 0) [SpammerTask] (spam_init (spammer_for 1 0) 0 ()) w" .
  from rate_zero_never_ends [OF t] t show ?thesis by (auto simp: spammer_for_def)
qed

theorem spammer_steps_bounded_witness:
  "\<exists>as w. spam_trace test_node (spammer_for 1 1) as (spam_init (spammer_for 1 1) 0 ()) w \<and> submitted w \<noteq> [] \<and>
    count_list as SpammerTask \<le> 30"
proof -
  from sample_trace obtain as w where w: "spam_trace test_node (spammer_for 1 1) as (spam_init (spammer_for 1 1) 0 ()) w"
    "submitted w = [(5, Inr 3)]" by blast
  from spammer_steps_bounded [OF w(1)] have "count_list as SpammerTask \<le> 30" by (simp add: spammer_for_def)
  moreover have "submitted w \<noteq> []" using w(2) by simp
  ultimately show ?thesis using w(1) by blast
qed

theorem run_can_end_witness:
  "\<exists>bs w' r. spam_trace test_node (spammer_for 0 1000) bs (spam_init (spammer_for 0 1000) 0 ()) w' \<and>
    spammer_ended (spammer w') \<and> tracker_ended (tracker w') \<and> Spammer_run w' = Some r"
  using run_can_end [OF spam_trace.stop] .

theorem total_can_be_zero_witness:
  "\<exists>as w. spam_trace test_node (spammer_for 1 9) as (spam_init (spammer_for 1 9) 0 ()) w \<and> Spammer_run w = Some (Inr ()) \<and>
    submitted w = [(5, Inr 3)] \<and> last (printed w) = ''Total: [0] elapsed 20s: Sent 0 txs (0 bytes)''"
proof -
  have lib: "sign_and_encode test_node k tx = Inr [1, 2, 3]" "show_millis test_node n = show_nat n" for k tx n
    by (simp_all add: test_node_def)
  have digits: "show_nat 20 = ''20''" by code_simp
  have P: "max_rate (spammer_for 1 9) = 9" "max_num_txs (spammer_for 1 9) = 1" "max_time (spammer_for 1 9) = 0"
    "\<not> blobs (spammer_for 1 9)" "sp_id (spammer_for 1 9) = ''0''" by (simp_all add: spammer_for_def)
  have answer: "RpcClient_rpc_request test_node u ''eth_sendRawTransaction'' p (value_string test_node) () = (Inr ''0x5'', ())" for u p
    by (simp add: test_node_answers value_string_def as_str_def)
  from total_can_be_zero [OF P(2) _ P(3,4) test_node_nonce _ lib(1) answer, of 0] show ?thesis
    by (simp add: P lib digits)
qed

theorem spammer_funded_witness:
  "\<exists>g P. chain_genesis test_node = (Inr g :: (unit, ChainGenesis) result) \<and>
    (Spammer_new test_node ''u'' 2 0 0 1000 False :: (unit, nat Spammer) result) = Inr P \<and>
    cg_alloc g (signer_address test_node (sp_signer P)) = Some \<lparr>balance = 15000 * 10 ^ 18\<rparr>"
proof -
  have signers: "make_signers test_node = (Inr [59, 93, 58] :: (unit, nat list) result)"
    by (simp add: make_signers_def TEST_MNEMONICS_def make_signer_def test_node_def)
  have "\<exists>g. chain_genesis test_node = (Inr g :: (unit, ChainGenesis) result)"
    by (simp add: chain_genesis_def signers Let_def) (simp add: test_node_def)
  then obtain g where g: "chain_genesis test_node = (Inr g :: (unit, ChainGenesis) result)" by blast
  have "\<exists>P. (Spammer_new test_node ''u'' 2 0 0 1000 False :: (unit, nat Spammer) result) = Inr P"
    by (simp add: Spammer_new_def signers)
  then obtain P where P: "(Spammer_new test_node ''u'' 2 0 0 1000 False :: (unit, nat Spammer) result) = Inr P" by blast
  from spammer_funded [OF g P] g P show ?thesis by blast
qed

end
