(* ===== verification/Equivocation.thy ===== *)
theory Equivocation
  imports State_Correct
begin

text \<open>
  What a node decides when it has accepted several proposals for one height and round, as those of a proposer
  that signs two: the first, with whatever certificate the height is decided. Two nodes that accept them in
  different orders decide different values.
\<close>

section \<open>Proposals received, on the ledger\<close>

lemma received_ledger:
  assumes "store_ready L \<alpha> \<beta> (store st)" and "received_proposal_part L p m st = (Inr out, st')"
    and "\<And>v. out = Some v \<Longrightarrow> prv_round v \<noteq> RNil"
  shows "same_node st st' \<and> store_ready L \<alpha> \<beta> (store st') \<and>
    (\<exists>data. (\<forall>v. out = Some v \<longrightarrow> prv_value v = Value_new L data) \<and>
      held L \<alpha> (store st') = (case out of None \<Rightarrow> held L \<alpha> (store st)
        | Some v \<Rightarrow> ledger_put_block ((current_height st, current_round st), data) (ledger_propose v (held L \<alpha> (store st)))))"
proof -
  have same: "same_node st st'" by (rule received_same_node [OF assms(2)])
  show ?thesis
    using assms(2)
  proof (cases rule: received_cases)
    case (ignored sm)
    with assms(1) same show ?thesis by simp
  next
    case (accepted pp sm)
    obtain v data where v: "assemble_value_from_parts L pp = (v, data)" by fastforce
    with accepted(3) have out: "out = Some v" by simp
    have val: "prv_value v = Value_new L data" using v by (auto simp: assemble_value_from_parts_def Let_def)
    from refines_propose [OF assms(1) assms(3) [OF out]] obtain s1 where
      1: "store_undecided_proposal L (store st) v = Inr ((), s1)" "store_ready L \<alpha> \<beta> s1"
        "held L \<alpha> s1 = ledger_propose v (held L \<alpha> (store st))" by blast
    from refines_put_block [OF 1(2), of "current_height st" "current_round st" data] obtain s2 where
      2: "store_undecided_block_data L s1 (current_height st) (current_round st) data = Inr ((), s2)" "store_ready L \<alpha> \<beta> s2"
        "held L \<alpha> s2 = ledger_put_block ((current_height st, current_round st), data) (held L \<alpha> s1)" by blast
    have "received_proposal_part L p m st = (Inr (Some v), st\<lparr>streams_map := sm, store := s2\<rparr>)"
      using 1(1) 2(1) by (simp add: received_accepted [OF accepted(1,2) v] on_store_def store_undecided_proposal_data_def
          bind_io_def)
    with assms(2) have "st' = st\<lparr>streams_map := sm, store := s2\<rparr>" by simp
    with same val 1(3) 2(2,3) out show ?thesis by auto
  qed simp
qed

text \<open>The first proposal for a height and round.\<close>

fun first_for :: "Height \<times> Round \<Rightarrow> (stream_key \<times> ProposedValue) list \<Rightarrow> ProposedValue option" where
  "first_for k [] = None"
| "first_for k ((s, v) # outs) = (if (prv_height v, prv_round v) = k then Some v else first_for k outs)"

lemma receive_all_ledger:
  assumes "store_ready L \<alpha> \<beta> (store st)" and "receive_all L ds st = (Inr outs, st')"
    and "\<forall>(k, v) \<in> set outs. prv_round v \<noteq> RNil"
  shows "same_node st st' \<and> store_ready L \<alpha> \<beta> (store st') \<and>
    lg_decided_block (held L \<alpha> (store st')) = lg_decided_block (held L \<alpha> (store st)) \<and>
    lg_proposal (held L \<alpha> (store st')) k =
      (case lg_proposal (held L \<alpha> (store st)) k of Some p \<Rightarrow> Some p | None \<Rightarrow> first_for k outs)"
  using assms
proof (induction ds arbitrary: st outs)
  case Nil
  then show ?case by (simp add: return_io_def same_node_refl split: option.split)
next
  case (Cons d ds)
  obtain p m where d: "d = (p, m)" by (cases d)
  with Cons.prems(2) obtain out s1 outs1
    where 1: "received_proposal_part L p m st = (Inr out, s1)" "receive_all L ds s1 = (Inr outs1, st')"
      "outs = (case out of None \<Rightarrow> outs1 | Some v \<Rightarrow> ((p, sm_stream_id m), v) # outs1)"
    by (auto simp: bind_io_Inr)
  have r: "prv_round v \<noteq> RNil" if "out = Some v" for v using Cons.prems(3) 1(3) that by simp
  have r1: "\<forall>(k, v) \<in> set outs1. prv_round v \<noteq> RNil" using Cons.prems(3) 1(3) by (auto split: option.splits)
  from received_ledger [OF Cons.prems(1) 1(1) r] obtain data where
    s: "same_node st s1" "store_ready L \<alpha> \<beta> (store s1)"
      "held L \<alpha> (store s1) = (case out of None \<Rightarrow> held L \<alpha> (store st)
        | Some v \<Rightarrow> ledger_put_block ((current_height st, current_round st), data) (ledger_propose v (held L \<alpha> (store st))))"
    by blast
  from Cons.IH [OF s(2) 1(2) r1] same_node_trans [OF s(1)] show ?case
    unfolding s(3) 1(3)
    by (auto simp: ledger_put_block_def ledger_propose_def put_first_def split: option.splits)
qed

section \<open>What is decided\<close>

lemma first_decided:
  assumes "store_ready L \<alpha> \<beta> (store st)" and "receive_all L ds st = (Inr outs, st')"
    and "\<forall>(k, v) \<in> set outs. prv_round v \<noteq> RNil"
    and "lg_proposal (held L \<alpha> (store st)) (cert_height c, cert_round c) = None"
    and "first_for (cert_height c, cert_round c) outs = Some v"
    and "cert_round c \<noteq> RNil" and "hval (current_height st) + 1 < 2 ^ 64"
  shows "\<exists>st''. commit L c st' = (Inr (), st'') \<and>
    fst (State_get_decided_value L (cert_height c) st'') = Some \<lparr>dv_value = prv_value v, dv_certificate = c\<rparr>"
proof -
  note r = receive_all_ledger [OF assms(1-3)]
  then have ready: "store_ready L \<alpha> \<beta> (store st')" and same: "same_node st st'" by blast+
  have p: "lg_proposal (held L \<alpha> (store st')) (cert_height c, cert_round c) = Some v"
    using r [of "(cert_height c, cert_round c)"] assms(4,5) by simp
  have h: "hval (current_height st') + 1 < 2 ^ 64" using assms(7) same_nodeD(1) [OF same] by simp
  from commit_refines [OF ready assms(6) p h] obtain s' where s': "commit L c st' = (Inr (), st'\<lparr>store := s',
      current_height := Height (as_u64 (current_height st') + 1), current_round := RSome 0\<rparr>)"
    "store_ready L \<alpha> \<beta> s'" "held L \<alpha> s' = ledger_commit c (prv_value v) (held L \<alpha> (store st'))"
    by blast
  have "lg_decided (held L \<alpha> s') (cert_height c) = Some \<lparr>dv_value = prv_value v, dv_certificate = c\<rparr>"
    by (simp add: s'(3) ledger_commit_decided)
  with reads_decided [OF s'(2), of "cert_height c"] s'(1) show ?thesis
    by (auto simp: State_get_decided_value_def)
qed

text \<open>C6: the certificate does not choose the value that a node decides, the first proposal that the node
  accepted for the height and round does. So where a proposer signs two proposals for one round, two nodes
  that accept them in different orders both commit the same certificate with success and decide
  different values, at least one of which the certificate does not name.\<close>

theorem equivocation_splits_nodes:
  assumes "store_ready L \<alpha> \<beta> (store a)" and "store_ready L \<alpha> \<beta> (store b)"
    and "lg_proposal (held L \<alpha> (store a)) (cert_height c, cert_round c) = None"
    and "lg_proposal (held L \<alpha> (store b)) (cert_height c, cert_round c) = None"
    and "receive_all L ds a = (Inr outs, a')" and "receive_all L es b = (Inr outs2, b')"
    and "\<forall>(k, v) \<in> set outs \<union> set outs2. prv_round v \<noteq> RNil"
    and "first_for (cert_height c, cert_round c) outs = Some v"
    and "first_for (cert_height c, cert_round c) outs2 = Some w"
    and "Value_id (prv_value v) \<noteq> Value_id (prv_value w)" and "cert_round c \<noteq> RNil"
    and "hval (current_height a) + 1 < 2 ^ 64" and "hval (current_height b) + 1 < 2 ^ 64"
  shows "\<exists>a'' b''. commit L c a' = (Inr (), a'') \<and> commit L c b' = (Inr (), b'') \<and>
    fst (State_get_decided_value L (cert_height c) a'') = Some \<lparr>dv_value = prv_value v, dv_certificate = c\<rparr> \<and>
    fst (State_get_decided_value L (cert_height c) b'') = Some \<lparr>dv_value = prv_value w, dv_certificate = c\<rparr> \<and>
    (Value_id (prv_value v) \<noteq> cert_value_id c \<or> Value_id (prv_value w) \<noteq> cert_value_id c)"
proof -
  have r: "\<forall>(k, v) \<in> set outs. prv_round v \<noteq> RNil" "\<forall>(k, v) \<in> set outs2. prv_round v \<noteq> RNil" using assms(7) by auto
  from first_decided [OF assms(1,5) r(1) assms(3,8,11,12)] first_decided [OF assms(2,6) r(2) assms(4,9,11,13)]
  show ?thesis using assms(10) by metis
qed

section \<open>Two proposals by one proposer\<close>

definition split_lpv :: "u8 \<Rightarrow> LocallyProposedValue" where
  "split_lpv x = \<lparr>lpv_height = Height 1, lpv_round = RSome 0, lpv_value = Value_new mem_lib [x]\<rparr>"

definition split_fin :: "u8 \<Rightarrow> ProposalFin" where
  "split_fin x = \<lparr>fin_signature = sk_sign std_crypto (PrivateKey [9]) (signed_hash mem_lib (Height 1) (RSome 0) [x])\<rparr>"

definition split_msgs :: "u8 \<Rightarrow> ProposalPart StreamMessage list" where
  "split_msgs x = map (\<lambda>(n, c). \<lparr>sm_stream_id = sample_sid, sm_sequence = n, sm_content = c\<rparr>)
     [(0, SData (PartInit \<lparr>init_height = Height 1, init_round = RSome 0, init_proposer = Address 7\<rparr>)),
      (1, SData (PartData \<lparr>data_bytes = [x]\<rparr>)), (2, SData (PartFin (split_fin x))), (3, SFin)]"

definition split_ds :: "u8 \<Rightarrow> (PeerId \<times> ProposalPart StreamMessage) list" where
  "split_ds x = map (Pair (PeerId [4])) (split_msgs x)"

lemma split_parts: "data_part_list [x] = [PartData \<lparr>data_bytes = [x]\<rparr>]"
  by (simp add: data_part_list_def CHUNK_SIZE_def chunks.simps [of "131072"] ProposalData_new_def)

lemma split_sent:
  "stream_proposal mem_lib (split_lpv x) [x] sample_node = (Inr (split_msgs x), sample_node\<lparr>stream_nonce := 1\<rparr>)"
proof -
  have "make_proposal_parts mem_lib sample_node (split_lpv x) [x] =
      [PartInit \<lparr>init_height = Height 1, init_round = RSome 0, init_proposer = Address 7\<rparr>,
       PartData \<lparr>data_bytes = [x]\<rparr>, PartFin (split_fin x)]"
    by (simp add: make_proposal_parts_eq split_parts split_lpv_def split_fin_def)
  then show ?thesis
    by (simp add: stream_proposal_def stream_id_def bind_io_def get_io_def lift_io_def modify_io_def
        return_io_def add_chk_def std_rounds_def std_ids_def expect_def split_msgs_def sample_sid_def)
qed

lemma feed_keys:
  "feed L sm ds = (Inr (outs, sm') :: (Report, _) result) \<Longrightarrow> (k, pp) \<in> set outs \<Longrightarrow>
    k \<in> (\<lambda>(p, m). (p, sm_stream_id m)) ` set ds"
proof (induction ds arbitrary: sm outs)
  case (Cons d ds)
  obtain p m where d: "d = (p, m)" by (cases d)
  with Cons.prems(1) obtain out sm1 outs1
    where "feed L sm1 ds = (Inr (outs1, sm') :: (Report, _) result)"
      "outs = (case out of None \<Rightarrow> outs1 | Some x \<Rightarrow> ((p, sm_stream_id m), x) # outs1)"
    by (auto simp: and_then_Inr_iff)
  with Cons.IH [of sm1 outs1] Cons.prems(2) d show ?case by (auto split: option.splits)
qed simp

lemma split_received:
  "\<exists>st'. receive_all mem_lib (split_ds x) sample_node =
    (Inr [((PeerId [4], sample_sid), \<lparr>prv_height = Height 1, prv_round = RSome 0, prv_valid_round = RNil,
      prv_proposer = Address 7, prv_value = Value_new mem_lib [x], prv_validity = Valid\<rparr>)], st')"
proof -
  let ?k = "(PeerId [4], sample_sid)"
  define i where "i = \<lparr>init_height = Height 1, init_round = RSome 0, init_proposer = Address 7\<rparr>"
  have sid: "sm_stream_id (hd (split_msgs x)) = sample_sid" by (simp add: split_msgs_def)
  from stream_proposal_Inr [OF split_sent [of x]] have c: "complete_stream sample_sid i (split_msgs x)"
    by (auto simp: sid split_lpv_def i_def)
  have p: "parts_of (split_msgs x) = PartInit i # data_part_list [x] @ [PartFin (split_fin x)]"
    by (simp add: parts_of_def split_msgs_def List.map_filter_simps i_def split_parts)
  have ds: "no_overflow (split_ds x)" "\<forall>(p, m) \<in> set (split_ds x). content_ok (sm_content m)"
    "set (delivered ?k (split_ds x)) = set (split_msgs x)" "streams PartStreamsMap_new ?k = None"
    by (auto simp: split_msgs_def split_ds_def no_overflow_def delivered_def PartStreamsMap_new_def)
  have laws: "stream_laws (stream mem_lib)" by (simp add: std_stream_laws)
  from reassembly [OF laws c ds(1), of PartStreamsMap_new "PeerId [4]"] ds(3,4) obtain outs sm where
    run: "feed mem_lib (streams_map sample_node) (split_ds x) = (Inr (outs, sm) :: (Report, _) result)"
    and em: "emitted ?k outs = [assembled i (split_msgs x)]" by auto
  have "fst y = ?k" if "y \<in> set outs" for y
    using feed_keys [OF run, of "fst y" "snd y"] that by (auto simp: split_ds_def split_msgs_def)
  then have "emitted ?k outs = map snd outs" unfolding emitted_def by (metis (mono_tags, lifting) case_prod_unfold filter_True)
  with em have "map snd outs = [assembled i (split_msgs x)]" by simp
  with \<open>\<And>y. y \<in> set outs \<Longrightarrow> fst y = ?k\<close> have outs: "outs = [(?k, assembled i (split_msgs x))]"
    by (cases outs) auto
  have redb: "redb_reliable (redb mem_lib)" by (simp add: mem_redb_reliable)
  have rounds: "\<forall>(k, pp) \<in> set outs. parts_round pp \<noteq> RNil"
    by (rule feed_rounds [OF laws run]) (use ds(2) in \<open>simp_all add: streams_ok_new\<close>)
  from receive_all_feed [OF mem_store_laws redb run rounds] obtain st' where
    all: "receive_all mem_lib (split_ds x) sample_node = (Inr (map (\<lambda>(k, pp). (k, fst (assemble_value_from_parts mem_lib pp)))
        (filter (\<lambda>(k, pp). accepts mem_lib sample_node pp) outs)), st')"
    by blast
  have "verify_proposal_signature mem_lib sample_node (assembled i (split_msgs x)) = Inr ()"
    by (rule verify_sent [OF _ sample_knows, where i = i and data = "[x]"])
      (simp_all add: assembled_def p i_def split_fin_def std_crypto_laws)
  then have "accepts mem_lib sample_node (assembled i (split_msgs x))"
    by (simp add: accepts_def assembled_def i_def)
  with all show ?thesis
    by (simp add: outs assemble_value_from_parts_def assembled_def p i_def split_parts Let_def List.map_filter_simps)
qed

theorem equivocation_splits_nodes_witness:
  "\<exists>a' b' a'' b'' outs outs2. receive_all mem_lib (split_ds 5) sample_node = (Inr outs, a') \<and>
    receive_all mem_lib (split_ds 6) sample_node = (Inr outs2, b') \<and>
    commit mem_lib first_certificate a' = (Inr (), a'') \<and> commit mem_lib first_certificate b' = (Inr (), b'') \<and>
    fst (State_get_decided_value mem_lib (Height 1) a'') =
      Some \<lparr>dv_value = Value_new mem_lib [5], dv_certificate = first_certificate\<rparr> \<and>
    fst (State_get_decided_value mem_lib (Height 1) b'') =
      Some \<lparr>dv_value = Value_new mem_lib [6], dv_certificate = first_certificate\<rparr>"
proof -
  define v where "v = (\<lambda>x. \<lparr>prv_height = Height 1, prv_round = RSome 0, prv_valid_round = RNil,
      prv_proposer = Address 7, prv_value = Value_new mem_lib [x], prv_validity = Valid\<rparr>)"
  define outs where "outs = (\<lambda>x. [((PeerId [4], sample_sid), v x)])"
  obtain a' b' where a: "receive_all mem_lib (split_ds 5) sample_node = (Inr (outs 5), a')"
    and b: "receive_all mem_lib (split_ds 6) sample_node = (Inr (outs 6), b')"
    using split_received unfolding outs_def v_def by blast
  have ids: "Value_id (prv_value (v 5)) \<noteq> Value_id (prv_value (v 6))"
    by (simp add: v_def Value_id_def Value_new_def std_crypto_def fold_bytes_def)
  have rounds: "\<forall>(k, v) \<in> set (outs 5) \<union> set (outs 6). prv_round v \<noteq> RNil" by (simp add: outs_def v_def)
  have first: "first_for (cert_height first_certificate, cert_round first_certificate) (outs x) = Some (v x)" for x
    by (simp add: outs_def v_def first_certificate_def)
  have r: "cert_round first_certificate \<noteq> RNil" by (simp add: first_certificate_def)
  have h: "hval (current_height sample_node) + 1 < 2 ^ 64" by simp
  have c: "cert_height first_certificate = Height 1" by (simp add: first_certificate_def)
  have d: "prv_value (v x) = Value_new mem_lib [x]" for x by (simp add: v_def)
  from equivocation_splits_nodes [OF sample_node_ready sample_node_ready sample_ledger_empty(1) sample_ledger_empty(1)
      a b rounds first first ids r h h] a b show ?thesis
    unfolding c d by blast
qed

end
