(* ===== verification/Simulation.thy ===== *)
theory Simulation
  imports App
begin

text \<open>
  Two nodes that differ only in how they reach their execution layer. A relation between the states
  behind them that every request preserves, with answers that agree up to the text of an error, is
  preserved by every operation of the engine and every handler of the application, and the nodes
  stay equal: the locale \<open>engine_simulation\<close>.
\<close>

section \<open>Simulation of state monads\<close>

named_theorems sim_intros "introduction rules of the simulation, one for each construct"

text \<open>Results that agree up to the text of an error; a panic has the same message.\<close>

fun same_fault :: "'e fault \<Rightarrow> 'e fault \<Rightarrow> bool" where
  "same_fault (Err _) (Err _) \<longleftrightarrow> True"
| "same_fault (Panic p) (Panic q) \<longleftrightarrow> p = q"
| "same_fault _ _ \<longleftrightarrow> False"

fun same_result :: "('e, 'a) result \<Rightarrow> ('e, 'a) result \<Rightarrow> bool" where
  "same_result (Inr x) (Inr y) \<longleftrightarrow> x = y"
| "same_result (Inl e) (Inl f) \<longleftrightarrow> same_fault e f"
| "same_result _ _ \<longleftrightarrow> False"

lemma same_fault_refl [simp]: "same_fault e e"
  by (cases e) simp_all

lemma same_result_refl [simp]: "same_result r r"
  by (cases r) simp_all

lemma same_result_Inr [simp]: "same_result r (Inr y) \<longleftrightarrow> r = Inr y" "same_result (Inr y) r \<longleftrightarrow> r = Inr y"
  by (cases r; auto)+

definition simulates :: "('v \<Rightarrow> 'w \<Rightarrow> bool) \<Rightarrow> ('v, 'e, 'a) io \<Rightarrow> ('w, 'e, 'a) io \<Rightarrow> bool" where
  "simulates S f g \<longleftrightarrow>
     (\<forall>v w. S v w \<longrightarrow> same_result (fst (f v)) (fst (g w)) \<and> S (snd (f v)) (snd (g w)))"

lemma simulatesD:
  assumes "simulates S f g" and "S v w" and "f v = (r, v')"
  obtains s w' where "g w = (s, w')" and "same_result r s" and "S v' w'"
  using assms by (cases "g w") (force simp: simulates_def)

lemma sim_return [sim_intros]: "simulates S (return_io x) (return_io x)"
  by (simp add: simulates_def)

lemma sim_lift: "same_result r s \<Longrightarrow> simulates S (lift_io r) (lift_io s)"
  by (simp add: simulates_def)

lemma sim_lift_same [sim_intros]: "simulates S (lift_io r) (lift_io r)"
  by (simp add: sim_lift)

lemma sim_pair [sim_intros]: "simulates S (Pair r) (Pair r)"
  by (simp add: simulates_def)

lemma sim_bind [sim_intros]:
  assumes "simulates S f g" and "\<And>x. simulates S (h x) (k x)"
  shows "simulates S (bind_io f h) (bind_io g k)"
  unfolding simulates_def
proof (intro allI impI)
  fix v w
  assume S: "S v w"
  obtain r v' where f: "f v = (r, v')" by fastforce
  obtain s w' where g: "g w = (s, w')" "same_result r s" "S v' w'" by (rule simulatesD [OF assms(1) S f])
  show "same_result (fst (bind_io f h v)) (fst (bind_io g k w)) \<and> S (snd (bind_io f h v)) (snd (bind_io g k w))"
  proof (cases r)
    case (Inl e)
    with g(2) obtain e' where "s = Inl e'" by (cases s) auto
    with Inl f g show ?thesis by simp
  next
    case (Inr x)
    with f g assms(2) [of x] show ?thesis by (simp add: simulates_def)
  qed
qed

lemma sim_bind_lift:
  "(\<And>x. r = Inr x \<Longrightarrow> simulates S (h x) (k x)) \<Longrightarrow> simulates S (bind_io (lift_io r) h) (bind_io (lift_io r) k)"
  by (cases r) (auto simp: simulates_def)

lemma sim_get [sim_intros]:
  assumes "\<And>v w. S v w \<Longrightarrow> simulates S (h v) (k w)"
  shows "simulates S (bind_io get_io h) (bind_io get_io k)"
  using assms by (auto simp: simulates_def)

lemma sim_modify [sim_intros]:
  "(\<And>v w. S v w \<Longrightarrow> S (p v) (q w)) \<Longrightarrow> simulates S (modify_io p) (modify_io q)"
  by (simp add: simulates_def)

section \<open>Worlds that differ in their execution layer\<close>

definition alike :: "('u \<Rightarrow> 'v \<Rightarrow> bool) \<Rightarrow> ('db, 'u) world \<Rightarrow> ('db, 'v) world \<Rightarrow> bool" where
  "alike R v w \<longleftrightarrow> node v = node w \<and> network_open v = network_open w \<and> outputs v = outputs w \<and> R (el v) (el w)"

lemma alikeD:
  "alike R v w \<Longrightarrow> node v = node w" "alike R v w \<Longrightarrow> network_open v = network_open w"
  "alike R v w \<Longrightarrow> outputs v = outputs w" "alike R v w \<Longrightarrow> R (el v) (el w)"
  by (simp_all add: alike_def)

lemma sim_on_node [sim_intros]: "simulates (alike R) (on_node f) (on_node f)"
  by (auto simp: simulates_def alike_def on_node_def split: prod.splits)

lemma sim_read_node [sim_intros]: "simulates (alike R) (read_node f) (read_node f)"
  unfolding read_node_def by (rule sim_on_node)

lemma sim_on_el [sim_intros]:
  fixes R :: "'u \<Rightarrow> 'v \<Rightarrow> bool"
  assumes "simulates R f g"
  shows "simulates (alike R) (on_el f) (on_el g)"
  unfolding simulates_def
proof (intro allI impI)
  fix v :: "('db, 'u) world" and w :: "('db, 'v) world"
  assume "alike R v w"
  with assms show "same_result (fst (on_el f v)) (fst (on_el g w)) \<and> alike R (snd (on_el f v)) (snd (on_el g w))"
    by (cases "f (el v)"; cases "g (el w)") (force simp: simulates_def alike_def on_el_def)
qed

lemma sim_update_node [sim_intros]:
  "simulates (alike R) (modify_io (\<lambda>w. w\<lparr>node := f (node w)\<rparr>)) (modify_io (\<lambda>w. w\<lparr>node := f (node w)\<rparr>))"
  by (rule sim_modify) (simp add: alike_def)

lemma sim_send_reply [sim_intros]: "simulates (alike R) (send_reply x) (send_reply x)"
  unfolding send_reply_def by (rule sim_modify) (simp add: alike_def)

lemma sim_publish [sim_intros]: "simulates (alike R) (publish m) (publish m)"
  by (simp add: simulates_def publish_def) (simp add: alike_def)

lemma sim_publish_all [sim_intros]: "simulates (alike R) (publish_all ms) (publish_all ms)"
  by (induction ms) (auto intro: sim_intros)

lemma sim_start_height [sim_intros]: "simulates (alike R) start_height start_height"
  unfolding start_height_def by (auto intro!: sim_intros simp: alike_def)

section \<open>The application over two execution layers\<close>

text \<open>Two libraries with the same functions but for the transport and the clock.\<close>

definition same_functions :: "('j, 'u) app_lib \<Rightarrow> ('j, 'v) app_lib \<Rightarrow> bool" where
  "same_functions A B \<longleftrightarrow>
     jwt_encode A = jwt_encode B \<and> json_one A = json_one B \<and> json_empty A = json_empty B \<and>
     json_capabilities A = json_capabilities B \<and> json_forkchoice A = json_forkchoice B \<and>
     json_payload_id A = json_payload_id B \<and> json_new_payload A = json_new_payload B \<and>
     json_block_by_number A = json_block_by_number B \<and> from_capabilities A = from_capabilities B \<and>
     from_forkchoice_updated A = from_forkchoice_updated B \<and> from_envelope A = from_envelope B \<and>
     from_payload_status A = from_payload_status B \<and> from_block A = from_block B \<and>
     from_string A = from_string B \<and> show_hash A = show_hash B \<and> show_status A = show_status B \<and>
     show_i64 A = show_i64 B \<and> ssz_encode A = ssz_encode B \<and> ssz_decode A = ssz_decode B \<and>
     block_blob_hashes A = block_blob_hashes B"

text \<open>
  Answers to a request that agree, and leave related states. An answer fails when nothing is read, or
  when it carries an error; the engine treats both alike but for the text.
\<close>

fun failing :: "string + 'j JsonResponseBody \<Rightarrow> bool" where
  "failing (Inl _) \<longleftrightarrow> True"
| "failing (Inr r) \<longleftrightarrow> rs_error r \<noteq> None"

definition agree :: "string + 'j JsonResponseBody \<Rightarrow> string + 'j JsonResponseBody \<Rightarrow> bool" where
  "agree a b \<longleftrightarrow> a = b \<or> failing a \<and> failing b"

definition same_answer ::
  "('u \<Rightarrow> 'v \<Rightarrow> bool) \<Rightarrow> (string + 'j JsonResponseBody) \<times> 'u \<Rightarrow> (string + 'j JsonResponseBody) \<times> 'v \<Rightarrow> bool" where
  "same_answer R a b \<longleftrightarrow> R (snd a) (snd b) \<and> agree (fst a) (fst b)"

lemma truncate_sel [simp]:
  "http_post (engine_lib.truncate E) = http_post E"
  "current_timestamp (engine_lib.truncate E) = current_timestamp E"
  "jwt_encode (engine_lib.truncate E) = jwt_encode E" "json_one (engine_lib.truncate E) = json_one E"
  "json_empty (engine_lib.truncate E) = json_empty E"
  "json_capabilities (engine_lib.truncate E) = json_capabilities E"
  "json_forkchoice (engine_lib.truncate E) = json_forkchoice E"
  "json_payload_id (engine_lib.truncate E) = json_payload_id E"
  "json_new_payload (engine_lib.truncate E) = json_new_payload E"
  "json_block_by_number (engine_lib.truncate E) = json_block_by_number E"
  "from_capabilities (engine_lib.truncate E) = from_capabilities E"
  "from_forkchoice_updated (engine_lib.truncate E) = from_forkchoice_updated E"
  "from_envelope (engine_lib.truncate E) = from_envelope E"
  "from_payload_status (engine_lib.truncate E) = from_payload_status E"
  "from_block (engine_lib.truncate E) = from_block E" "from_string (engine_lib.truncate E) = from_string E"
  "show_hash (engine_lib.truncate E) = show_hash E" "show_status (engine_lib.truncate E) = show_status E"
  "show_i64 (engine_lib.truncate E) = show_i64 E"
  by (simp_all add: engine_lib.truncate_def)

text \<open>What both clients do with the body of an answer: its error is reported, else its result decoded.\<close>

definition read_body ::
  "('j, 'u) engine_lib \<Rightarrow> ('j \<Rightarrow> string + 'd) \<Rightarrow> 'j JsonResponseBody \<Rightarrow> (Report, 'd) result" where
  "read_body E f x = (case rs_error x of Some e \<Rightarrow> fail (server_message E e)
     | None \<Rightarrow> lift_lib LibError (f (rs_result x)))"

lemma rpc_request_reads:
  "EngineRPC_rpc_request E api m params t f =
     bind_io get_io (\<lambda>el.
     bind_io (lift_io (generate_token E (er_auth api) el)) (\<lambda>token.
     bind_io (post_json E (er_url api) t (Some token)
       \<lparr>rq_jsonrpc = ''2.0'', rq_method = m, rq_params = params, rq_id = json_one E\<rparr>) (\<lambda>x. lift_io (read_body E f x))))"
  "EthereumRPC_rpc_request E eth m params t f =
     bind_io (post_json E (eth_url eth) t None
       \<lparr>rq_jsonrpc = ''2.0'', rq_method = m, rq_params = params, rq_id = json_one E\<rparr>) (\<lambda>x. lift_io (read_body E f x))"
proof -
  have read: "(case rs_error x of Some e \<Rightarrow> lift_io (fail (server_message E e))
      | None \<Rightarrow> lift_io (lift_lib LibError (f (rs_result x)))) = lift_io (read_body E f x)" for x
    by (simp add: read_body_def split: option.split)
  show "EngineRPC_rpc_request E api m params t f =
     bind_io get_io (\<lambda>el.
     bind_io (lift_io (generate_token E (er_auth api) el)) (\<lambda>token.
     bind_io (post_json E (er_url api) t (Some token)
       \<lparr>rq_jsonrpc = ''2.0'', rq_method = m, rq_params = params, rq_id = json_one E\<rparr>) (\<lambda>x. lift_io (read_body E f x))))"
    unfolding EngineRPC_rpc_request_def read ..
  show "EthereumRPC_rpc_request E eth m params t f =
     bind_io (post_json E (eth_url eth) t None
       \<lparr>rq_jsonrpc = ''2.0'', rq_method = m, rq_params = params, rq_id = json_one E\<rparr>) (\<lambda>x. lift_io (read_body E f x))"
    unfolding EthereumRPC_rpc_request_def prod.case read ..
qed

locale engine_simulation =
  fixes R :: "'u \<Rightarrow> 'v \<Rightarrow> bool"
    and A :: "('j, 'u) app_lib" and B :: "('j, 'v) app_lib"
    and en em :: Engine
  assumes functions_same: "same_functions A B"
    and clock: "R u v \<Longrightarrow> current_timestamp A u = current_timestamp B v"
    and auth: "er_auth (eng_api en) = er_auth (eng_api em)"
    and api_post: "R u v \<Longrightarrow> jwt_encode A key iat = Inr token \<Longrightarrow> same_answer R (http_post A (er_url (eng_api en)) t (Some token) body u)
      (http_post B (er_url (eng_api em)) t (Some token) body v)"
    and eth_post: "R u v \<Longrightarrow> same_answer R (http_post A (eth_url (eng_eth en)) t None body u)
      (http_post B (eth_url (eng_eth em)) t None body v)"
begin

lemma fields [simp]:
  "jwt_encode A = jwt_encode B" "json_one A = json_one B" "json_empty A = json_empty B"
  "json_capabilities A = json_capabilities B" "json_forkchoice A = json_forkchoice B"
  "json_payload_id A = json_payload_id B" "json_new_payload A = json_new_payload B"
  "json_block_by_number A = json_block_by_number B" "from_capabilities A = from_capabilities B"
  "from_forkchoice_updated A = from_forkchoice_updated B" "from_envelope A = from_envelope B"
  "from_payload_status A = from_payload_status B" "from_block A = from_block B"
  "from_string A = from_string B" "show_hash A = show_hash B" "show_status A = show_status B"
  "show_i64 A = show_i64 B" "ssz_encode A = ssz_encode B" "ssz_decode A = ssz_decode B"
  "block_blob_hashes A = block_blob_hashes B" "er_auth (eng_api en) = er_auth (eng_api em)"
  using functions_same auth by (simp_all add: same_functions_def)

text \<open>The engine uses the library without the fields of the application.\<close>

abbreviation sim_el :: "('u, Report, 'a) io \<Rightarrow> ('v, Report, 'a) io \<Rightarrow> bool" where
  "sim_el \<equiv> simulates R"

text \<open>What both clients do with an answer: an error in it is reported, else its result is decoded.\<close>

lemma sim_post:
  assumes "\<And>u v. R u v \<Longrightarrow> same_answer R (http_post A url t token body u) (http_post B url' t token body v)"
    and "\<And>x. rs_error x = None \<Longrightarrow> h x = k x" and "\<And>x. rs_error x \<noteq> None \<Longrightarrow> \<exists>e. h x = fail e"
    and "\<And>x. rs_error x \<noteq> None \<Longrightarrow> \<exists>e. k x = fail e"
  shows "sim_el (bind_io (post_json (engine_lib.truncate A) url t token body) (\<lambda>x. lift_io (h x)))
    (bind_io (post_json (engine_lib.truncate B) url' t token body) (\<lambda>x. lift_io (k x)))"
  unfolding simulates_def
proof (intro allI impI)
  fix u v
  assume "R u v"
  obtain a u' where a: "http_post A url t token body u = (a, u')" by fastforce
  obtain b v' where b: "http_post B url' t token body v = (b, v')" by fastforce
  from assms(1) [OF \<open>R u v\<close>] a b have R: "R u' v'" and ab: "agree a b" by (simp_all add: same_answer_def)
  have err: "\<exists>e. lift_lib LibError x = Inl (Err e) \<or> (\<exists>y. x = Inr y \<and> h y = Inl (Err e))" if "failing x" for x
    using that assms(3) by (cases x) auto
  have err': "\<exists>e. lift_lib LibError x = Inl (Err e) \<or> (\<exists>y. x = Inr y \<and> k y = Inl (Err e))" if "failing x" for x
    using that assms(4) by (cases x) auto
  show "same_result (fst (bind_io (post_json (engine_lib.truncate A) url t token body) (\<lambda>x. lift_io (h x)) u))
      (fst (bind_io (post_json (engine_lib.truncate B) url' t token body) (\<lambda>x. lift_io (k x)) v)) \<and>
    R (snd (bind_io (post_json (engine_lib.truncate A) url t token body) (\<lambda>x. lift_io (h x)) u))
      (snd (bind_io (post_json (engine_lib.truncate B) url' t token body) (\<lambda>x. lift_io (k x)) v))"
  proof (cases "failing a \<and> failing b")
    case True
    with err [of a] err' [of b] a b R show ?thesis
      by (cases a; cases b) (auto simp: post_json_def bind_io_def)
  next
    case False
    with ab have "a = b" "\<not> failing a" by (auto simp: agree_def)
    with a b R assms(2) show ?thesis by (cases a) (auto simp: post_json_def bind_io_def)
  qed
qed

lemma sim_read_body:
  assumes "\<And>u v. R u v \<Longrightarrow> same_answer R (http_post A url t token body u) (http_post B url' t token body v)"
  shows "sim_el (bind_io (post_json (engine_lib.truncate A) url t token body) (\<lambda>x. lift_io (read_body (engine_lib.truncate A) f x)))
    (bind_io (post_json (engine_lib.truncate B) url' t token body) (\<lambda>x. lift_io (read_body (engine_lib.truncate B) f x)))"
  by (rule sim_post [OF assms]) (auto simp: read_body_def server_message_def)

lemma sim_api_request:
  "sim_el (EngineRPC_rpc_request (engine_lib.truncate A) (eng_api en) m params t f)
     (EngineRPC_rpc_request (engine_lib.truncate B) (eng_api em) m params t f)"
  unfolding rpc_request_reads
  by (rule sim_get, simp only: generate_token_def generate_token_with_claims_def generate_claims_at_timestamp_def
      truncate_sel fields clock)
    (auto intro!: sim_bind_lift sim_read_body api_post split: sum.splits simp: lift_lib_def)

lemma sim_eth_request:
  "sim_el (EthereumRPC_rpc_request (engine_lib.truncate A) (eng_eth en) m params t f)
     (EthereumRPC_rpc_request (engine_lib.truncate B) (eng_eth em) m params t f)"
  unfolding rpc_request_reads by (auto intro!: sim_read_body eth_post)

lemma sim_engine [sim_intros]:
  "sim_el (check_capabilities (engine_lib.truncate A) en) (check_capabilities (engine_lib.truncate B) em)"
  "sim_el (get_block_by_number (engine_lib.truncate A) (eng_eth en) number) (get_block_by_number (engine_lib.truncate B) (eng_eth em) number)"
  "sim_el (set_latest_forkchoice_state (engine_lib.truncate A) en h) (set_latest_forkchoice_state (engine_lib.truncate B) em h)"
  "sim_el (generate_block (engine_lib.truncate A) en latest) (generate_block (engine_lib.truncate B) em latest)"
  "sim_el (notify_new_block (engine_lib.truncate A) en p hashes) (notify_new_block (engine_lib.truncate B) em p hashes)"
  unfolding check_capabilities_def exchange_capabilities_def get_block_by_number_def set_latest_forkchoice_state_def
    generate_block_def forkchoice_updated_def get_payload_def notify_new_block_def new_payload_def Let_def
  by (auto intro!: sim_intros sim_api_request sim_eth_request split: PayloadStatusEnum.split)

lemma sim_decided: "simulates (alike R) (decided L A en c) (decided L B em c)"
  unfolding decided_def count_block_def
  by (auto intro!: sim_intros split: PayloadStatusEnum.split simp: alike_def)

lemma sim_handle: "simulates (alike R) (handle L A en m) (handle L B em m)"
  by (cases m) (auto intro!: sim_decided sim_intros simp: consensus_ready_def started_round_def get_value_def
    received_part_def process_synced_value_def get_decided_value_def Let_def alike_def)

lemma sim_run: "simulates (alike R) (run_app L A en ms) (run_app L B em ms)"
  by (induction ms) (auto intro!: sim_handle sim_intros)

end

end
