(* ===== verification/Behind_Proxy.thy ===== *)
theory Behind_Proxy
  imports Simulation Proxy_Correct
begin

text \<open>
  A node and its execution layer with a proxy between them: the requests of \<open>engine_rpc.rs\<close> and
  \<open>ethereum_rpc.rs\<close> go to the upstream directly, or those to the proxy's address go through the router
  of \<open>proxy/src/server.rs\<close> or that of \<open>lib.rs\<close>, which \<open>main.rs\<close> serves. The locale \<open>relay\<close> states what
  makes a proxy invisible to the node, and both routers are instances of it.
\<close>

section \<open>The client\<close>

text \<open>The text of a request, and the response that a text spells: derived by \<open>serde\<close>.\<close>

record 'j client_lib =
  request_text :: "'j JsonRequestBody \<Rightarrow> bytes"
  response_of_text :: "bytes \<Rightarrow> 'j JsonResponseBody option"

definition bearer :: "string \<Rightarrow> bytes" where
  "bearer t = bytes_of_string (''Bearer '' @ t)"

abbreviation json_type :: "string \<times> bytes" where
  "json_type \<equiv> (''content-type'', bytes_of_string ''application/json'')"

text \<open>The headers that the client sets; those that the HTTP client adds by itself belong to \<open>http_send\<close>.\<close>

definition client_headers :: "string option \<Rightarrow> (string \<times> bytes) list" where
  "client_headers token = (''content-type'', bytes_of_string ''application/json'') #
     (case token of None \<Rightarrow> [] | Some t \<Rightarrow> [(''authorization'', bearer t)])"

text \<open>The client does not send a request with a header value that HTTP does not allow.\<close>

definition sendable :: "('u, 'y) proxy_lib_scheme \<Rightarrow> string option \<Rightarrow> bool" where
  "sendable L token = (case token of None \<Rightarrow> True | Some t \<Rightarrow> header_value_ok L (bearer t))"

text \<open>\<open>error_for_status\<close> turns the codes from 400 to 599 into errors; then the body is read and decoded.\<close>

definition read_answer :: "'j client_lib \<Rightarrow> (nat \<times> Body) option \<Rightarrow> string + 'j JsonResponseBody" where
  "read_answer C a = (case a of
     None \<Rightarrow> Inl ''error sending request''
   | Some (code, body) \<Rightarrow>
       if 400 \<le> code \<and> code < 600 then Inl ''HTTP status error''
       else (case body of None \<Rightarrow> Inl ''error reading a body''
         | Some t \<Rightarrow> (case response_of_text C t of None \<Rightarrow> Inl ''error decoding response body'' | Some r \<Rightarrow> Inr r)))"

section \<open>Two transports\<close>

definition direct_post ::
  "'j client_lib \<Rightarrow> ('u, 'y) proxy_lib_scheme \<Rightarrow> string \<Rightarrow> nat \<Rightarrow> string option \<Rightarrow> 'j JsonRequestBody \<Rightarrow> 'u \<Rightarrow>
    (string + 'j JsonResponseBody) \<times> 'u" where
  "direct_post C L url t token body u =
     (if sendable L token then
        (case http_send L url (client_headers token) (request_text C body) u of (a, u') \<Rightarrow> (read_answer C a, u'))
      else (Inl ''builder error'', u))"

definition client_request :: "'j client_lib \<Rightarrow> string \<Rightarrow> string option \<Rightarrow> 'j JsonRequestBody \<Rightarrow> Request" where
  "client_request C p token body =
     \<lparr>verb = ''POST'', path = p, req_headers = client_headers token, req_body = Some (request_text C body)\<rparr>"

text \<open>A service that panics answers nothing: its connection is closed.\<close>

definition answer_of :: "('e, Response) result \<Rightarrow> (nat \<times> Body) option" where
  "answer_of r = (case r of Inl _ \<Rightarrow> None | Inr x \<Rightarrow> Some (status_code x, resp_body x))"

definition proxied_post ::
  "'j client_lib \<Rightarrow> ('u, 'y) proxy_lib_scheme \<Rightarrow> string \<Rightarrow> string \<Rightarrow> (('r, 'u, 'x) proxy_world_scheme, 'e) service \<Rightarrow>
    string \<Rightarrow> nat \<Rightarrow> string option \<Rightarrow> 'j JsonRequestBody \<Rightarrow> ('r, 'u, 'x) proxy_world_scheme \<Rightarrow>
    (string + 'j JsonResponseBody) \<times> ('r, 'u, 'x) proxy_world_scheme" where
  "proxied_post C L proxy_url p svc url t token body w =
     (if url = proxy_url \<and> sendable L token then
        (case svc (client_request C p token body) w of (r, w') \<Rightarrow> (read_answer C (answer_of r), w'))
      else (case direct_post C L url t token body (upstream w) of (a, u) \<Rightarrow> (a, w\<lparr>upstream := u\<rparr>)))"

definition with_transport ::
  "('j, 'u) app_lib \<Rightarrow>
    (string \<Rightarrow> nat \<Rightarrow> string option \<Rightarrow> 'j JsonRequestBody \<Rightarrow> 'v \<Rightarrow> (string + 'j JsonResponseBody) \<times> 'v) \<Rightarrow>
    ('v \<Rightarrow> 'u) \<Rightarrow> ('j, 'v) app_lib" where
  "with_transport A post view = \<lparr>http_post = post, current_timestamp = (\<lambda>v. current_timestamp A (view v)),
     jwt_encode = jwt_encode A, json_one = json_one A, json_empty = json_empty A,
     json_capabilities = json_capabilities A, json_forkchoice = json_forkchoice A,
     json_payload_id = json_payload_id A, json_new_payload = json_new_payload A,
     json_block_by_number = json_block_by_number A, from_capabilities = from_capabilities A,
     from_forkchoice_updated = from_forkchoice_updated A, from_envelope = from_envelope A,
     from_payload_status = from_payload_status A, from_block = from_block A, from_string = from_string A,
     show_hash = show_hash A, show_status = show_status A, show_i64 = show_i64 A,
     ssz_encode = ssz_encode A, ssz_decode = ssz_decode A, block_blob_hashes = block_blob_hashes A\<rparr>"

text \<open>The engine with its Engine API at an address.\<close>

definition at_url :: "string \<Rightarrow> Engine \<Rightarrow> Engine" where
  "at_url url en = en\<lparr>eng_api := (eng_api en)\<lparr>er_url := url\<rparr>\<rparr>"

text \<open>The router of \<open>lib.rs\<close>.\<close>

definition EngineApiProxy_router ::
  "('u, 'y) proxy_lib_scheme \<Rightarrow> EngineApiProxy \<Rightarrow> (('r, 'u, 'x) proxy_world_scheme, 'e) service" where
  "EngineApiProxy_router L proxy req =
     (if path req = ''/'' \<and> verb req = ''POST'' then handle_engine_api L proxy req else return_io (other_route L req))"

section \<open>A proxy that relays\<close>

locale relay =
  fixes C :: "'j client_lib" and L :: "('u, 'y) proxy_lib_scheme"
    and target p :: string
    and svc :: "(('r, 'u, 'x) proxy_world_scheme, 'e) service"
    and inv :: "('r, 'u, 'x) proxy_world_scheme \<Rightarrow> bool"
  assumes relays: "inv w \<Longrightarrow> sendable L token \<Longrightarrow>
      http_send L target (client_headers token) (request_text C body) (upstream w) = (a, u) \<Longrightarrow>
      \<exists>r w'. svc (client_request C p token body) w = (r, w') \<and>
        agree (read_answer C a) (read_answer C (answer_of r)) \<and> upstream w' = u \<and> inv w'"
    and inv_upstream: "inv (w\<lparr>upstream := u\<rparr>) \<longleftrightarrow> inv w"
begin

lemma simulation:
  "engine_simulation (\<lambda>u w. inv w \<and> upstream w = u \<and> eth_url (eng_eth en) \<noteq> proxy_url)
     (with_transport A (direct_post C L) id) (with_transport A (proxied_post C L proxy_url p svc) upstream)
     (at_url target en) (at_url proxy_url en)"
proof
  fix u w t token body
  assume w: "inv w \<and> upstream w = u \<and> eth_url (eng_eth en) \<noteq> proxy_url"
  show "same_answer (\<lambda>u w. inv w \<and> upstream w = u \<and> eth_url (eng_eth en) \<noteq> proxy_url)
      (http_post (with_transport A (direct_post C L) id) (er_url (eng_api (at_url target en))) t (Some token) body u)
      (http_post (with_transport A (proxied_post C L proxy_url p svc) upstream)
        (er_url (eng_api (at_url proxy_url en))) t (Some token) body w)"
  proof (cases "sendable L (Some token)")
    case True
    obtain a u' where a: "http_send L target (client_headers (Some token)) (request_text C body) (upstream w) = (a, u')"
      by fastforce
    from relays [OF _ True a] w obtain r w' where "svc (client_request C p (Some token) body) w = (r, w')"
      "agree (read_answer C a) (read_answer C (answer_of r))" "upstream w' = u'" "inv w'" by blast
    with a w True show ?thesis
      by (auto simp: same_answer_def with_transport_def at_url_def direct_post_def proxied_post_def)
  next
    case False
    with w show ?thesis
      by (simp add: same_answer_def with_transport_def at_url_def direct_post_def proxied_post_def agree_def inv_upstream)
  qed
next
  fix u w t body
  assume w: "inv w \<and> upstream w = u \<and> eth_url (eng_eth en) \<noteq> proxy_url"
  then show "same_answer (\<lambda>u w. inv w \<and> upstream w = u \<and> eth_url (eng_eth en) \<noteq> proxy_url)
      (http_post (with_transport A (direct_post C L) id) (eth_url (eng_eth (at_url target en))) t None body u)
      (http_post (with_transport A (proxied_post C L proxy_url p svc) upstream)
        (eth_url (eng_eth (at_url proxy_url en))) t None body w)"
    by (auto simp: same_answer_def with_transport_def at_url_def proxied_post_def agree_def inv_upstream
        split: prod.splits)
qed (simp_all add: same_functions_def with_transport_def at_url_def)

end

section \<open>The libraries between them\<close>

text \<open>
  \<open>serde\<close> writes a request as an object with its method, in UTF-8, and reads no response without an
  error from an object whose member \<open>error\<close> is neither missing nor null.
\<close>

definition client_laws :: "'j client_lib \<Rightarrow> ('u, 'y) proxy_lib_scheme \<Rightarrow> bool" where
  "client_laws C L \<longleftrightarrow>
     (\<forall>b. map_option method_of (json_parse L (request_text C b)) = Some (rq_method b)) \<and>
     (\<forall>b. utf8_valid (request_text C b)) \<and>
     (\<forall>t v r. json_parse L t = Some v \<longrightarrow> json_get ''error'' v \<notin> {None, Some JNull} \<longrightarrow>
        response_of_text C t = Some r \<longrightarrow> rs_error r \<noteq> None)"

text \<open>A status code has three digits, and a content type that is given twice with the same value is that
  type: of a header that must not be repeated a recipient takes the last.\<close>

definition upstream_laws :: "('u, 'y) proxy_lib_scheme \<Rightarrow> bool" where
  "upstream_laws L \<longleftrightarrow>
     (\<forall>url hs b u code x. fst (http_send L url hs b u) = Some (code, x) \<longrightarrow> 100 \<le> code \<and> code < 1000) \<and>
     (\<forall>url hs b u. http_send L url (json_type # json_type # hs) b u = http_send L url (json_type # hs) b u)"

text \<open>The CORS layer answers no POST request itself and changes neither status nor body.\<close>

definition cors_laws :: "('u, 'y) proxy_lib_scheme \<Rightarrow> bool" where
  "cors_laws L \<longleftrightarrow> (\<forall>q. verb q = ''POST'' \<longrightarrow> cors_preflight L q = None) \<and>
     (\<forall>q r. status_code (cors_headers L q r) = status_code r \<and> resp_body (cors_headers L q r) = resp_body r)"

lemma client_lawsD:
  assumes "client_laws C L"
  shows "map_option method_of (json_parse L (request_text C b)) = Some (rq_method b)"
    and "utf8_valid (request_text C b)"
    and "json_parse L t = Some v \<Longrightarrow> json_get ''error'' v = Some e \<Longrightarrow> e \<noteq> JNull \<Longrightarrow>
      response_of_text C t = Some r \<Longrightarrow> rs_error r \<noteq> None"
  using assms unfolding client_laws_def by auto

lemma upstream_lawsD:
  assumes "upstream_laws L"
  shows "fst (http_send L url hs b u) = Some (code, x) \<Longrightarrow> 100 \<le> code \<and> code < 1000"
    and "http_send L url (json_type # json_type # hs) b u = http_send L url (json_type # hs) b u"
  using assms unfolding upstream_laws_def by - (fast, blast)

lemma cors_lawsD:
  assumes "cors_laws L"
  shows "verb q = ''POST'' \<Longrightarrow> cors_preflight L q = None"
    and "status_code (cors_headers L q r) = status_code r" and "resp_body (cors_headers L q r) = resp_body r"
  using assms by (simp_all add: cors_laws_def)

text \<open>The server adds the content type to the headers of the client, which hold it already, and keeps the
  others.\<close>

lemma forwarded_client_headers:
  assumes "sendable L token"
  shows "forwarded_headers L (client_headers token) \<in> {json_type # client_headers token, client_headers token}"
  using assms
  by (cases token) (simp_all add: forwarded_headers_def client_headers_def sendable_def should_forward_header_def
      to_lowercase_def ascii_lower_def)

lemma same_answer_forwarded:
  assumes "upstream_laws L" and "sendable L token"
  shows "http_send L url (forwarded_headers L (client_headers token)) b u = http_send L url (client_headers token) b u"
  using forwarded_client_headers [OF assms(2)] upstream_lawsD(2) [OF assms(1)] by (auto simp: client_headers_def)

lemma read_answer_relayed:
  assumes "\<And>code x. a = Some (code, x) \<Longrightarrow> 100 \<le> code \<and> code < 1000"
  shows "agree (read_answer C a) (read_answer C (Some (status_code (relayed L a), resp_body (relayed L a))))"
proof (cases a)
  case None
  then show ?thesis by (simp add: read_answer_def agree_def create_error_response_def json_response_def)
next
  case (Some x)
  with assms show ?thesis
    by (cases x; cases "snd x") (auto simp: read_answer_def agree_def create_error_response_def json_response_def)
qed

section \<open>The server of \<open>server.rs\<close>, its fault injection off\<close>

lemma layer_off:
  assumes "\<not> fic_enabled (config (injector w))" and "req_body req = Some b"
  shows "FaultInjectionService_call L h inner req w = inner req w"
proof -
  have req: "req\<lparr>req_body := Some b\<rparr> = req" using assms(2) by simp
  from assms show ?thesis
    by (auto simp: req FaultInjectionService_call_def bind_io_def inject_disabled split: sum.split option.split)
qed

lemma handlers_off:
  assumes "\<not> fic_enabled (config (injector w))" and "req_body req = Some b"
    and "json_parse L b = Some v"
    and "http_send L (pc_upstream_url cfg) (forwarded_headers L (req_headers req)) b (upstream w) = (a, u)"
  shows "\<exists>w'. (json_rpc_handler L cfg req w :: ('e, Response) result \<times> _) = (Inr (relayed L a), w') \<and>
      upstream w' = u \<and> injector w' = injector w"
    and "\<exists>w'. (engine_api_handler L cfg req w :: ('e, Response) result \<times> _) = (Inr (relayed L a), w') \<and>
      upstream w' = u \<and> injector w' = injector w"
proof -
  from forward_relays [OF assms(4)] obtain r where r:
    "(forward_request L cfg b (req_headers req) w :: ('e, _) result \<times> _) = (Inr r, w\<lparr>upstream := u\<rparr>)"
    "(case r of Inl x \<Rightarrow> x | Inr x \<Rightarrow> x) = relayed L a" by blast
  with assms show "\<exists>w'. (json_rpc_handler L cfg req w :: ('e, Response) result \<times> _) = (Inr (relayed L a), w') \<and>
      upstream w' = u \<and> injector w' = injector w"
    by (cases r) (auto simp: json_rpc_handler_def extract_body_def bind_io_def inject_disabled Let_def
        increment_success_def increment_method_counter_def increment_error_def increment_def)
  let ?m = "method_of v"
  obtain w1 where w1: "(increment_success ?m w :: ('e, unit) result \<times> _) = (Inr (), w1)" "upstream w1 = upstream w"
    "injector w1 = injector w"
    by (auto simp: increment_success_def increment_method_counter_def increment_def bind_io_def)
  have "http_send L (pc_upstream_url cfg) (forwarded_headers L (req_headers req)) b (upstream w1) = (a, u)"
    using assms(4) w1(2) by simp
  from forward_relays [OF this] obtain r1 where
    "(forward_request L cfg b (req_headers req) w1 :: ('e, _) result \<times> _) = (Inr r1, w1\<lparr>upstream := u\<rparr>)"
    "(case r1 of Inl x \<Rightarrow> x | Inr x \<Rightarrow> x) = relayed L a" by blast
  with assms w1 show "\<exists>w'. (engine_api_handler L cfg req w :: ('e, Response) result \<times> _) = (Inr (relayed L a), w') \<and>
      upstream w' = u \<and> injector w' = injector w"
    by (cases r1) (auto simp: engine_api_handler_def extract_body_def bind_io_def Let_def
        increment_error_def increment_def)
qed

definition server_relays ::
  "'j client_lib \<Rightarrow> ('u, 'y) proxy_lib_scheme \<Rightarrow> string \<Rightarrow> ('r, 'u, 'x) proxy_world_scheme \<Rightarrow> bool" where
  "server_relays C L p w \<longleftrightarrow> client_laws C L \<and> upstream_laws L \<and> cors_laws L \<and> p \<in> {''/'', ''/engine''} \<and>
     \<not> fic_enabled (config (injector w))"

interpretation server: relay C L "pc_upstream_url cfg" p
  "ProxyServer_router L cfg :: (('r, 'u, 'x) proxy_world_scheme, 'e) service" "server_relays C L p"
proof
  fix w token body a u
  let ?q = "client_request C p token body"
  assume w: "server_relays C L p w" and token: "sendable L token"
    and a: "http_send L (pc_upstream_url cfg) (client_headers token) (request_text C body) (upstream w) = (a, u)"
  from w have client_ok: "client_laws C L" and upstream_ok: "upstream_laws L" and cors_ok: "cors_laws L"
    and path: "p = ''/'' \<or> p = ''/engine''" and off: "\<not> fic_enabled (config (injector w))"
    by (auto simp: server_relays_def)
  have "map_option method_of (json_parse L (request_text C body)) = Some (rq_method body)"
    by (rule client_lawsD(1) [OF client_ok])
  then obtain v where v: "json_parse L (request_text C body) = Some v" by blast
  from a have sent: "http_send L (pc_upstream_url cfg) (forwarded_headers L (req_headers ?q)) (request_text C body) (upstream w) = (a, u)"
    by (simp add: client_request_def same_answer_forwarded [OF upstream_ok token])
  have body: "req_body ?q = Some (request_text C body)" "verb ?q = ''POST''" "path ?q = p" by (simp_all add: client_request_def)
  note cors = cors_lawsD [OF cors_ok]
  have codes: "100 \<le> code \<and> code < 1000" if "a = Some (code, x)" for code x
    using upstream_lawsD(1) [OF upstream_ok] a that by (metis fst_conv)
  note h = handlers_off [OF off body(1) v sent]
  have "\<exists>w'. (ProxyServer_routes L cfg ?q w :: ('e, Response) result \<times> _) = (Inr (relayed L a), w') \<and>
      upstream w' = u \<and> injector w' = injector w"
    using path h [where 'e = 'e] body by (auto simp: ProxyServer_routes_def)
  then obtain w' where routed: "(ProxyServer_routes L cfg ?q w :: ('e, Response) result \<times> _) = (Inr (relayed L a), w')"
    "upstream w' = u" "injector w' = injector w" by blast
  have "(ProxyServer_router L cfg ?q w :: ('e, Response) result \<times> _) = (Inr (cors_headers L ?q (relayed L a)), w')"
    by (simp add: ProxyServer_router_def cors_layer_def bind_io_def cors(1) [OF body(2)] layer_off [OF off body(1)] routed)
  moreover have "agree (read_answer C a) (read_answer C (answer_of (Inr (cors_headers L ?q (relayed L a)) :: ('e, Response) result)))"
    using read_answer_relayed [OF codes] by (simp add: answer_of_def cors(2,3))
  moreover have "server_relays C L p w'" using w routed(3) by (simp add: server_relays_def)
  ultimately show "\<exists>r w'. (ProxyServer_router L cfg ?q w :: ('e, Response) result \<times> _) = (r, w') \<and>
      agree (read_answer C a) (read_answer C (answer_of r)) \<and> upstream w' = u \<and> server_relays C L p w'"
    using routed(2) by blast
qed (simp add: server_relays_def)

section \<open>The proxy of \<open>lib.rs\<close>\<close>

text \<open>An upstream that does not look at headers, the token among them, and answers in UTF-8.\<close>

definition open_upstream :: "('u, 'y) proxy_lib_scheme \<Rightarrow> bool" where
  "open_upstream L \<longleftrightarrow> (\<forall>url hs hs' b u. http_send L url hs b u = http_send L url hs' b u) \<and>
     (\<forall>url hs b u code x. fst (http_send L url hs b u) = Some (code, Some x) \<longrightarrow> utf8_valid x) \<and>
     (\<forall>u x. utf8_valid x \<longrightarrow> response_text L u x = x)"

lemma open_upstreamD:
  assumes "open_upstream L"
  shows "http_send L url hs b u = http_send L url hs' b u"
    and "fst (http_send L url hs b u) = Some (code, Some x) \<Longrightarrow> response_text L u' x = x"
  using assms unfolding open_upstream_def by - (fast, blast)

text \<open>An error of the proxy is an answer that fails.\<close>

lemma failing_error:
  assumes "client_laws C L" and "json_laws L" and "in_i64 c" and "utf8_valid (bytes_of_string m)"
  shows "failing (read_answer C (answer_of (Inr (lib_create_error_response L c m))))"
proof -
  define v where "v = json_object [(''jsonrpc'', JString ''2.0''),
    (''error'', json_object [(''code'', JInt c), (''message'', JString m)]), (''id'', JNull)]"
  have ascii: "utf8_valid (bytes_of_string s)"
    if "s \<in> {''jsonrpc'', ''2.0'', ''error'', ''code'', ''message'', ''id''}" for s
    using that by (intro utf8_valid_ascii) (auto simp: bytes_of_string_def)
  have "json_fits 126 (json_object [(''code'', JInt c), (''message'', JString m)])"
    using json_fits_object [of "[(''code'', JInt c), (''message'', JString m)]" 125] assms(3,4) ascii
    by (simp add: in_i64_def)
  then have "json_fits 127 v" unfolding v_def
    using json_fits_object [of "[(''jsonrpc'', JString ''2.0''), (''error'', E), (''id'', JNull)]" 126 for E] ascii by simp
  from json_lawsD [OF assms(2) this] have v: "json_parse L (json_text L v) = Some v" .
  have err: "json_get ''error'' v = Some (json_object [(''code'', JInt c), (''message'', JString m)])"
    by (simp add: v_def json_object_def)
  have "rs_error r \<noteq> None" if "response_of_text C (json_text L v) = Some r" for r
    using client_lawsD(3) [OF assms(1) v err _ that] by (simp add: json_object_def)
  then show ?thesis
    by (simp add: read_answer_def answer_of_def lib_create_error_response_def json_response_def
        v_def [symmetric] split: option.split)
qed

lemma internal_error_fails:
  assumes "client_laws C L" and "json_laws L"
  shows "failing (read_answer C (answer_of (Inr (lib_create_error_response L (-32000) ''Internal error''))))"
proof (rule failing_error [OF assms])
  show "utf8_valid (bytes_of_string ''Internal error'')" by (rule utf8_valid_ascii) (simp add: bytes_of_string_def)
qed (simp add: in_i64_def)

lemma shipped_forward:
  assumes "http_send L url hs b (upstream w) = (a, u)" and "hs = [(''content-type'', bytes_of_string ''application/json'')]"
  shows "lib_forward_request L url b w =
    (Inr (case a of Some (code, Some x) \<Rightarrow> Some (json_response (case status_from_u16 code of None \<Rightarrow> 500 | Some c \<Rightarrow> c)
        (response_text L u x)) | _ \<Rightarrow> None), w\<lparr>upstream := u\<rparr>)"
  using assms by (auto simp: lib_forward_request_def send_def bind_io_def split: option.split)

lemma shipped_call:
  assumes "client_laws C L"
  shows "EngineApiProxy_router L proxy (client_request C ''/'' token body) =
    bind_io (should_inject_fault (default_hash L) (rq_method body)) (\<lambda>fault.
      case fault of Some response \<Rightarrow> return_io response
      | None \<Rightarrow> bind_io (lib_forward_request L (target_url proxy) (request_text C body)) (\<lambda>r.
          case r of Some response \<Rightarrow> return_io response
          | None \<Rightarrow> return_io (lib_create_error_response L (-32000) ''Internal error'')))"
proof -
  have m: "extract_method L (request_text C body) = Some (rq_method body)"
    using client_lawsD(1) [OF assms] by (simp only: extract_method_def)
  show ?thesis
    by (simp add: EngineApiProxy_router_def handle_engine_api_def client_request_def m client_lawsD(2) [OF assms] Let_def
        fun_eq_iff)
qed

definition shipped_relays ::
  "'j client_lib \<Rightarrow> ('u, 'y) proxy_lib_scheme \<Rightarrow> ('r, 'u, 'x) proxy_world_scheme \<Rightarrow> bool" where
  "shipped_relays C L w \<longleftrightarrow> client_laws C L \<and> json_laws L \<and> upstream_laws L \<and> open_upstream L \<and>
     \<not> fic_enabled (config (injector w))"

interpretation shipped: relay C L "target_url proxy" "''/''"
  "EngineApiProxy_router L proxy :: (('r, 'u, 'x) proxy_world_scheme, 'e) service" "shipped_relays C L"
proof
  fix w token body a u
  assume w: "shipped_relays C L w"
    and sent: "http_send L (target_url proxy) (client_headers token) (request_text C body) (upstream w) = (a, u)"
  from w have laws: "client_laws C L" "json_laws L" "upstream_laws L" "open_upstream L"
    and off: "\<not> fic_enabled (config (injector w))" by (simp_all add: shipped_relays_def)
  let ?hs = "[(''content-type'', bytes_of_string ''application/json'')]"
  have a: "http_send L (target_url proxy) ?hs (request_text C body) (upstream w) = (a, u)"
    using open_upstreamD(1) [OF laws(4)] sent by metis
  have codes: "100 \<le> code \<and> code < 1000" if "a = Some (code, x)" for code x
    using upstream_lawsD(1) [OF laws(3)] a that by (metis fst_conv)
  have plain: "response_text L u x = x" if "a = Some (code, Some x)" for code x
    using open_upstreamD(2) [OF laws(4)] a that by (metis fst_conv)
  let ?r = "case a of Some (code, Some x) \<Rightarrow> json_response code x
    | _ \<Rightarrow> lib_create_error_response L (-32000) ''Internal error''"
  have "(EngineApiProxy_router L proxy (client_request C ''/'' token body) w :: ('e, Response) result \<times> _) =
      (Inr ?r, w\<lparr>upstream := u\<rparr>)"
    using codes plain
    by (auto simp: shipped_call [OF laws(1)] bind_io_def inject_disabled off shipped_forward [OF a] status_from_u16_def
        split: option.split)
  moreover have "agree (read_answer C a) (read_answer C (answer_of (Inr ?r :: ('e, Response) result)))"
    using internal_error_fails [OF laws(1,2)]
    by (auto simp: agree_def read_answer_def answer_of_def json_response_def split: option.split)
  ultimately show "\<exists>r w'. (EngineApiProxy_router L proxy (client_request C ''/'' token body) w :: ('e, Response) result \<times> _) = (r, w') \<and>
      agree (read_answer C a) (read_answer C (answer_of r)) \<and> upstream w' = u \<and> shipped_relays C L w'"
    using w by (fastforce simp: shipped_relays_def)
qed (simp add: shipped_relays_def)

end
