(* ===== verification/Node_Proxy.thy ===== *)
theory Node_Proxy
  imports Behind_Proxy
begin

text \<open>
  What a proxy means for a whole node: with the fault injection off the server of \<open>server.rs\<close> cannot be
  noticed, while the proxy of \<open>lib.rs\<close>, the one that is shipped as a program, drops the token of every
  request, so a node behind it starts only where the execution layer asks for none.
\<close>

section \<open>Invisible proxies\<close>

text \<open>A node with its execution layer behind a proxy.\<close>

definition behind :: "('r, 'u) proxy_world \<Rightarrow> ('db, 'u) world \<Rightarrow> ('db, ('r, 'u) proxy_world) world" where
  "behind pw w = \<lparr>node = node w, el = pw\<lparr>upstream := el w\<rparr>, network_open = network_open w, outputs = outputs w\<rparr>"

lemma unnoticed:
  assumes "simulates (alike (\<lambda>u v. I v \<and> upstream v = u \<and> Q)) f g"
    and "alike (\<lambda>u v. I v \<and> upstream v = u \<and> Q) w (behind pw w)" and "f w = (r, w')"
  shows "\<exists>r2 w2. g (behind pw w) = (r2, w2) \<and>
    same_result r r2 \<and> node w2 = node w' \<and> outputs w2 = outputs w' \<and> upstream (el w2) = el w'"
  by (rule simulatesD [OF assms]) (auto simp: alike_def)

text \<open>C7: a node does not notice a proxy whose fault injection is off. Run on the same messages, a node that talks
  to its execution layer through the server, on either of its routes, ends like one that talks to it directly:
  same result but for the text of an error, same state and store, same answers and published messages, and
  the execution layer in the same state.\<close>

theorem node_behind_server:
  assumes "client_laws C L" and "upstream_laws L" and "cors_laws L" and "p = ''/'' \<or> p = ''/engine''"
    and "\<not> fic_enabled (config (injector pw))" and "eth_url (eng_eth en) \<noteq> proxy_url"
    and "run_app S (with_transport A (direct_post C L) id) (at_url (pc_upstream_url cfg) en) msgs w = (r, w')"
  shows "\<exists>r2 w2. run_app S (with_transport A
        (proxied_post C L proxy_url p (ProxyServer_router L cfg :: (_, 'e) service)) upstream)
      (at_url proxy_url en) msgs (behind pw w) = (r2, w2) \<and>
    same_result r r2 \<and> node w2 = node w' \<and> outputs w2 = outputs w' \<and> upstream (el w2) = el w'"
proof -
  let ?R = "\<lambda>u v. server_relays C L p v \<and> upstream v = u \<and> eth_url (eng_eth en) \<noteq> proxy_url"
  have alike: "alike ?R w (behind pw w)"
    using assms(1-6) by (auto simp: alike_def behind_def server_relays_def)
  show ?thesis
    by (rule unnoticed [OF engine_simulation.sim_run [OF server.simulation] alike assms(7)])
qed

text \<open>The same for the proxy of \<open>lib.rs\<close>, where the execution layer asks for no token.\<close>

lemma node_behind_shipped:
  assumes "client_laws C L" and "json_laws L" and "upstream_laws L" and "open_upstream L"
    and "\<not> fic_enabled (config (injector pw))" and "eth_url (eng_eth en) \<noteq> proxy_url"
    and "run_app S (with_transport A (direct_post C L) id) (at_url (target_url px) en) msgs w = (r, w')"
  shows "\<exists>r2 w2. run_app S (with_transport A
        (proxied_post C L proxy_url ''/'' (EngineApiProxy_router L px :: (_, 'e) service)) upstream)
      (at_url proxy_url en) msgs (behind pw w) = (r2, w2) \<and>
    same_result r r2 \<and> node w2 = node w' \<and> outputs w2 = outputs w' \<and> upstream (el w2) = el w'"
proof -
  let ?R = "\<lambda>u v. shipped_relays C L v \<and> upstream v = u \<and> eth_url (eng_eth en) \<noteq> proxy_url"
  have alike: "alike ?R w (behind pw w)"
    using assms(1-6) by (auto simp: alike_def behind_def shipped_relays_def)
  show ?thesis
    by (rule unnoticed [OF engine_simulation.sim_run [OF shipped.simulation] alike assms(7)])
qed

section \<open>The token\<close>

text \<open>An address that answers 401 to every request without a token, as the Engine API demands.\<close>

definition demands_token :: "('u, 'y) proxy_lib_scheme \<Rightarrow> string \<Rightarrow> bool" where
  "demands_token L url \<longleftrightarrow> (\<forall>hs b u. map_of hs ''authorization'' = None \<longrightarrow>
     (\<exists>x u'. http_send L url hs b u = (Some (401, x), u')))"

lemma injected_fault:
  assumes "should_inject_fault hash m w = (Inr (Some r), w')"
  shows "r = fault_response"
  using assms by (auto simp: should_inject_fault_def bind_io_Inr split: if_splits)

lemma shipped_rejected:
  assumes "client_laws C L" and "json_laws L" and "demands_token L (target_url px)"
  shows "\<exists>a w'. proxied_post C L url ''/'' (EngineApiProxy_router L px :: (_, 'e) service) url t token body w = (a, w') \<and> failing a"
proof (cases "sendable L token")
  case True
  obtain f w1 where f: "(should_inject_fault (default_hash L) (rq_method body) w :: ('e, Response option) result \<times> _) = (f, w1)"
    by fastforce
  from assms(3) obtain x u where "http_send L (target_url px) [(''content-type'', bytes_of_string ''application/json'')]
      (request_text C body) (upstream w1) = (Some (401, x), u)"
    unfolding demands_token_def by fastforce
  note forward = shipped_forward [OF this refl]
  have fails: "failing (read_answer C (answer_of (Inr fault_response)))" "failing (read_answer C (answer_of (Inl e)))"
    "failing (read_answer C (answer_of (Inr (json_response 401 y))))" for e y
    by (simp_all add: read_answer_def answer_of_def json_response_def fault_response_def)
  note fails = fails internal_error_fails [OF assms(1,2)]
  obtain r w' where r: "(EngineApiProxy_router L px (client_request C ''/'' token body) w :: ('e, Response) result \<times> _) = (r, w')"
    by fastforce
  have "failing (read_answer C (answer_of r))"
  proof (cases f)
    case (Inl e)
    with f r show ?thesis by (auto simp: shipped_call [OF assms(1)] fails)
  next
    case (Inr answer)
    with f have "x = fault_response" if "answer = Some x" for x using that by (auto dest: injected_fault)
    with f r Inr show ?thesis
      by (cases answer; cases x) (auto simp: shipped_call [OF assms(1)] forward fails bind_io_def status_from_u16_def)
  qed
  with True r show ?thesis by (simp add: proxied_post_def)
qed (simp add: proxied_post_def direct_post_def)

lemma rejected_request:
  assumes "\<And>token body w. \<exists>a w'. http_post E (er_url api) t (Some token) body w = (a, w') \<and> failing a"
  shows "\<exists>e w'. EngineRPC_rpc_request (engine_lib.truncate E) api m params t f w = (fail e, w')"
proof -
  have fails: "\<exists>e w'. bind_io (post_json (engine_lib.truncate E) (er_url api) t (Some token) body)
      (\<lambda>x. lift_io (read_body (engine_lib.truncate E) f x)) w = (fail e, w')" for token body w
  proof -
    from assms obtain a w' where a: "http_post E (er_url api) t (Some token) body w = (a, w')" "failing a" by blast
    then show ?thesis
      by (cases a) (auto simp: post_json_def read_body_def bind_io_def)
  qed
  show ?thesis
  proof (cases "jwt_encode E (auth_key (er_auth api)) (current_timestamp E w)")
    case (Inl e)
    then show ?thesis
      by (simp add: rpc_request_reads generate_token_def generate_token_with_claims_def generate_claims_at_timestamp_def)
  next
    case (Inr token)
    with fails show ?thesis
      by (simp add: rpc_request_reads generate_token_def generate_token_with_claims_def generate_claims_at_timestamp_def)
  qed
qed

lemma check_rejected:
  assumes "\<And>token body w. \<exists>a w'. http_post E (er_url (eng_api en)) 1 (Some token) body w = (a, w') \<and> failing a"
  shows "\<exists>e w'. check_capabilities (engine_lib.truncate E) en w = (fail e, w')"
proof -
  from rejected_request [OF assms] obtain e w' where
    "EngineRPC_rpc_request (engine_lib.truncate E) (eng_api en) ENGINE_EXCHANGE_CAPABILITIES
       (json_capabilities (engine_lib.truncate E) NODE_CAPABILITIES) 1 (from_capabilities (engine_lib.truncate E)) w = (fail e, w')"
    by blast
  then have "check_capabilities (engine_lib.truncate E) en w = (fail e, w')"
    unfolding check_capabilities_def exchange_capabilities_def by (intro bind_io_simps(1))
  then show ?thesis by blast
qed

text \<open>No node starts behind the shipped proxy. It forwards a call without the headers, so the token is lost:
  with an execution layer that demands it, whatever the proxy injects, the first message of consensus makes
  the application end with an error, and the node has neither a head nor answered anything.\<close>

theorem shipped_proxy_rejected:
  assumes "client_laws C L" and "json_laws L" and "demands_token L (target_url px)"
  shows "\<exists>e w'. run_app S (with_transport A
        (proxied_post C L proxy_url ''/'' (EngineApiProxy_router L px :: (_, 'e) service)) upstream)
      (at_url proxy_url en) (ConsensusReady # msgs) w = (fail e, w') \<and>
    node w' = node w \<and> outputs w' = outputs w"
proof -
  let ?E = "with_transport A
    (proxied_post C L proxy_url ''/'' (EngineApiProxy_router L px :: (_, 'e) service)) upstream"
  let ?api = "eng_api (at_url proxy_url en)"
  have "\<exists>a w'. http_post ?E (er_url ?api) 1 (Some token) body w = (a, w') \<and> failing a" for token body w
    using shipped_rejected [OF assms] by (simp add: with_transport_def at_url_def)
  then obtain e v where "check_capabilities (engine_lib.truncate ?E) (at_url proxy_url en) (el w) = (fail e, v)"
    using check_rejected [of ?E "at_url proxy_url en" "el w"] by blast
  then show ?thesis by (simp add: consensus_ready_def on_el_def bind_io_def)
qed

end
