(* ===== verification/Reference_Node_Proxy.thy ===== *)
theory Reference_Node_Proxy
  imports Node_Proxy Reference_Engine Reference_Proxy
begin

text \<open>
  A concrete client and execution layer for a node behind a proxy: JSON in hexadecimal digits, so that it is
  ASCII, and an execution layer that plays a script and demands the token at its Engine API; with them the
  witnesses of the properties of a node behind a proxy.
\<close>

section \<open>An ASCII format\<close>

fun hexed :: "bytes \<Rightarrow> bytes" where
  "hexed [] = []"
| "hexed (b # bs) = b div 16 # b mod 16 # hexed bs"

fun unhexed :: "bytes \<Rightarrow> bytes option" where
  "unhexed [] = Some []"
| "unhexed (a # b # bs) = map_option ((#) (a * 16 + b)) (unhexed bs)"
| "unhexed _ = None"

lemma unhexed_hexed [simp]: "unhexed (hexed bs) = Some bs"
  by (induction bs) (simp_all add: div_mult_mod_eq)

lemma hexed_ascii: "\<forall>b\<in>set (hexed bs). b < 0x80"
proof (induction bs)
  case (Cons b bs)
  have "b div 16 < 0x80" "b mod 16 < 0x80"
    using unat_u8_less [of b] by (simp_all add: word_less_nat_alt unat_div unat_mod)
  with Cons show ?case by simp
qed simp

section \<open>A client and an execution layer\<close>

definition capable :: "string set" where
  "capable = {ENGINE_NEW_PAYLOAD_V3, ENGINE_GET_PAYLOAD_V3, ENGINE_FORKCHOICE_UPDATED_V3}"

lemma capable_mem:
  "ENGINE_NEW_PAYLOAD_V3 \<in> capable" "ENGINE_GET_PAYLOAD_V3 \<in> capable" "ENGINE_FORKCHOICE_UPDATED_V3 \<in> capable"
  by (simp_all add: capable_def)

text \<open>The texts of three answers.\<close>

definition spell :: "answer \<Rightarrow> bytes" where
  "spell a = (case a of A_caps _ \<Rightarrow> [0] | A_block _ \<Rightarrow> [1] | _ \<Rightarrow> [2])"

definition test_client :: "answer client_lib" where
  "test_client = \<lparr>request_text = (\<lambda>b. hexed (put_json (JObject [(''method'', JString (rq_method b))]))),
     response_of_text = (\<lambda>t. case t of
        [n] \<Rightarrow> Some \<lparr>rs_jsonrpc = ''2.0'', rs_error = None,
          rs_result = (if n = 0 then A_caps capable else if n = 1 then A_block (Some head_block) else A_null),
          rs_id = A_null\<rparr>
      | _ \<Rightarrow> None)\<rparr>"

abbreviation (input) api_url :: string where "api_url \<equiv> ''http://localhost:8551''"

definition gate_lib :: "answer list proxy_lib" where
  "gate_lib = \<lparr>json_parse = (\<lambda>t. Option.bind (unhexed t) (json_parse std_json)),
     json_text = (\<lambda>v. hexed (put_json v)), request_from_slice = (\<lambda>_. None), response_from_slice = (\<lambda>_. None),
     default_hash = (\<lambda>m. 15),
     http_send = (\<lambda>url hs b u.
        if url \<in> {api_url, ''http://127.0.0.1:8550''} \<and> map_of hs ''authorization'' = None then (Some (401, Some []), u)
        else (case u of [] \<Rightarrow> (None, []) | a # as \<Rightarrow> (Some (200, Some (spell a)), as))),
     response_text = (\<lambda>_ b. b), header_value_ok = (\<lambda>_. True), utc_now = (\<lambda>_. ''''),
     cors_preflight = (\<lambda>_. None), cors_headers = (\<lambda>_ r. r), other_route = (\<lambda>_. json_response 404 [])\<rparr>"

lemma gate_laws: "client_laws test_client gate_lib" "json_laws gate_lib" "upstream_laws gate_lib"
    "cors_laws gate_lib" "demands_token gate_lib api_url" "demands_token gate_lib ''http://127.0.0.1:8550''"
proof -
  have "\<not> (\<exists>v. json_parse gate_lib t = Some v)" if "response_of_text test_client t = Some r" for t r
    using that by (auto simp: test_client_def gate_lib_def split: list.splits)
  then show "client_laws test_client gate_lib"
    by (auto simp: client_laws_def test_client_def gate_lib_def std_parse_text method_of_def as_str_def
        utf8_valid_ascii hexed_ascii)
  show "json_laws gate_lib" by (simp add: json_laws_def gate_lib_def std_parse_text)
  show "upstream_laws gate_lib"
    by (auto simp: upstream_laws_def gate_lib_def split: if_splits list.splits)
  show "cors_laws gate_lib" by (simp add: cors_laws_def gate_lib_def)
  show "demands_token gate_lib api_url" "demands_token gate_lib ''http://127.0.0.1:8550''"
    by (simp_all add: demands_token_def gate_lib_def)
qed

section \<open>A node behind them\<close>

definition test_proxy :: "(nat, answer list) proxy_world" where
  "test_proxy = \<lparr>slept = [], rng = 0, injector = FaultInjector_disabled, counters = (\<lambda>_. 0), durations = [],
     upstream = []\<rparr>"

definition test_world :: "(mem, answer list) world" where
  "test_world = \<lparr>node = sample_node, el = [A_caps capable, A_block (Some head_block)], network_open = True,
     outputs = []\<rparr>"

abbreviation (input) proxy_address :: string where "proxy_address \<equiv> ''http://localhost:9551''"

abbreviation (input) test_config :: ProxyConfig where
  "test_config \<equiv> ProxyConfig_default\<lparr>pc_upstream_url := api_url\<rparr>"

lemma script_at: "at_url api_url script_el = script_el"
  by (simp add: at_url_def script_el_def)

lemma gate_answers:
  "http_post (with_transport script_app (direct_post test_client gate_lib) id) (er_url (eng_api script_el)) t (Some token) body
     (A_caps capable # as) = (Inr \<lparr>rs_jsonrpc = ''2.0'', rs_error = None, rs_result = A_caps capable, rs_id = A_null\<rparr>, as)"
  "http_post (with_transport script_app (direct_post test_client gate_lib) id) (eth_url (eng_eth script_el)) t None body
     (A_block b # as) = (Inr \<lparr>rs_jsonrpc = ''2.0'', rs_error = None, rs_result = A_block (Some head_block), rs_id = A_null\<rparr>, as)"
  "jwt_encode (with_transport script_app post view) key iat = Inr ''token''"
  "from_capabilities (with_transport script_app post view) (A_caps c) = Inr c"
  "from_block (with_transport script_app post view) (A_block b) = Inr b"
  by (simp_all add: with_transport_def direct_post_def sendable_def gate_lib_def client_headers_def script_el_def
      read_answer_def test_client_def spell_def script_app_def script_engine_def engine_lib.defs)

text \<open>The first message, answered directly: the node gets its head and starts.\<close>

lemma direct_start:
  "run_app mem_lib (with_transport script_app (direct_post test_client gate_lib) id) script_el [ConsensusReady] test_world =
    (fail (Eyre ''Consensus channel closed unexpectedly''),
     test_world\<lparr>node := sample_node\<lparr>latest_block := Some head_block\<rparr>, el := [],
       outputs := [StartHeight (current_height sample_node) (get_validator_set sample_node)]\<rparr>)"
proof -
  let ?E = "engine_lib.truncate (with_transport script_app (direct_post test_client gate_lib) id)"
  have caps: "EngineRPC_rpc_request ?E (eng_api script_el) m params t (from_capabilities ?E)
      [A_caps capable, A_block (Some head_block)] = (Inr capable, [A_block (Some head_block)])" for m params t
    by (simp add: EngineRPC_rpc_request_def generate_token_def generate_token_with_claims_def post_json_def
        gate_answers bind_io_def generate_claims_at_timestamp_def)
  have block: "EthereumRPC_rpc_request ?E (eng_eth script_el) m params t (from_block ?E)
      [A_block (Some head_block)] = (Inr (Some head_block), [])" for m params t
    by (simp add: EthereumRPC_rpc_request_def post_json_def gate_answers bind_io_def)
  have "check_capabilities ?E script_el [A_caps capable, A_block (Some head_block)] = (Inr (), [A_block (Some head_block)])"
    by (simp add: check_capabilities_def exchange_capabilities_def caps bind_io_def capable_mem del: truncate_sel)
  then show ?thesis
    by (simp add: consensus_ready_def get_block_by_number_def block on_el_def bind_io_def test_world_def
        start_height_def send_reply_def get_validator_set_def del: truncate_sel)
qed

theorem node_behind_server_witness:
  "\<exists>r2 w2. run_app mem_lib (with_transport script_app
        (proxied_post test_client gate_lib proxy_address ''/'' (ProxyServer_router gate_lib test_config :: (_, unit) service)) upstream)
      (at_url proxy_address script_el) [ConsensusReady] (behind test_proxy test_world) = (r2, w2) \<and>
    same_result (fail (Eyre ''Consensus channel closed unexpectedly'')) r2 \<and>
    latest_block (node w2) = Some head_block \<and> length (outputs w2) = 1 \<and> upstream (el w2) = []"
proof -
  have off: "\<not> fic_enabled (config (injector test_proxy))"
    by (simp add: test_proxy_def FaultInjector_disabled_def FaultInjector_new_def FaultInjectionConfig_default_def)
  have url: "eth_url (eng_eth script_el) \<noteq> proxy_address" by (simp add: script_el_def)
  have run: "run_app mem_lib (with_transport script_app (direct_post test_client gate_lib) id)
      (at_url (pc_upstream_url test_config) script_el) [ConsensusReady] test_world =
    (fail (Eyre ''Consensus channel closed unexpectedly''),
     test_world\<lparr>node := sample_node\<lparr>latest_block := Some head_block\<rparr>, el := [],
       outputs := [StartHeight (current_height sample_node) (get_validator_set sample_node)]\<rparr>)"
    using direct_start by (simp add: script_at)
  have path: "''/'' = ''/'' \<or> ''/'' = ''/engine''" by simp
  show ?thesis
    using node_behind_server [OF gate_laws(1,3,4) path off url run, where 'e = unit] by (auto simp: test_world_def)
qed

theorem shipped_proxy_rejected_witness:
  "\<exists>e w'. run_app mem_lib (with_transport script_app
        (proxied_post test_client gate_lib proxy_address ''/''
          (EngineApiProxy_router gate_lib \<lparr>target_url = api_url\<rparr> :: (_, unit) service)) upstream)
      (at_url proxy_address script_el) [ConsensusReady] (behind test_proxy test_world) = (fail e, w') \<and>
    latest_block (node w') = latest_block sample_node \<and> outputs w' = []"
proof -
  have demands: "demands_token gate_lib (target_url \<lparr>target_url = api_url\<rparr>)" by (simp add: gate_laws(5))
  show ?thesis
    using shipped_proxy_rejected [OF gate_laws(1,2) demands, of mem_lib script_app proxy_address script_el "[]"
        "behind test_proxy test_world", where 'e = unit]
    by (auto simp: behind_def test_world_def)
qed

end
