(* ===== verification/Proxy_Main.thy ===== *)
theory Proxy_Main
  imports Middleware Proxy_Correct Behind_Proxy
begin

text \<open>
  How the parts of \<open>proxy/src\<close> are put together: the layers of \<open>middleware.rs\<close>, which wrap a service by
  one of its services, the timer of \<open>metrics.rs\<close>, the start of the server of \<open>server.rs\<close>, of the proxy of
  \<open>lib.rs\<close> and of the placeholder of \<open>engine_proxy.rs\<close>, and the program of \<open>main.rs\<close>. Binding an
  address is the parameter \<open>bind\<close>; a bound server answers the requests that come until it is stopped.
\<close>

section \<open>Layers\<close>

type_synonym ('w, 'e) layer = "('w, 'e) service \<Rightarrow> ('w, 'e) service"

text \<open>The injector that a layer shares with the server is part of the world.\<close>

record FaultInjectionLayer = fil_engine_api_handler :: EngineApiHandler

definition FaultInjectionLayer_new :: FaultInjectionLayer where
  "FaultInjectionLayer_new = \<lparr>fil_engine_api_handler = EngineApiHandler_new\<rparr>"

definition with_engine_api_handler :: "EngineApiHandler \<Rightarrow> FaultInjectionLayer" where
  "with_engine_api_handler h = \<lparr>fil_engine_api_handler = h\<rparr>"

definition FaultInjectionLayer_layer ::
  "('u, 'y) proxy_lib_scheme \<Rightarrow> FaultInjectionLayer \<Rightarrow> (('r, 'u, 'x) proxy_world_scheme, 'e) layer" where
  "FaultInjectionLayer_layer L l inner = FaultInjectionService_call L (fil_engine_api_handler l) inner"

definition extract_method_from_request :: "Request \<Rightarrow> string option" where
  "extract_method_from_request req = Some ''unknown''"

record DelayLayer =
  dl_delay_ms :: u64
  dl_variance_ms :: u64

definition DelayLayer_new :: "u64 \<Rightarrow> u64 \<Rightarrow> DelayLayer" where
  "DelayLayer_new d v = \<lparr>dl_delay_ms = d, dl_variance_ms = v\<rparr>"

definition DelayLayer_layer ::
  "('r, 'y) random_lib_scheme \<Rightarrow> DelayLayer \<Rightarrow> (('r, 'x) effects_scheme, 'e) layer" where
  "DelayLayer_layer R l inner = DelayService_call R \<lparr>delay_ms = dl_delay_ms l, variance_ms = dl_variance_ms l\<rparr> inner"

record DropLayer = drl_drop_probability :: f64

definition DropLayer_new :: "f64 \<Rightarrow> DropLayer" where
  "DropLayer_new p = \<lparr>drl_drop_probability = p\<rparr>"

definition DropLayer_layer ::
  "('r, 'y) random_lib_scheme \<Rightarrow> DropLayer \<Rightarrow> (('r, 'x) effects_scheme, 'e) layer" where
  "DropLayer_layer R l inner = DropService_call R \<lparr>drop_probability = drl_drop_probability l\<rparr> inner"

record CorruptionLayer =
  cl_corruption_probability :: f64
  cl_corruption_type :: CorruptionType

definition CorruptionLayer_new :: "f64 \<Rightarrow> CorruptionType \<Rightarrow> CorruptionLayer" where
  "CorruptionLayer_new p t = \<lparr>cl_corruption_probability = p, cl_corruption_type = t\<rparr>"

definition CorruptionLayer_layer ::
  "'z json_lib_scheme \<Rightarrow> ('r, 'y) random_lib_scheme \<Rightarrow> CorruptionLayer \<Rightarrow> (('r, 'x) effects_scheme, 'e) layer" where
  "CorruptionLayer_layer J R l inner = CorruptionService_call J R
     \<lparr>corruption_probability = cl_corruption_probability l, corruption_type = cl_corruption_type l\<rparr> inner"

text \<open>\<open>ServiceBuilder\<close>: the first layer is the outermost.\<close>

fun layered :: "('w, 'e) layer list \<Rightarrow> ('w, 'e) layer" where
  "layered [] svc = svc"
| "layered (l # ls) svc = l (layered ls svc)"

lemma router_layered:
  "ProxyServer_router L cfg =
    layered [cors_layer L, FaultInjectionLayer_layer L FaultInjectionLayer_new] (ProxyServer_routes L cfg)"
  by (simp add: ProxyServer_router_def FaultInjectionLayer_layer_def FaultInjectionLayer_new_def fun_eq_iff)

section \<open>The timer of \<open>metrics.rs\<close>\<close>

text \<open>Instants in nanoseconds; an earlier end counts as no time. \<open>secs\<close> prints the seconds of a duration.\<close>

record RequestTimer = rt_start :: nat

definition start_request_timer :: "nat \<Rightarrow> RequestTimer" where
  "start_request_timer now = \<lparr>rt_start = now\<rparr>"

definition RequestTimer_finish ::
  "(nat \<Rightarrow> string) \<Rightarrow> nat \<Rightarrow> RequestTimer \<Rightarrow> (('r, 'u, 'x) proxy_world_scheme, 'e, unit) io" where
  "RequestTimer_finish secs now t = record_request_duration (secs (now - rt_start t))"

section \<open>Servers\<close>

text \<open>A proxy that starts: nothing slept, nothing counted, its injector and its upstream.\<close>

definition fresh_proxy :: "FaultInjector \<Rightarrow> 'r \<Rightarrow> 'u \<Rightarrow> ('r, 'u) proxy_world" where
  "fresh_proxy f r u = \<lparr>slept = [], rng = r, injector = f, counters = (\<lambda>_. 0), durations = [], upstream = u\<rparr>"

text \<open>\<open>axum::serve\<close> gives each request a task, so a panic closes only its connection.\<close>

fun answers :: "('w, 'e) service \<Rightarrow> Request list \<Rightarrow> 'w \<Rightarrow> (nat \<times> Body) option list \<times> 'w" where
  "answers svc [] w = ([], w)"
| "answers svc (q # qs) w = (case svc q w of (r, w') \<Rightarrow> apfst ((#) (answer_of r)) (answers svc qs w'))"

definition serve_at ::
  "(string \<Rightarrow> string + unit) \<Rightarrow> string \<Rightarrow> ('w, 'e) service \<Rightarrow> Request list \<Rightarrow>
    ('w, Report, (nat \<times> Body) option list) io" where
  "serve_at bind addr svc qs =
     bind_io (lift_io (lift_lib LibError (bind addr))) (\<lambda>_ w. apfst Inr (answers svc qs w))"

record ProxyState =
  ps_config :: ProxyConfig
  ps_fault_injector :: FaultInjector

text \<open>\<open>ProxyServer::new\<close>, where the HTTP client may fail to be built, and \<open>serve\<close>.\<close>

definition ProxyServer_new :: "(string + unit) \<Rightarrow> ProxyConfig \<Rightarrow> (Report, ProxyState) result" where
  "ProxyServer_new client cfg = and_then (lift_lib LibError client) (\<lambda>_.
     Inr \<lparr>ps_config = cfg, ps_fault_injector = FaultInjector_new (pc_fault_injection cfg)\<rparr>)"

definition ProxyServer_serve ::
  "('u, 'y) proxy_lib_scheme \<Rightarrow> (string \<Rightarrow> string + unit) \<Rightarrow> ProxyState \<Rightarrow> string \<Rightarrow> Request list \<Rightarrow>
    (('r, 'u, 'x) proxy_world_scheme, Report, (nat \<times> Body) option list) io" where
  "ProxyServer_serve L bind s addr qs =
     serve_at bind addr (ProxyServer_router L (ps_config s) :: (_, Report) service) qs"

text \<open>\<open>EngineApiProxy::start\<close>, \<open>update_config\<close> and \<open>get_stats\<close>.\<close>

definition EngineApiProxy_start ::
  "('u, 'y) proxy_lib_scheme \<Rightarrow> (string \<Rightarrow> string + unit) \<Rightarrow> EngineApiProxy \<Rightarrow> string \<Rightarrow> Request list \<Rightarrow>
    (('r, 'u, 'x) proxy_world_scheme, Report, (nat \<times> Body) option list) io" where
  "EngineApiProxy_start L bind proxy addr qs =
     serve_at bind addr (EngineApiProxy_router L proxy :: (_, Report) service) qs"

definition EngineApiProxy_update_config :: "FaultInjector \<Rightarrow> FaultInjectionConfig \<Rightarrow> (Report, unit) result" where
  "EngineApiProxy_update_config f c = FaultInjector_update_config f c"

definition EngineApiProxy_get_stats :: "FaultInjector \<Rightarrow> FaultStats" where
  "EngineApiProxy_get_stats f = get_stats f"

section \<open>\<open>engine_proxy.rs\<close>\<close>

text \<open>\<open>str::trim\<close>: the bytes of a white space character at the start of a text, and both ends cut.\<close>

fun space_bytes :: "bytes \<Rightarrow> nat" where
  "space_bytes (a # bs) =
     (if 9 \<le> a \<and> a \<le> 13 \<or> a = 32 then 1 else
      (case bs of [] \<Rightarrow> 0 | b # cs \<Rightarrow>
        if a = 0xC2 \<and> (b = 0x85 \<or> b = 0xA0) then 2 else
        (case cs of [] \<Rightarrow> 0 | c # _ \<Rightarrow>
          if a = 0xE1 \<and> b = 0x9A \<and> c = 0x80 \<or> a = 0xE3 \<and> b = 0x80 \<and> c = 0x80 \<or>
             a = 0xE2 \<and> (b = 0x80 \<and> (0x80 \<le> c \<and> c \<le> 0x8A \<or> c = 0xA8 \<or> c = 0xA9 \<or> c = 0xAF) \<or> b = 0x81 \<and> c = 0x9F)
          then 3 else 0)))"
| "space_bytes [] = 0"

function trim_start :: "bytes \<Rightarrow> bytes" where
  "trim_start bs = (if bs = [] \<or> space_bytes bs = 0 then bs else trim_start (drop (space_bytes bs) bs))"
  by pat_completeness auto
termination by (relation "measure length") (auto simp: neq_Nil_conv)

declare trim_start.simps [simp del]

fun trim_end :: "bytes \<Rightarrow> bytes" where
  "trim_end [] = []"
| "trim_end (b # bs) = (if trim_start (b # bs) = [] then [] else b # trim_end bs)"

definition trim :: "bytes \<Rightarrow> bytes" where
  "trim bs = trim_end (trim_start bs)"

record EngineProxy =
  ep_target_url :: string
  ep_jwt_secret :: bytes
  ep_fault_injector :: FaultInjector
  ep_listen_url :: string

text \<open>The file is read as UTF-8; the address to listen on is a placeholder.\<close>

definition EngineProxy_new ::
  "string \<Rightarrow> (string + bytes) \<Rightarrow> FaultInjector \<Rightarrow> (Report, EngineProxy) result" where
  "EngineProxy_new target jwt_file f =
     and_then (lift_lib (\<lambda>e. Eyre (''Failed to read JWT secret: '' @ e)) jwt_file) (\<lambda>t.
     Inr \<lparr>ep_target_url = target, ep_jwt_secret = trim t, ep_fault_injector = f,
       ep_listen_url = ''http://127.0.0.1:0''\<rparr>)"

definition EngineProxy_start :: "EngineProxy \<Rightarrow> string \<Rightarrow> (Report, unit) result" where
  "EngineProxy_start p addr = Inr ()"

definition EngineProxy_update_fault_config :: "EngineProxy \<Rightarrow> FaultInjectionConfig \<Rightarrow> (Report, unit) result" where
  "EngineProxy_update_fault_config p c = FaultInjector_update_config (ep_fault_injector p) c"

section \<open>\<open>main.rs\<close>\<close>

record ProxyArgs =
  pa_listen :: string
  pa_target :: string
  pa_enable_faults :: bool
  pa_log_level :: string

text \<open>The arguments of a command line without options.\<close>

definition ProxyArgs_default :: ProxyArgs where
  "ProxyArgs_default = \<lparr>pa_listen = ''127.0.0.1:8551'', pa_target = ''http://127.0.0.1:8550'',
     pa_enable_faults = False, pa_log_level = ''info''\<rparr>"

text \<open>The probability 0.1 as a bit pattern.\<close>

definition main_fault_config :: "ProxyArgs \<Rightarrow> FaultInjectionConfig option" where
  "main_fault_config a =
     (if pa_enable_faults a
      then Some \<lparr>fic_enabled = True, fic_scenarios = [], fic_global_probability = 0x3FB999999999999A,
        fic_engine_api_specific = None\<rparr>
      else None)"

text \<open>The program: its exit status, the answers it gave, and the proxy at its end.\<close>

definition proxy_main ::
  "('u, 'y) proxy_lib_scheme \<Rightarrow> (string \<Rightarrow> string + unit) \<Rightarrow> ProxyArgs \<Rightarrow> Request list \<Rightarrow> 'r \<Rightarrow> 'u \<Rightarrow>
    nat \<times> (nat \<times> Body) option list \<times> ('r, 'u) proxy_world" where
  "proxy_main L bind a qs r u =
     (case EngineApiProxy_new (pa_target a) (main_fault_config a) of
        (proxy, f) \<Rightarrow> (case EngineApiProxy_start L bind proxy (pa_listen a) qs (fresh_proxy f r u) of
            (Inl e, w) \<Rightarrow> (1, [], w)
          | (Inr as, w) \<Rightarrow> (0, as, w)))"

end
