(* ===== verification/Programs.thy ===== *)
theory Programs
  imports Node Spammer Proxy_Main
begin

text \<open>
  The programs of the repository around the components: a node from its start to its end (\<open>app/src/node.rs\<close>),
  the settings its program derives from the command line (\<open>app/src/main.rs\<close>, \<open>cli/src/logging.rs\<close>,
  \<open>runtime.rs\<close>, \<open>args.rs\<close>, \<open>cmd/start.rs\<close>), and the program of \<open>utils/src/main.rs\<close>. Command lines come parsed,
  with the defaults that clap fills in.
\<close>

section \<open>A node, \<open>node.rs\<close>\<close>

text \<open>
  The task that runs the application logs an error and ends well; the join handle gives an error for a
  task that panicked, whose text is \<open>join_error\<close>.
\<close>

definition app_task :: "(string \<Rightarrow> string) \<Rightarrow> (Report, unit) result \<Rightarrow> (Report, unit) result" where
  "app_task join_error r = (case r of Inl (Panic p) \<Rightarrow> fail (LibError (join_error p)) | _ \<Rightarrow> Inr ())"

text \<open>\<open>run\<close>: what it returns, and the world of the node where the application got to run.\<close>

definition App_run ::
  "('db, 'tx, 'z) store_lib_scheme \<Rightarrow> ('f, 'd, 'y) node_lib_scheme \<Rightarrow> ('j, 'el) app_lib \<Rightarrow> (string \<Rightarrow> string) \<Rightarrow>
    'd App \<Rightarrow> AppMsg list \<Rightarrow> 'f \<Rightarrow> 'el \<Rightarrow> bool \<Rightarrow> (Report, unit) result \<times> ('db, 'el) world option" where
  "App_run S N E join_error a msgs fs el_state net =
     (case App_start S N a fs of
        Inl e \<Rightarrow> (Inl e, None)
      | Inr (state, engine) \<Rightarrow>
          (case run_app S E engine msgs \<lparr>node = state, el = el_state, network_open = net, outputs = []\<rparr> of
             (r, w) \<Rightarrow> (app_task join_error r, Some w)))"

datatype task_state = TaskRunning | TaskAborted

record Handle =
  handle_app :: task_state
  handle_engine :: task_state

text \<open>\<open>kill\<close> stops the consensus actor first; where that fails nothing is aborted.\<close>

definition Handle_kill :: "(string + unit) \<Rightarrow> Handle \<Rightarrow> (Report, unit) result \<times> Handle" where
  "Handle_kill kill_and_wait h = (case kill_and_wait of
     Inl e \<Rightarrow> (fail (LibError e), h)
   | Inr _ \<Rightarrow> (Inr (), h\<lparr>handle_app := TaskAborted, handle_engine := TaskAborted\<rparr>))"

section \<open>Settings of its program\<close>

text \<open>The levels and formats are those of the configuration library.\<close>

record ('lv, 'fm) LoggingSettings =
  log_level :: 'lv
  log_format :: 'fm

definition main_logging ::
  "('lv, 'fm) LoggingSettings \<Rightarrow> 'lv option \<Rightarrow> 'fm option \<Rightarrow> ('lv, 'fm) LoggingSettings" where
  "main_logging dflt level fm =
     (let lg = (case level of Some l \<Rightarrow> dflt\<lparr>log_level := l\<rparr> | None \<Rightarrow> dflt) in
      case fm of Some f \<Rightarrow> lg\<lparr>log_format := f\<rparr> | None \<Rightarrow> lg)"

definition get_log_level_or_default :: "'lv \<Rightarrow> 'lv option \<Rightarrow> 'lv" where
  "get_log_level_or_default dflt level = (case level of Some l \<Rightarrow> l | None \<Rightarrow> dflt)"

definition TARGET_CRATES :: "string list" where
  "TARGET_CRATES = [''informalsystems_malachitebft'', ''malachitebft_eth'']"

fun join_with :: "string \<Rightarrow> string list \<Rightarrow> string" where
  "join_with sep [] = ''''"
| "join_with sep [s] = s"
| "join_with sep (s # t # ts) = s @ sep @ join_with sep (t # ts)"

definition default_directive :: "('lv \<Rightarrow> string) \<Rightarrow> 'lv \<Rightarrow> string" where
  "default_directive show_level level = join_with '','' (map (\<lambda>c. c @ ''='' @ show_level level) TARGET_CRATES)"

definition enable_ansi :: "bool \<Rightarrow> bool \<Rightarrow> bool" where
  "enable_ansi stdout_is_terminal stderr_is_terminal = (stdout_is_terminal \<and> stderr_is_terminal)"

record Subscriber =
  sub_target :: bool
  sub_filter :: string
  sub_ansi :: bool
  sub_thread_ids :: bool
  sub_json :: bool

datatype LogStyle = Plaintext | Json

definition logging_init :: "('lv \<Rightarrow> string) \<Rightarrow> bool \<Rightarrow> bool \<Rightarrow> 'lv \<Rightarrow> LogStyle \<Rightarrow> Subscriber" where
  "logging_init show_level out err level style =
     \<lparr>sub_target = False, sub_filter = default_directive show_level level, sub_ansi = enable_ansi out err,
      sub_thread_ids = False, sub_json = (case style of Plaintext \<Rightarrow> False | Json \<Rightarrow> True)\<rparr>"

record RuntimeBuilder =
  rb_multi_thread :: bool
  rb_worker_threads :: "usize option"
  rb_enable_all :: bool

definition build_runtime :: "RuntimeConfig \<Rightarrow> RuntimeBuilder" where
  "build_runtime cfg = (case cfg of
     RuntimeSingleThreaded \<Rightarrow> \<lparr>rb_multi_thread = False, rb_worker_threads = None, rb_enable_all = True\<rparr>
   | RuntimeMultiThreaded worker_threads \<Rightarrow> \<lparr>rb_multi_thread = True,
       rb_worker_threads = (if 0 < worker_threads then Some worker_threads else None), rb_enable_all = True\<rparr>)"

record StartCmd = start_height :: "u64 option"

text \<open>\<open>cmd/start.rs\<close>: the addresses at which metrics are served, and the result of the node.\<close>

definition start_node :: "(Report, unit) result \<Rightarrow> (bool \<times> string) option \<Rightarrow> string list \<times> (Report, unit) result" where
  "start_node node_run metrics =
     ((case metrics of Some (enabled, listen_addr) \<Rightarrow> if enabled then [listen_addr] else [] | None \<Rightarrow> []), node_run)"

definition StartCmd_run ::
  "StartCmd \<Rightarrow> (Report, unit) result \<Rightarrow> (bool \<times> string) option \<Rightarrow> string list \<times> (Report, unit) result" where
  "StartCmd_run cmd node_run metrics = start_node node_run metrics"

section \<open>\<open>utils/src/main.rs\<close>\<close>

record SpamCmd =
  sc_rpc_url :: string
  sc_num_txs :: u64
  sc_rate :: u64
  sc_time :: u64
  sc_blobs :: bool
  sc_signer_index :: usize

text \<open>The options that a command line leaves out.\<close>

definition SpamCmd_defaults :: SpamCmd where
  "SpamCmd_defaults = \<lparr>sc_rpc_url = ''127.0.0.1:8545'', sc_num_txs = 0, sc_rate = 1000, sc_time = 0, sc_blobs = False,
     sc_signer_index = 0\<rparr>"

datatype UtilsCommands = GenesisCommand | SpamCommand SpamCmd

text \<open>The spammer that the command \<open>spam\<close> runs; \<open>parse_url\<close> is the library's.\<close>

definition spam_command ::
  "('s, 'el, 'y) wallet_lib_scheme \<Rightarrow> (string \<Rightarrow> string + string) \<Rightarrow> SpamCmd \<Rightarrow> (Report, 's Spammer) result" where
  "spam_command W parse_url cmd =
     and_then (lift_lib LibError (parse_url (''http://'' @ sc_rpc_url cmd))) (\<lambda>url.
       Spammer_new W url (sc_signer_index cmd) (sc_num_txs cmd) (sc_time cmd) (sc_rate cmd) (sc_blobs cmd))"

text \<open>The program: the genesis is written, or the spammer is there to be run.\<close>

fun utils_main ::
  "('s, 'el, 'y) wallet_lib_scheme \<Rightarrow> ('f, 'd, 'x) file_lib_scheme \<Rightarrow> (CliError \<Rightarrow> string) \<Rightarrow>
    (string \<Rightarrow> string + string) \<Rightarrow> UtilsCommands \<Rightarrow> (('r, 'f) cli_world, Report, 's Spammer option) io" where
  "utils_main W F show parse_url GenesisCommand =
     bind_io (report_cli (\<lambda>e. LibError (show e)) (generate_chain_genesis W F)) (\<lambda>_. return_io None)"
| "utils_main W F show parse_url (SpamCommand cmd) =
     bind_io (lift_io (spam_command W parse_url cmd)) (\<lambda>s. return_io (Some s))"

end
