(* ===== verification/Programs_Correct.thy ===== *)
theory Programs_Correct
  imports Programs Node_Proxy Node_Correct Spammer_Correct
begin

text \<open>
  The properties of whole programs: what the proxy program answers, a node that is started from its files
  behind it, and a spammer without limits.
\<close>

section \<open>The proxy program\<close>

text \<open>What it should answer to one request, and to several, where only the upstream has a state.\<close>

definition program_answer ::
  "('u, 'y) proxy_lib_scheme \<Rightarrow> ProxyArgs \<Rightarrow> Request \<Rightarrow> 'u \<Rightarrow> Response \<times> 'u" where
  "program_answer L a q u =
     (if path q = ''/'' \<and> verb q = ''POST'' then
        (case req_body q of
           None \<Rightarrow> (lib_create_error_response L (-32700) ''Failed to read request body'', u)
         | Some b \<Rightarrow>
        (case extract_method L (utf8_lossy b) of
           None \<Rightarrow> (lib_create_error_response L (-32700) ''Parse error'', u)
         | Some m \<Rightarrow>
           if pa_enable_faults a \<and> default_hash L m mod 100 < 10 then (fault_response, u)
           else (case http_send L (pa_target a) [(''content-type'', bytes_of_string ''application/json'')] (utf8_lossy b) u of
               (Some (code, Some x), u') \<Rightarrow>
                 (json_response (case status_from_u16 code of None \<Rightarrow> 500 | Some c \<Rightarrow> c) (response_text L u' x), u')
             | (_, u') \<Rightarrow> (lib_create_error_response L (-32000) ''Internal error'', u'))))
      else (other_route L q, u))"

fun program_answers ::
  "('u, 'y) proxy_lib_scheme \<Rightarrow> ProxyArgs \<Rightarrow> Request list \<Rightarrow> 'u \<Rightarrow> (nat \<times> Body) option list \<times> 'u" where
  "program_answers L a [] u = ([], u)"
| "program_answers L a (q # qs) u = (case program_answer L a q u of
     (r, u') \<Rightarrow> apfst ((#) (Some (status_code r, resp_body r))) (program_answers L a qs u'))"

text \<open>The injector during such a run, which has counted \<open>n\<close> requests at most.\<close>

definition injector_ok :: "('u, 'y) proxy_lib_scheme \<Rightarrow> bool \<Rightarrow> nat \<Rightarrow> ('r, 'u, 'x) proxy_world_scheme \<Rightarrow> bool" where
  "injector_ok L e n w \<longleftrightarrow> stats_ok (default_hash L) (injector w) \<and> fic_enabled (config (injector w)) = e \<and>
     unat (request_count (injector w)) \<le> n"

lemma injector_okI:
  "injector_ok L e n w \<Longrightarrow> injector w' = injector w \<Longrightarrow> injector_ok L e (Suc n) w'"
  by (simp add: injector_ok_def)

lemma inject_step:
  assumes "injector_ok L e n w" and "n + 1 < 2 ^ 64"
  shows "\<exists>w'. (should_inject_fault (default_hash L) m w :: ('e, Response option) result \<times> _) =
      (Inr (if e \<and> default_hash L m mod 100 < 10 then Some fault_response else None), w') \<and>
    upstream w' = upstream w \<and> injector_ok L e (Suc n) w'"
proof -
  from assms have ok: "stats_ok (default_hash L) (injector w)" and e: "fic_enabled (config (injector w)) = e"
    and c: "unat (request_count (injector w)) + 1 < 2 ^ 64" and n: "unat (request_count (injector w)) \<le> n"
    by (auto simp: injector_ok_def)
  have le: "unat (request_count (injector w)) \<le> unat (request_count (injector w) + 1)" using unat_Suc [OF c] by simp
  consider "\<not> e" | "e" "\<not> default_hash L m mod 100 < 10" | "e" "default_hash L m mod 100 < 10" by blast
  then show ?thesis
  proof cases
    case 1
    with e n ok show ?thesis by (simp add: inject_disabled injector_ok_def)
  next
    case 2
    let ?w = "w\<lparr>injector := (injector w)\<lparr>request_count := request_count (injector w) + 1\<rparr>\<rparr>"
    have "injector_ok L e (Suc n) ?w"
      using stats_ok_count [OF ok le] e n unat_Suc [OF c] by (simp add: injector_ok_def)
    with 2 e inject_none [of w "default_hash L" m] c show ?thesis by (intro exI [of _ ?w]) simp
  next
    case 3
    with e have "faulty (default_hash L) (injector w) m" by (simp add: faulty_def)
    note fault = inject_fault [OF ok this c]
    let ?w = "w\<lparr>slept := slept w @ [100], injector := (injector w)\<lparr>request_count := request_count (injector w) + 1,
      stats := with_fault m (stats (injector w))\<rparr>\<rparr>"
    have "injector_ok L e (Suc n) ?w"
      using stats_ok_fault [OF ok c 3(2)] e n unat_Suc [OF c] by (simp add: injector_ok_def)
    with 3 fault show ?thesis by (intro exI [of _ ?w]) simp
  qed
qed

lemma answer_step:
  assumes "injector_ok L (pa_enable_faults a) n w" and "n + 1 < 2 ^ 64" and "program_answer L a q (upstream w) = (r, u)"
  shows "\<exists>w'. (EngineApiProxy_router L \<lparr>target_url = pa_target a\<rparr> q w :: ('e, Response) result \<times> _) = (Inr r, w') \<and>
    upstream w' = u \<and> injector_ok L (pa_enable_faults a) (Suc n) w'"
proof (cases "\<exists>b m. path q = ''/'' \<and> verb q = ''POST'' \<and> req_body q = Some b \<and> extract_method L (utf8_lossy b) = Some m")
  case False
  with assms(3) have "(EngineApiProxy_router L \<lparr>target_url = pa_target a\<rparr> q w :: ('e, Response) result \<times> _) = (Inr r, w) \<and> u = upstream w"
    by (auto simp: program_answer_def EngineApiProxy_router_def handle_engine_api_def Let_def split: option.splits if_splits)
  with injector_okI [OF assms(1), of w] show ?thesis by blast
next
  case True
  then obtain b m where q: "path q = ''/''" "verb q = ''POST''" "req_body q = Some b" "extract_method L (utf8_lossy b) = Some m"
    by blast
  from inject_step [OF assms(1,2), of m] obtain w1 where
    w1: "(should_inject_fault (default_hash L) m w :: ('e, Response option) result \<times> _) =
      (Inr (if pa_enable_faults a \<and> default_hash L m mod 100 < 10 then Some fault_response else None), w1)"
      "upstream w1 = upstream w" "injector_ok L (pa_enable_faults a) (Suc n) w1" by blast
  obtain s u' where s: "http_send L (pa_target a) [(''content-type'', bytes_of_string ''application/json'')] (utf8_lossy b) (upstream w1) = (s, u')"
    by fastforce
  note forward = shipped_forward [OF s refl, where 'e = 'e]
  have "injector_ok L (pa_enable_faults a) (Suc n) (w1\<lparr>upstream := u'\<rparr>)" using w1(3) by (simp add: injector_ok_def)
  with w1 assms(3) s show ?thesis
    by (cases s) (auto simp: program_answer_def q EngineApiProxy_router_def handle_engine_api_def Let_def bind_io_def forward
        split: option.splits if_splits)
qed

lemma answers_all:
  assumes "injector_ok L (pa_enable_faults a) n w" and "n + length qs < 2 ^ 64"
  shows "\<exists>w'. answers (EngineApiProxy_router L \<lparr>target_url = pa_target a\<rparr> :: (_, 'e) service) qs w =
      (fst (program_answers L a qs (upstream w)), w') \<and> upstream w' = snd (program_answers L a qs (upstream w))"
  using assms
proof (induction qs arbitrary: n w)
  case (Cons q qs)
  obtain r u where r: "program_answer L a q (upstream w) = (r, u)" by fastforce
  from Cons.prems(2) have n: "n + 1 < 2 ^ 64" "Suc n + length qs < 2 ^ 64" by auto
  from answer_step [OF Cons.prems(1) n(1) r] obtain w' where
    w': "(EngineApiProxy_router L \<lparr>target_url = pa_target a\<rparr> q w :: ('e, Response) result \<times> _) = (Inr r, w')"
      "upstream w' = u" "injector_ok L (pa_enable_faults a) (Suc n) w'" by blast
  from Cons.IH [OF w'(3) n(2)] w' r show ?case by (auto simp: answer_of_def split: prod.splits)
qed simp

lemma program_injector:
  "injector_ok L (pa_enable_faults a) 0 (fresh_proxy (snd (EngineApiProxy_new t (main_fault_config a))) r u)"
  by (simp add: injector_ok_def fresh_proxy_def EngineApiProxy_new_def main_fault_config_def FaultInjector_disabled_def
      FaultInjectionConfig_default_def stats_ok_new) (simp add: FaultInjector_new_def)

text \<open>C9: the proxy program keeps no state that matters to its clients: while it has seen fewer than 2 ^ 64 requests
  it answers each of them as one does that has only the upstream. With the faults enabled a method gets the
  fault always or never, without them every call is forwarded; and where its address cannot be bound the
  program answers nothing and its exit status is 1.\<close>

theorem proxy_program_answers:
  assumes "length qs < 2 ^ 64"
  shows "\<exists>w. proxy_main L bind a qs r u = (case bind (pa_listen a) of
      Inl e \<Rightarrow> (1, [], w) | Inr _ \<Rightarrow> (0, fst (program_answers L a qs u), w)) \<and>
    upstream w = (case bind (pa_listen a) of Inl e \<Rightarrow> u | Inr _ \<Rightarrow> snd (program_answers L a qs u))"
proof -
  let ?w = "fresh_proxy (snd (EngineApiProxy_new (pa_target a) (main_fault_config a))) r u"
  have u: "upstream ?w = u" by (simp add: fresh_proxy_def)
  have n: "0 + length qs < 2 ^ 64" using assms by simp
  have "injector_ok L (pa_enable_faults a) 0 ?w" by (rule program_injector)
  from answers_all [OF this n, where 'e = Report] u obtain w' where
    "answers (EngineApiProxy_router L \<lparr>target_url = pa_target a\<rparr> :: (_, Report) service) qs ?w =
      (fst (program_answers L a qs u), w')" "upstream w' = snd (program_answers L a qs u)"
    by auto
  with u show ?thesis
    by (cases "bind (pa_listen a)")
      (auto simp: proxy_main_def EngineApiProxy_start_def serve_at_def EngineApiProxy_new_def bind_io_def lift_lib_def
        lift_io_def split: option.splits)
qed

section \<open>A node behind the proxy program\<close>

lemma App_start_url:
  assumes "App_start S N a fs = Inr (st, en)"
  shows "at_url (engine_url (moniker (app_config a))) en = en"
  using assms by (auto simp: App_start_def and_then_Inr_iff Let_def EngineRPC_new_def Engine_new_def at_url_def)

text \<open>C8: a node that is started from its files behind the proxy program, which listens where the node looks for its
  Engine API, does nothing and reports success, whatever the arguments of the proxy, when the execution
  layer demands the token: the first message ends the application with an error, its task logs it, and
  run returns without an error, the state as it was started and nothing answered or published.\<close>

theorem node_behind_program_ends_well:
  assumes "client_laws C L" and "json_laws L" and "demands_token L (pa_target p)"
    and "App_start S N a fs = Inr (st, en)"
  shows "\<exists>w'. App_run S N (with_transport A (proxied_post C L (engine_url (moniker (app_config a))) ''/''
        (EngineApiProxy_router L (fst (EngineApiProxy_new (pa_target p) (main_fault_config p))) :: (_, 'e) service)) upstream)
      join_error a (ConsensusReady # msgs) fs el_state net = (Inr (), Some w') \<and>
    node w' = st \<and> outputs w' = []"
proof -
  let ?p = "fst (EngineApiProxy_new (pa_target p) (main_fault_config p))"
  let ?w = "\<lparr>node = st, el = el_state, network_open = net, outputs = []\<rparr>"
  have "demands_token L (target_url ?p)" using assms(3) by (simp add: EngineApiProxy_new_def)
  from shipped_proxy_rejected [OF assms(1,2) this, of S A "engine_url (moniker (app_config a))" en msgs ?w, where 'e = 'e]
    App_start_url [OF assms(4)] assms(4)
  show ?thesis by (auto simp: App_run_def app_task_def)
qed

section \<open>The application and its task\<close>

text \<open>The loop ends with an error or a panic only, so \<open>run\<close> reports an error exactly for a panic.\<close>

lemma run_app_never_ok: "fst (run_app S E en msgs w) \<noteq> Inr ()"
  by (induction msgs arbitrary: w) (auto simp: bind_io_def lift_io_def split: prod.splits sum.splits)

section \<open>The spammer without limits\<close>

text \<open>A spammer whose number and time are the defaults of its command line ends by an error only.\<close>

lemma unlimited_never_ends:
  assumes "spam_trace X P as (spam_init P now nd) w" and "max_num_txs P = 0" and "max_time P = 0"
  shows "spammer w \<noteq> Finishing \<and> spammer w \<noteq> SpammerEnded (Inr ())"
proof (rule spam_trace_invariant [where I = "\<lambda>w. spammer w \<noteq> Finishing \<and> spammer w \<noteq> SpammerEnded (Inr ())", OF assms(1)])
  have limit: "\<not> limit_reached P w" for w using assms(2,3) by (simp add: limit_reached_def)
  show "spammer w' \<noteq> Finishing \<and> spammer w' \<noteq> SpammerEnded (Inr ())"
    if "spammer w \<noteq> Finishing \<and> spammer w \<noteq> SpammerEnded (Inr ())" "spammer_step X P w = Some w'" for w w'
    using that by (auto simp: limit spammer_connect_def spammer_submit_def spammer_count_def Let_def
        split: spammer_pc.splits if_splits prod.splits sum.splits)
  show "spammer w' \<noteq> Finishing \<and> spammer w' \<noteq> SpammerEnded (Inr ())"
    if "spammer w \<noteq> Finishing \<and> spammer w \<noteq> SpammerEnded (Inr ())" "w' \<in> set (tracker_choices X P w)" for w w'
    using tracker_frame [OF that(2)] that(1) by simp
qed (simp_all add: spam_init_def)

lemma default_spammer_never_ends:
  assumes "spam_command W parse_url SpamCmd_defaults = Inr P" and "spam_trace X P as (spam_init P now nd) w"
  shows "spammer w \<noteq> SpammerEnded (Inr ())"
  using unlimited_never_ends [OF assms(2)] assms(1)
  by (auto simp: spam_command_def and_then_Inr_iff Spammer_new_def SpamCmd_defaults_def split: if_splits)

section \<open>Settings\<close>

lemma join_error_iff_panic:
  "(\<exists>e. fst (App_run S N E j a msgs fs u net) = Inl e) \<longleftrightarrow>
    (\<exists>e. App_start S N a fs = Inl e) \<or>
    (\<exists>st en p. App_start S N a fs = Inr (st, en) \<and>
      fst (run_app S E en msgs \<lparr>node = st, el = u, network_open = net, outputs = []\<rparr>) = panic p)"
  by (auto simp: App_run_def app_task_def split: sum.splits prod.splits fault.splits)

end
