(* ===== verification/Reference_Programs.thy ===== *)
theory Reference_Programs
  imports Programs_Correct Reference_Node_Proxy Reference_Cli
begin

text \<open>
  Concrete runs of whole programs, for the witnesses: the proxy program with its default arguments before an
  execution layer that demands the token, and a node started from two files behind it.
\<close>

section \<open>The proxy program\<close>

definition chain_call :: "answer JsonRequestBody" where
  "chain_call = \<lparr>rq_jsonrpc = ''2.0'', rq_method = ''eth_chainId'', rq_params = A_null, rq_id = A_null\<rparr>"

definition chain_request :: Request where
  "chain_request = client_request test_client ''/'' None chain_call"

lemma chain_answer:
  "program_answer gate_lib ProxyArgs_default chain_request u = (json_response 401 [], u)"
proof -
  have m: "extract_method gate_lib (request_text test_client chain_call) = Some ''eth_chainId''"
    using client_lawsD(1) [OF gate_laws(1), of chain_call] by (simp add: extract_method_def chain_call_def)
  have b: "utf8_lossy (request_text test_client chain_call) = request_text test_client chain_call"
    by (rule utf8_lossy_valid [OF client_lawsD(2) [OF gate_laws(1)]])
  show ?thesis
    by (simp add: program_answer_def chain_request_def client_request_def b m ProxyArgs_default_def)
      (simp add: gate_lib_def status_from_u16_def)
qed

theorem proxy_program_answers_witness:
  "\<exists>w. proxy_main gate_lib (\<lambda>_. Inr ()) ProxyArgs_default [chain_request, chain_request] (0 :: nat) [A_null] =
      (0, [Some (401, Some []), Some (401, Some [])], w) \<and> upstream w = [A_null]"
proof -
  have "length [chain_request, chain_request] < 2 ^ 64" by simp
  from proxy_program_answers [OF this, of gate_lib "\<lambda>_. Inr ()" ProxyArgs_default "0 :: nat" "[A_null]"]
  show ?thesis by (simp add: chain_answer json_response_def)
qed

section \<open>A node behind it\<close>

definition file_app :: "unit App" where
  "file_app = \<lparr>app_config = sample_config 0, app_home_dir = [''home''], app_genesis_file = [''genesis''],
     app_private_key_file = [''key''], app_start_height = None\<rparr>"

definition two_files :: files where
  "two_files = [[''key''] \<mapsto> bytes_text [9],
     [''genesis''] \<mapsto> bytes_text (fst ser_genesis \<lparr>validator_set = \<lparr>validators = []\<rparr>\<rparr>)]"

lemma file_app_starts: "\<exists>st en. App_start mem_lib map_files file_app two_files = Inr (st, en)"
proof -
  have db: "\<exists>db. Store_open mem_lib p DbMetrics_new = Inr (db :: mem Db)" for p
    by (simp add: Store_open_def Db_new_def Db_create_tables_def)
  have texts: "key_text map_files (PrivateKey [9]) = Inr (bytes_text [9])"
    "genesis_text map_files g = Inr (bytes_text (fst ser_genesis g))" for g by (simp_all add: map_files_def)
  have files: "file_text map_files (app_private_key_file file_app) two_files = Some (bytes_text [9])"
    "file_text map_files (app_genesis_file file_app) two_files =
      Some (bytes_text (fst ser_genesis \<lparr>validator_set = \<lparr>validators = []\<rparr>\<rparr>))"
    by (simp_all add: map_files_def file_app_def two_files_def)
  have engine: "start_engine map_files c h vs = Inr ()" for c h vs by (simp add: map_files_def)
  have jwt: "jwt_from_file map_files p fs = Inr [1, 2, 3]" for p fs by (simp add: map_files_def)
  from db obtain d where d: "Store_open mem_lib (path_text map_files (app_home_dir file_app @ [''store.db''])) DbMetrics_new =
      Inr (d :: mem Db)" by blast
  from App_start_ok [OF map_files_node_laws texts(1) files(1) texts(2) files(2) engine d jwt] show ?thesis by fast
qed

theorem node_behind_program_ends_well_witness:
  "\<exists>st en w'. App_start mem_lib map_files file_app two_files = Inr (st, en) \<and>
    App_run mem_lib map_files (with_transport script_app (proxied_post test_client gate_lib ''http://localhost:8551'' ''/''
        (EngineApiProxy_router gate_lib (fst (EngineApiProxy_new (pa_target ProxyArgs_default)
          (main_fault_config ProxyArgs_default))) :: (_, unit) service)) upstream)
      id file_app [ConsensusReady] two_files test_proxy True = (Inr (), Some w') \<and>
    node w' = st \<and> outputs w' = []"
proof -
  obtain st en where start: "App_start mem_lib map_files file_app two_files = Inr (st, en)" using file_app_starts by blast
  have target: "demands_token gate_lib (pa_target ProxyArgs_default)" by (simp add: gate_laws(6) ProxyArgs_default_def)
  have digits: "dec_digits 8551 = [8, 5, 5, 1]" by (simp add: dec_digits.simps)
  have "map digit_char [8, 5, 5, 1] = ''8551''" by code_simp
  then have "show_nat 8551 = ''8551''" by (simp only: show_nat_def digits)
  then have url: "engine_url (moniker (app_config file_app)) = ''http://localhost:8551''"
    by (simp add: file_app_def sample_config_names engine_url_def engine_port_def)
  note run = node_behind_program_ends_well [OF gate_laws(1,2) target start, where 'e = unit and A = script_app
      and join_error = id and msgs = "[]" and el_state = test_proxy and net = True, unfolded url]
  show ?thesis by (rule exI [of _ st], rule exI [of _ en]) (use start run in simp)
qed

end
