(* ===== verification/Agreement.thy ===== *)
theory Agreement
  imports Equivocation
begin

text \<open>
  From the proposer to the decision: a proposal that one node sends is what every node that receives it decides,
  as long as the receiver accepts no other value for the same height and round; \<open>Equivocation\<close> shows that
  this cannot be left out.
\<close>

lemma first_for_some:
  assumes "(s, v) \<in> set outs" and "(prv_height v, prv_round v) = k"
  shows "\<exists>s' v'. (s', v') \<in> set outs \<and> (prv_height v', prv_round v') = k \<and> first_for k outs = Some v'"
  using assms
proof (induction k outs rule: first_for.induct)
  case (2 k s1 v1 outs)
  show ?case
  proof (cases "(prv_height v1, prv_round v1) = k")
    case True
    then show ?thesis by (intro exI [of _ s1] exI [of _ v1]) simp
  next
    case False
    with 2 obtain s' v' where "(s', v') \<in> set outs" "(prv_height v', prv_round v') = k" "first_for k outs = Some v'" by auto
    with False show ?thesis by (intro exI [of _ s'] exI [of _ v']) simp
  qed
qed simp

text \<open>A node has accepted one value for a height and round at most.\<close>

definition only_value :: "Height \<Rightarrow> Round \<Rightarrow> Value \<Rightarrow> (stream_key \<times> ProposedValue) list \<Rightarrow> bool" where
  "only_value h r x outs \<longleftrightarrow> (\<forall>(k, v) \<in> set outs. prv_height v = h \<and> prv_round v = r \<longrightarrow> prv_value v = x)"

text \<open>C2: what a proposer sends is what every receiver decides. A node that knows the proposer and receives the
  messages of its proposal, in any order, repeated and interleaved with those of other proposals, accepts
  it, and if it has accepted no other value for that height and round, then a certificate for them makes
  it decide the proposer's value under that certificate.\<close>

theorem sent_proposal_decided:
  fixes L :: "('db, 'tx, 'z) store_lib_scheme" and sender :: "'db2 State"
  assumes "node_laws L \<alpha> \<beta>" and "redb_reliable (redb L)"
    and "stream_proposal L value data sender = (Inr msgs, sender')" and "length data < 2 ^ 63"
    and "knows L rcv sender" and "current_height rcv \<le> lpv_height value"
    and "streams_ok (streams_map rcv)" and "streams (streams_map rcv) (peer, sm_stream_id (hd msgs)) = None"
    and "no_overflow ds" and "\<forall>(p, m) \<in> set ds. content_ok (sm_content m)"
    and "set (delivered (peer, sm_stream_id (hd msgs)) ds) = set msgs"
    and "store_ready L \<alpha> \<beta> (store rcv)" and "hval (current_height rcv) + 1 < 2 ^ 64"
    and "lg_proposal (held L \<alpha> (store rcv)) (lpv_height value, lpv_round value) = None"
    and "cert_height c = lpv_height value" and "cert_round c = lpv_round value"
  shows "\<exists>outs rcv'. receive_all L ds rcv = (Inr outs, rcv') \<and>
    (only_value (lpv_height value) (lpv_round value) (Value_new L data) outs \<longrightarrow>
      (\<exists>st. commit L c rcv' = (Inr (), st) \<and> fst (State_get_decided_value L (lpv_height value) st) =
        Some \<lparr>dv_value = Value_new L data, dv_certificate = c\<rparr>))"
proof -
  let ?v = "\<lparr>prv_height = lpv_height value, prv_round = lpv_round value, prv_valid_round = RNil,
    prv_proposer = address sender, prv_value = Value_new L data, prv_validity = Valid\<rparr>"
  from proposal_delivered [OF assms(1-11)] obtain outs rcv' where run: "receive_all L ds rcv = (Inr outs, rcv')"
    and got: "map snd (filter (\<lambda>(k, _). k = (peer, sm_stream_id (hd msgs))) outs) = [?v]"
    and rounds: "\<forall>(k, v) \<in> set outs. prv_round v \<noteq> RNil"
    by (elim exE conjE) (rule that)
  have "?v \<in> snd ` set (filter (\<lambda>(k, _). k = (peer, sm_stream_id (hd msgs))) outs)"
    using got by (metis list.set_intros(1) list.set_map)
  then obtain s where s: "(s, ?v) \<in> set outs" by auto
  have nil: "cert_round c \<noteq> RNil" using rounds s assms(16) by fastforce
  from first_for_some [OF s, of "(cert_height c, cert_round c)"] assms(15,16) obtain s' v' where
    v': "(s', v') \<in> set outs" "prv_height v' = lpv_height value" "prv_round v' = lpv_round value"
      "first_for (cert_height c, cert_round c) outs = Some v'" by auto
  have none: "lg_proposal (held L \<alpha> (store rcv)) (cert_height c, cert_round c) = None" using assms(14-16) by simp
  from first_decided [OF assms(12) run rounds none v'(4) nil assms(13)] assms(15) obtain st where
    "commit L c rcv' = (Inr (), st)"
    "fst (State_get_decided_value L (lpv_height value) st) = Some \<lparr>dv_value = prv_value v', dv_certificate = c\<rparr>" by auto
  moreover have "prv_value v' = Value_new L data"
    if "only_value (lpv_height value) (lpv_round value) (Value_new L data) outs"
    using that v'(1-3) by (fastforce simp: only_value_def)
  ultimately show ?thesis using run by (intro exI [of _ outs] exI [of _ rcv']) auto
qed

theorem sent_proposal_decided_witness:
  "\<exists>outs rcv' st. receive_all mem_lib (split_ds 5) sample_node = (Inr outs, rcv') \<and>
    commit mem_lib first_certificate rcv' = (Inr (), st) \<and>
    fst (State_get_decided_value mem_lib (Height 1) st) =
      Some \<lparr>dv_value = Value_new mem_lib [5], dv_certificate = first_certificate\<rparr>"
proof -
  have sid: "sm_stream_id (hd (split_msgs 5)) = sample_sid" by (simp add: split_msgs_def)
  have ds: "no_overflow (split_ds 5)" "\<forall>(p, m) \<in> set (split_ds 5). content_ok (sm_content m)"
    "set (delivered (PeerId [4], sm_stream_id (hd (split_msgs 5))) (split_ds 5)) = set (split_msgs 5)"
    unfolding sid by (auto simp: split_msgs_def split_ds_def no_overflow_def delivered_def)
  have node: "current_height sample_node \<le> lpv_height (split_lpv 5)" "hval (current_height sample_node) + 1 < 2 ^ 64"
    "streams (streams_map sample_node) (PeerId [4], sm_stream_id (hd (split_msgs 5))) = None"
    by (simp_all add: split_lpv_def less_eq_Height_def PartStreamsMap_new_def)
  have streams: "streams_ok (streams_map sample_node)" by (simp add: streams_ok_new)
  have key: "cert_height first_certificate = lpv_height (split_lpv 5)" "cert_round first_certificate = lpv_round (split_lpv 5)"
    "lpv_height (split_lpv 5) = Height 1"
    by (simp_all add: split_lpv_def first_certificate_def)
  have redb: "redb_reliable (redb mem_lib)" by (simp add: mem_redb_reliable)
  have small: "length ([5] :: bytes) < 2 ^ 63" by simp
  have empty: "lg_proposal (held mem_lib map_of (store sample_node)) (lpv_height (split_lpv 5), lpv_round (split_lpv 5)) = None"
    using sample_ledger_empty(1) by simp
  from sent_proposal_decided [OF mem_node_laws redb split_sent small sample_knows node(1) streams node(3) ds sample_node_ready
      node(2) empty key(1,2)]
  obtain outs rcv' where run: "receive_all mem_lib (split_ds 5) sample_node = (Inr outs, rcv')"
    and dec: "only_value (Height 1) (lpv_round (split_lpv 5)) (Value_new mem_lib [5]) outs \<longrightarrow>
      (\<exists>st. commit mem_lib first_certificate rcv' = (Inr (), st) \<and> fst (State_get_decided_value mem_lib (Height 1) st) =
        Some \<lparr>dv_value = Value_new mem_lib [5], dv_certificate = first_certificate\<rparr>)"
    unfolding key(3) by blast
  have "only_value (Height 1) (lpv_round (split_lpv 5)) (Value_new mem_lib [5]) outs"
    using split_received [of 5] run by (auto simp: only_value_def)
  with run dec show ?thesis by blast
qed

end
