(* ===== verification/Spec2Isabelle.thy ===== *)
theory Spec2Isabelle
  imports
    Prelude External Wire Heights Addresses Values Messages Validators Signing Codec Reference_Libs
    Streaming Store_Keys Db_Metrics Store Reference_Db Store_Correct Engine State Dissemination
    Dissemination_Examples Types_Correct Ledger State_Correct App Engine_Correct App_Correct App_Sync
    Reference_Engine Utf8 Http Engine_Api Fault_Injector Proxy Middleware Proxy_Correct
    Middleware_Correct Reference_Proxy Cli_Config Cli Cli_Correct Cli_Files Node
    Node_Correct Reference_Cli Transactions Spammer Spammer_Correct Reference_Spammer Equivocation Simulation
    Behind_Proxy Node_Proxy Reference_Node_Proxy Proxy_Main Programs Programs_Correct Reference_Programs
    Agreement
begin

text \<open>
  \<^bold>\<open>A model of a consensus application on an Ethereum execution layer.\<close>

  The repository runs a Tendermint node (the Malachite engine, a library) whose values are Ethereum
  execution payloads. The parts and how they interact:

  \<^item> \<open>types/src\<close>: the data that nodes exchange, their protobuf forms, signatures, validator sets and
    proposer selection.
  \<^item> \<open>app/src\<close>: a node. \<open>streaming.rs\<close> reassembles the parts of a proposal, \<open>store.rs\<close> keeps proposals,
    decisions and block data in redb, \<open>state.rs\<close> makes, checks, stores and commits proposals, \<open>app.rs\<close>
    serves the messages of the consensus engine with the state and the execution layer, \<open>node.rs\<close> starts
    a node from its files.
  \<^item> \<open>engine/src\<close>: the clients of the execution layer (Engine API and Ethereum JSON-RPC).
  \<^item> \<open>proxy/src\<close>: an HTTP proxy between a node and its execution layer that injects faults for tests.
  \<^item> \<open>cli/src\<close>: the commands that write the keys, genesis and configurations of nodes.
  \<^item> \<open>utils/src\<close>: a spammer that sends transactions to an execution layer, and the genesis that funds it.

  \<^bold>\<open>Theories.\<close>

  \<^item> \<open>Prelude\<close>: results (\<open>Inl (Err e)\<close> an error value, \<open>Inl (Panic p)\<close> a panic, \<open>Inr x\<close> a value), the
    state monad \<open>io\<close>, checked arithmetic (release builds keep overflow checks, so an overflow is a
    panic), big-endian bytes, printing of numbers, chunks, consecutive deduplication.
  \<^item> \<open>External\<close>: what is not under \<open>src/\<close>: the data of the libraries, the prost messages that the build
    generates from \<open>consensus.proto\<close>, and records of library functions with the documented laws the
    code relies on (\<open>lib_laws\<close>). \<open>Reference_Libs\<close> and \<open>Reference_Db\<close> instantiate them by concrete
    functions (a real serialiser, an in-memory ordered database), so the laws can hold.
  \<^item> \<open>Wire\<close>: the locales of a wire format, \<open>Heights\<close>, \<open>Addresses\<close>, \<open>Values\<close>, \<open>Messages\<close>, \<open>Validators\<close>,
    \<open>Signing\<close>, \<open>Codec\<close>: the crate \<open>types\<close>, one theory per source file or two; \<open>Types_Correct\<close> its
    properties.
  \<^item> \<open>Streaming\<close>: \<open>app/src/streaming.rs\<close>; the locale of a priority buffer and the heap that meets it.
  \<^item> \<open>Store_Keys\<close>, \<open>Db_Metrics\<close>, \<open>Store\<close>, \<open>Store_Correct\<close>: \<open>app/src/store/keys.rs\<close>, \<open>metrics.rs\<close> and
    \<open>store.rs\<close>; the locale of a table that keeps the first entry of a key. \<open>Ledger\<close> is the abstract
    specification of the store, and the refinement.
  \<^item> \<open>Engine\<close>: \<open>engine/src\<close>, with \<open>Engine_Correct\<close>. \<open>State\<close>: \<open>app/src/state.rs\<close>, with \<open>State_Correct\<close>.
    \<open>Dissemination\<close>: what one node sends and another accepts, with concrete inputs in
    \<open>Dissemination_Examples\<close>. \<open>Agreement\<close>: from what one node sends to what
    another decides; \<open>Equivocation\<close>: two proposals for one round.
  \<^item> \<open>App\<close>: \<open>app/src/app.rs\<close>, one definition for each message of the engine, and what \<open>node.rs\<close> computes
    for it; \<open>App_Correct\<close> and \<open>App_Sync\<close> its properties, \<open>Reference_Engine\<close> a concrete execution layer.
  \<^item> \<open>Utf8\<close>, \<open>Http\<close>: the strings and the libraries of the proxy; \<open>Engine_Api\<close>, \<open>Fault_Injector\<close>,
    \<open>Proxy\<close>, \<open>Middleware\<close>: \<open>proxy/src\<close>; \<open>Proxy_Correct\<close>, \<open>Middleware_Correct\<close>, \<open>Reference_Proxy\<close>.
  \<^item> \<open>Simulation\<close>, \<open>Behind_Proxy\<close>, \<open>Node_Proxy\<close>: a node and its execution layer with a proxy between them. The
    locale \<open>engine_simulation\<close> carries a relation of two execution layers through the clients and the whole
    event loop, the locale \<open>relay\<close> says when a proxy gives such a relation, and the routers of \<open>server.rs\<close>
    and of \<open>lib.rs\<close> are its instances; concrete ones in \<open>Reference_Node_Proxy\<close>.
  \<^item> \<open>Proxy_Main\<close>, \<open>Programs\<close>: the layers, servers and program of \<open>proxy/src\<close>, the task and the run of a node,
    the settings of \<open>cli/src\<close>, the program of \<open>utils/src\<close>; \<open>Programs_Correct\<close> and \<open>Reference_Programs\<close>.
  \<^item> \<open>Cli_Config\<close>: \<open>cli/src/new.rs\<close>; \<open>Cli\<close>: the commands and their files; \<open>Cli_Correct\<close>, \<open>Cli_Files\<close>.
    \<open>Node\<close>: the rest of \<open>app/src/node.rs\<close> and \<open>main.rs\<close>; \<open>Node_Correct\<close> joins it with the commands;
    \<open>Reference_Cli\<close>.
  \<^item> \<open>Transactions\<close>, \<open>Spammer\<close>: \<open>utils/src\<close>; \<open>Spammer_Correct\<close> with the locale of a measure of the
    statistics; \<open>Reference_Spammer\<close>.

  \<^bold>\<open>Correspondence.\<close> A struct is a record, an enum a datatype, a method a definition of the same name,
  prefixed by its type where the name is taken. Unsigned integers are words of their width; a
  \<open>usize\<close> has 64 bits. A method with \<open>&mut self\<close> returns the new state; where it can fail it keeps the
  changes made before the failure. A call to a library is a field of the library record passed as
  argument (\<open>L\<close>, \<open>R\<close>, \<open>C\<close>, \<open>N\<close>, \<open>X\<close>). The event loop handles one message at a time, so a handler is one
  operation on the world of the node; a lock is held for a whole method. The two tasks of the spammer
  do interleave: they are a step relation, one step from one \<open>await\<close> to the next.

  \<^bold>\<open>What is proved.\<close>

  \<^item> Types: round trips of the codec, signatures that verify, the check of a commit signature, equal
    proposer selectors, a fair rotation.
  \<^item> Streams: reassembly under any delivery order, no forged proposals, the one message that panics,
    and that streams are never removed.
  \<^item> Store: every reachable store is sound, it refines the ledger, proposals are write-once, decided
    values are read back, pruning is exact.
  \<^item> Dissemination: a sent proposal is accepted, an accepted one is signed, bad ones are dropped; where
    the signature can be bent and under which round block data are kept; that every node decides what the proposer
    sent if it accepts nothing else for that round, and that a proposer who signs two proposals makes
    two nodes decide different values under one certificate.
  \<^item> Application: what is decided was executed, decided blocks form a chain, a proposed value can be
    decided, what is proposed was built by the execution layer, and how synchronised values travel.
  \<^item> Proxy: it is transparent for what gets no fault, the choice of a fault depends on the method
    only, the statistics agree in every run, the damage to a response is that of the numbers drawn for it,
    and bounded. The law of \<open>serde_json\<close> is a round trip for the values it preserves (\<open>json_fits\<close>): no floats,
    integers of 64 bits, a nesting below 128.
  \<^item> Node and proxy: with the faults off a node cannot notice the server between itself and its execution
    layer; behind the proxy program a node does nothing and yet reports success where the execution layer
    demands the token; the answers of that program do not depend on its state. Of an execution layer the
    first of these needs only that a repeated, equal content type changes nothing (\<open>upstream_laws\<close>).
  \<^item> Commands: the files of a testnet let every node start as a validator with its own key, the peers of a node, and
    what \<open>init\<close> keeps and gets wrong.
  \<^item> Spammer: nonces and rate, the statistics, a bound on its steps, that \<open>run\<close> can return from
    every reachable state, whatever the limits, and that the total it prints can miss results.

  \<^bold>\<open>Bounds.\<close> Loops are structural or have a termination proof; no fuel is used. With a limit of \<open>n\<close>
  transactions the spammer takes at most \<open>13 * n + 17\<close> steps of its own. Its channels hold 10000, 1 and
  1 messages as in the code.

  \<^bold>\<open>Not modelled.\<close> Logging and tracing, the metrics servers, sockets beyond whether an address can be
  bound, the runtime beyond its settings, the launch of the consensus engine (the library Malachite), the
  parsing of command lines by clap, the build scripts, and the re-exports and aliases of the crates.
\<close>

end
